(* ===== verification/Prelude.thy ===== *)
theory Prelude
  imports Main
begin

text \<open>
  Shared vocabulary of the development: Go errors as values, the two result shapes the
  code has (pure functions that return \<open>(value, error)\<close> and operations that also talk to
  the Teleport service), loops with an early return, and the generic lemmas about them.
\<close>

section \<open>Automation collections\<close>

named_theorems go_defs \<open>definitions unfolded when a concrete input is evaluated\<close>
named_theorems io_simps \<open>rewrite rules of the effect combinators\<close>

section \<open>Errors and results\<close>

text \<open>
  \<open>Errorf m\<close> is \<open>fmt.Errorf\<close> or \<open>errors.New\<close> without a wrapped error, \<open>Wrapf m e\<close> is
  \<open>fmt.Errorf\<close> with \<open>%w\<close>, and \<open>Panic m\<close> is a run-time panic (a nil dereference).
\<close>

datatype error = Errorf string | Wrapf string error | Panic string

type_synonym 'a result = "error + 'a"

fun res_bind :: "'a result \<Rightarrow> ('a \<Rightarrow> 'b result) \<Rightarrow> 'b result" where
  "res_bind (Inl e) f = Inl e"
| "res_bind (Inr a) f = f a"

text \<open>\<open>fmt.Errorf\<close> with \<open>%w\<close> wraps a returned error; a panic passes through it.\<close>

fun wrap_error :: "string \<Rightarrow> error \<Rightarrow> error" where
  "wrap_error m (Panic p) = Panic p"
| "wrap_error m e = Wrapf m e"

fun res_wrap :: "string \<Rightarrow> 'a result \<Rightarrow> 'a result" where
  "res_wrap m (Inl e) = Inl (wrap_error m e)"
| "res_wrap m (Inr a) = Inr a"

text \<open>A Go \<open>for\<close> loop that appends one converted element per step and returns at the first error.\<close>

fun traverse :: "('a \<Rightarrow> 'b result) \<Rightarrow> 'a list \<Rightarrow> 'b list result" where
  "traverse f [] = Inr []"
| "traverse f (x # xs) =
     res_bind (f x) (\<lambda>y. res_bind (traverse f xs) (\<lambda>ys. Inr (y # ys)))"

lemma res_bind_Inr_iff:
  "res_bind r f = Inr b \<longleftrightarrow> (\<exists>a. r = Inr a \<and> f a = Inr b)"
  by (cases r) auto

lemma res_bind_Inl_iff:
  "res_bind r f = Inl e \<longleftrightarrow> r = Inl e \<or> (\<exists>a. r = Inr a \<and> f a = Inl e)"
  by (cases r) auto

lemma res_wrap_Inr_iff [simp]: "res_wrap m r = Inr a \<longleftrightarrow> r = Inr a"
  by (cases r) auto

lemma traverse_Inr_iff:
  "traverse f xs = Inr ys \<longleftrightarrow> list_all2 (\<lambda>x y. f x = Inr y) xs ys"
  by (induction xs arbitrary: ys)
    (auto simp: res_bind_Inr_iff list_all2_Cons1)

lemma traverse_total:
  "(\<And>x. x \<in> set xs \<Longrightarrow> f x = Inr (g x)) \<Longrightarrow> traverse f xs = Inr (map g xs)"
  by (induction xs) auto

lemma traverse_fails_iff:
  "(\<exists>e. traverse f xs = Inl e) \<longleftrightarrow> (\<exists>x \<in> set xs. \<exists>e. f x = Inl e)"
proof (induction xs)
  case (Cons x xs)
  then show ?case by (cases "f x"; cases "traverse f xs") auto
qed simp

lemma traverse_first_error:
  assumes "traverse f xs = Inl e"
  shows "\<exists>ys x zs. xs = ys @ x # zs \<and> f x = Inl e \<and> (\<forall>y \<in> set ys. \<exists>b. f y = Inr b)"
  using assms
proof (induction xs)
  case (Cons x xs)
  show ?case
  proof (cases "f x")
    case (Inl e')
    with Cons.prems have "e' = e" by simp
    with Inl show ?thesis by (metis append_Nil empty_iff list.set(1))
  next
    case (Inr b)
    with Cons.prems have "traverse f xs = Inl e"
      by (cases "traverse f xs") auto
    then obtain ys y zs where "xs = ys @ y # zs" "f y = Inl e" "\<forall>y \<in> set ys. \<exists>b. f y = Inr b"
      using Cons.IH by blast
    with Inr show ?thesis
      by (intro exI [of _ "x # ys"] exI [of _ y] exI [of _ zs]) auto
  qed
qed simp

section \<open>Operations against a stateful service\<close>

text \<open>
  An operation that calls the Teleport service takes the state of the outside world and
  returns its result with the new state: \<open>('s, 'a) io\<close>. The world \<open>'s\<close> is a parameter, so
  nothing is assumed about how the service reacts unless a lemma says so.
\<close>

type_synonym ('s, 'a) io = "'s \<Rightarrow> 'a result \<times> 's"

definition io_return :: "'a \<Rightarrow> ('s, 'a) io" where
  [io_simps]: "io_return a = (\<lambda>s. (Inr a, s))"

definition io_fail :: "error \<Rightarrow> ('s, 'a) io" where
  [io_simps]: "io_fail e = (\<lambda>s. (Inl e, s))"

definition io_lift :: "'a result \<Rightarrow> ('s, 'a) io" where
  [io_simps]: "io_lift r = (\<lambda>s. (r, s))"

definition io_bind :: "('s, 'a) io \<Rightarrow> ('a \<Rightarrow> ('s, 'b) io) \<Rightarrow> ('s, 'b) io" where
  "io_bind m f = (\<lambda>s. case m s of (Inl e, s') \<Rightarrow> (Inl e, s') | (Inr a, s') \<Rightarrow> f a s')"

definition io_wrap :: "string \<Rightarrow> ('s, 'a) io \<Rightarrow> ('s, 'a) io" where
  "io_wrap msg m = (\<lambda>s. case m s of (r, s') \<Rightarrow> (res_wrap msg r, s'))"

lemma io_bind_Inl [io_simps]: "m s = (Inl e, s') \<Longrightarrow> io_bind m f s = (Inl e, s')"
  by (simp add: io_bind_def)

lemma io_bind_Inr [io_simps]: "m s = (Inr a, s') \<Longrightarrow> io_bind m f s = f a s'"
  by (simp add: io_bind_def)

lemma io_wrap_eq [io_simps]: "m s = (r, s') \<Longrightarrow> io_wrap msg m s = (res_wrap msg r, s')"
  by (simp add: io_wrap_def)

lemma io_bind_lift [simp]:
  "io_bind (io_lift (Inl e)) f = io_fail e"
  "io_bind (io_lift (Inr a)) f = f a"
  by (simp_all add: io_bind_def io_lift_def io_fail_def fun_eq_iff)

lemma io_bind_return [simp]: "io_bind (io_return a) f = f a"
  by (simp add: io_bind_def io_return_def fun_eq_iff)

lemma io_bind_fail [simp]: "io_bind (io_fail e) f = io_fail e"
  by (simp add: io_bind_def io_fail_def fun_eq_iff)

lemma io_bind_assoc: "io_bind (io_bind m f) g = io_bind m (\<lambda>a. io_bind (f a) g)"
  by (simp add: io_bind_def fun_eq_iff split: prod.splits sum.splits)

lemma io_bind_InrE:
  assumes "io_bind m f s = (Inr b, s'')"
  obtains a s' where "m s = (Inr a, s')" "f a s' = (Inr b, s'')"
  using assms by (auto simp: io_bind_def split: prod.splits sum.splits)

lemma io_bind_cong_on:
  "(\<And>a s'. m s = (Inr a, s') \<Longrightarrow> f a s' = g a s') \<Longrightarrow> io_bind m f s = io_bind m g s"
  by (auto simp: io_bind_def split: prod.splits sum.splits)

lemma io_wrap_InrE:
  assumes "io_wrap msg m s = (Inr b, s')"
  obtains "m s = (Inr b, s')"
  using assms by (auto simp: io_wrap_def split: prod.splits)

text \<open>A loop over the effectful conversion of each element, with an early return on the first error.\<close>

fun io_traverse :: "('a \<Rightarrow> ('s, 'b) io) \<Rightarrow> 'a list \<Rightarrow> ('s, 'b list) io" where
  "io_traverse f [] = io_return []"
| "io_traverse f (x # xs) =
     io_bind (f x) (\<lambda>y. io_bind (io_traverse f xs) (\<lambda>ys. io_return (y # ys)))"

lemma io_traverse_InrE:
  assumes "io_traverse f xs s = (Inr ys, s')" "y \<in> set ys"
  obtains x s1 s2 where "x \<in> set xs" "f x s1 = (Inr y, s2)"
  using assms
proof (induction xs arbitrary: ys s thesis)
  case Nil
  then show ?case by (simp add: io_return_def)
next
  case (Cons x xs)
  from Cons.prems(2) [unfolded io_traverse.simps] obtain y0 s1 where f: "f x s = (Inr y0, s1)"
    and rest: "io_bind (io_traverse f xs) (\<lambda>ys. io_return (y0 # ys)) s1 = (Inr ys, s')"
    by (rule io_bind_InrE)
  from rest obtain ys0 where tr: "io_traverse f xs s1 = (Inr ys0, s')" and ys: "ys = y0 # ys0"
    by (rule io_bind_InrE) (simp add: io_return_def)
  show ?case
  proof (cases "y = y0")
    case True
    then show ?thesis using Cons.prems(1) [of x s s1] f by simp
  next
    case False
    then have "y \<in> set ys0" using Cons.prems(3) ys by simp
    then show ?thesis
      using Cons.IH [OF _ tr] Cons.prems(1) by (metis list.set_intros(2))
  qed
qed

lemma io_traverse_fails:
  "io_traverse f xs s = (Inr ys, s1) \<Longrightarrow> f x s1 = (Inl e, s2) \<Longrightarrow>
     io_traverse f (xs @ x # zs) s = (Inl e, s2)"
proof (induction xs arbitrary: s ys)
  case Nil
  then show ?case by (simp add: io_return_def io_bind_def)
next
  case (Cons w ws)
  then show ?case by (fastforce simp: io_bind_def io_return_def split: prod.splits sum.splits)
qed

lemma io_traverse_total:
  "(\<And>x s. x \<in> set xs \<Longrightarrow> f x s = (Inr (g x), s)) \<Longrightarrow> io_traverse f xs s = (Inr (map g xs), s)"
  by (induction xs) (simp_all add: io_return_def io_bind_def)

text \<open>An operation on the world, run beside a second piece of state.\<close>

definition on_world :: "('s, 'a) io \<Rightarrow> ('s \<times> 't, 'a) io" where
  [io_simps]: "on_world m = (\<lambda>(s, t). let (r, s') = m s in (r, (s', t)))"

section \<open>Codecs\<close>

text \<open>
  The shared contract of the encoders of the cursor: what is encoded from a valid value
  decodes to it again. Two codecs compose when the inner one yields valid input of the
  outer one.
\<close>

locale codec =
  fixes enc :: "'a \<Rightarrow> 'b"
    and dec :: "'b \<Rightarrow> 'a result"
    and valid :: "'a \<Rightarrow> bool"
  assumes dec_enc: "valid x \<Longrightarrow> dec (enc x) = Inr x"
begin

lemma enc_inj: "valid x \<Longrightarrow> valid y \<Longrightarrow> enc x = enc y \<Longrightarrow> x = y"
  using dec_enc by (metis sum.inject(2))

lemma enc_eq_iff: "valid x \<Longrightarrow> valid y \<Longrightarrow> enc x = enc y \<longleftrightarrow> x = y"
  using enc_inj by blast

lemma enc_not_error: "valid x \<Longrightarrow> dec (enc x) \<noteq> Inl e"
  by (simp add: dec_enc)

end

locale codec_chain = inner: codec enc1 dec1 valid1 + outer: codec enc2 dec2 valid2
  for enc1 :: "'a \<Rightarrow> 'b" and dec1 valid1 and enc2 :: "'b \<Rightarrow> 'c" and dec2 valid2 +
  assumes valid_enc: "valid1 x \<Longrightarrow> valid2 (enc1 x)"
begin

lemma dec_enc_chain: "valid1 x \<Longrightarrow> res_bind (dec2 (enc2 (enc1 x))) dec1 = Inr x"
  by (simp add: outer.dec_enc valid_enc inner.dec_enc)

end

end
