(* ===== verification/Go_Time.thy ===== *)
theory Go_Time
  imports Prelude
begin

text \<open>
  Go's \<open>time.Time\<close>, \<open>Format(time.RFC3339Nano)\<close> and \<open>time.Parse(time.RFC3339Nano, _)\<close>, which
  the event cursor uses to store instants as text. An instant is the integer number of
  nanoseconds since 1970-01-01T00:00:00Z; the location of a \<open>time.Time\<close> is presentation only
  and every caller formats in UTC. The main result is \<open>go_parse_format\<close>: formatting an instant of the
  years 0 to 9999 and parsing it again gives the same instant.
\<close>

section \<open>Instants\<close>

type_synonym time = int

definition nanos_per_sec :: int where
  "nanos_per_sec = 1000000000"

definition secs_per_day :: int where
  "secs_per_day = 86400"

text \<open>\<open>time.Time{}\<close>, the zero value, is midnight of January 1 of year 1.\<close>

definition zero_time :: time where
  "zero_time = - 62135596800 * nanos_per_sec"

definition time_IsZero :: "time \<Rightarrow> bool" where
  "time_IsZero t \<longleftrightarrow> t = zero_time"

definition time_After :: "time \<Rightarrow> time \<Rightarrow> bool" where
  "time_After t u \<longleftrightarrow> u < t"

definition hour_nanos :: int where
  "hour_nanos = 3600 * nanos_per_sec"

section \<open>The proleptic Gregorian calendar\<close>

text \<open>Days are counted from January 1 of year 1; the Unix epoch is day 719162.\<close>

definition epoch_day :: int where
  "epoch_day = 719162"

definition is_leap :: "int \<Rightarrow> bool" where
  "is_leap y \<longleftrightarrow> y mod 4 = 0 \<and> (y mod 100 \<noteq> 0 \<or> y mod 400 = 0)"

definition days_before_year :: "int \<Rightarrow> int" where
  "days_before_year y = 365 * (y - 1) + (y - 1) div 4 - (y - 1) div 100 + (y - 1) div 400"

definition days_in_year :: "int \<Rightarrow> int" where
  "days_in_year y = (if is_leap y then 366 else 365)"

definition days_in :: "int \<Rightarrow> int \<Rightarrow> int" where
  "days_in m y =
     (if m = 2 then (if is_leap y then 29 else 28)
      else if m = 4 \<or> m = 6 \<or> m = 9 \<or> m = 11 then 30 else 31)"

text \<open>The number of days of the year before month \<open>m\<close> (1 to 12), \<open>l\<close> being 1 in a leap year.\<close>

definition days_before_month :: "int \<Rightarrow> int \<Rightarrow> int" where
  "days_before_month l m =
     (if m \<le> 1 then 0 else if m = 2 then 31 else if m = 3 then 59 + l
      else if m = 4 then 90 + l else if m = 5 then 120 + l else if m = 6 then 151 + l
      else if m = 7 then 181 + l else if m = 8 then 212 + l else if m = 9 then 243 + l
      else if m = 10 then 273 + l else if m = 11 then 304 + l else 334 + l)"

definition leap_day :: "int \<Rightarrow> int" where
  "leap_day y = (if is_leap y then 1 else 0)"

text \<open>The year of a day count and the day of that year, by 400, 100, 4 and 1 year cycles.\<close>

definition year_yday :: "int \<Rightarrow> int \<times> int" where
  "year_yday d =
     (let a = d div 146097; r = d mod 146097;
          b0 = r div 36524; b = b0 - b0 div 4; r1 = r - 36524 * b;
          c = r1 div 1461; r2 = r1 - 1461 * c;
          e0 = r2 div 365; e = e0 - e0 div 4
      in (400 * a + 100 * b + 4 * c + e + 1, r2 - 365 * e))"

definition month_of_yday :: "int \<Rightarrow> int \<Rightarrow> int" where
  "month_of_yday l yd =
     (if yd < 31 then 1 else if yd < 59 + l then 2 else if yd < 90 + l then 3
      else if yd < 120 + l then 4 else if yd < 151 + l then 5 else if yd < 181 + l then 6
      else if yd < 212 + l then 7 else if yd < 243 + l then 8 else if yd < 273 + l then 9
      else if yd < 304 + l then 10 else if yd < 334 + l then 11 else 12)"

text \<open>Year, month and day of a day count, and back (\<open>time.Date\<close> on normalised fields).\<close>

definition civil_of_days :: "int \<Rightarrow> int \<times> int \<times> int" where
  "civil_of_days d =
     (case year_yday d of (y, yd) \<Rightarrow>
        let l = leap_day y; m = month_of_yday l yd
        in (y, m, yd - days_before_month l m + 1))"

definition days_of_civil :: "int \<Rightarrow> int \<Rightarrow> int \<Rightarrow> int" where
  "days_of_civil y m dd = days_before_year y + days_before_month (leap_day y) m + dd - 1"

lemma div_mult_bounds:
  fixes k x :: int
  assumes "0 < k"
  shows "k * (x div k) \<le> x" and "x < k * (x div k) + k"
  using assms pos_mod_sign [of k x] pos_mod_bound [of k x] mult_div_mod_eq [of k x] by linarith+

lemma cap_quarter:
  fixes q :: int
  assumes "0 \<le> q" "q \<le> 4"
  shows "(q = 4 \<and> q - q div 4 = 3) \<or> (q \<le> 3 \<and> q - q div 4 = q)"
proof -
  have "q = 0 \<or> q = 1 \<or> q = 2 \<or> q = 3 \<or> q = 4" using assms by arith
  then show ?thesis by auto
qed

lemma year_yday_cyclesE:
  obtains a b c e yd where
    "year_yday d = (400 * a + 100 * b + 4 * c + e + 1, yd)"
    "d = 146097 * a + 36524 * b + 1461 * c + 365 * e + yd"
    "0 \<le> b" "b \<le> 3" "0 \<le> c" "c \<le> 24" "0 \<le> e" "e \<le> 3" "0 \<le> yd" "yd \<le> 365"
    "yd = 365 \<Longrightarrow> e = 3 \<and> (c = 24 \<longrightarrow> b = 3)"
proof -
  define a r where "a = d div 146097" and "r = d mod 146097"
  define b where "b = r div 36524 - r div 36524 div 4"
  define r1 where "r1 = r - 36524 * b"
  define c where "c = r1 div 1461"
  define r2 where "r2 = r1 - 1461 * c"
  define e where "e = r2 div 365 - r2 div 365 div 4"
  have yy: "year_yday d = (400 * a + 100 * b + 4 * c + e + 1, r2 - 365 * e)"
    unfolding year_yday_def Let_def a_def b_def r_def r1_def c_def r2_def e_def by (rule refl)
  have "d = 146097 * a + r" unfolding a_def r_def by (rule mult_div_mod_eq [symmetric])
  then have d: "d = 146097 * a + 36524 * b + 1461 * c + 365 * e + (r2 - 365 * e)"
    unfolding r2_def r1_def by linarith
  have r: "0 \<le> r" "r < 146097" unfolding r_def by simp_all
  have q1: "36524 * (r div 36524) \<le> r" "r < 36524 * (r div 36524) + 36524"
    by (rule div_mult_bounds, simp)+
  have q: "0 \<le> r div 36524" "r div 36524 \<le> 4" using q1 r by linarith+
  note b = cap_quarter [OF q(1,2), folded b_def]
  have b0: "0 \<le> b" "b \<le> 3" using b q by auto
  have r1: "0 \<le> r1" "r1 \<le> 36524" "r1 = 36524 \<Longrightarrow> b = 3"
    unfolding r1_def using b q1 r by auto
  have c': "1461 * c \<le> r1" "r1 < 1461 * c + 1461"
    unfolding c_def by (rule div_mult_bounds, simp)+
  have c: "0 \<le> c" "c \<le> 24" using c' r1 by linarith+
  have r2: "0 \<le> r2" "r2 \<le> 1460" "r2 = 1460 \<Longrightarrow> c = 24 \<Longrightarrow> b = 3"
    unfolding r2_def using r1 c c' by auto
  have p: "365 * (r2 div 365) \<le> r2" "r2 < 365 * (r2 div 365) + 365"
    by (rule div_mult_bounds, simp)+
  have p': "0 \<le> r2 div 365" "r2 div 365 \<le> 4" using r2 p by linarith+
  note e = cap_quarter [OF p', folded e_def]
  have e0: "0 \<le> e" "e \<le> 3" using e p' by auto
  have yd: "0 \<le> r2 - 365 * e" "r2 - 365 * e \<le> 365" using e p r2 by auto
  have "e = 3 \<and> (c = 24 \<longrightarrow> b = 3)" if "r2 - 365 * e = 365"
  proof -
    have "r2 = 1460" "e = 3" using that e p r2 by auto
    then show ?thesis using r2(3) by blast
  qed
  then show thesis using that [OF yy d b0 c e0 yd] by blast
qed

lemma cycles_div_mod:
  fixes a b c e :: int
  assumes "0 \<le> b" "b \<le> 3" "0 \<le> c" "c \<le> 24" "0 \<le> e" "e \<le> 3"
  defines "x \<equiv> 400 * a + 100 * b + 4 * c + e"
  shows "x div 4 = 100 * a + 25 * b + c" "x mod 4 = e"
    and "x div 100 = 4 * a + b" "x mod 100 = 4 * c + e"
    and "x div 400 = a" "x mod 400 = 100 * b + 4 * c + e"
proof -
  show "x div 4 = 100 * a + 25 * b + c"
    by (rule int_div_pos_eq [where r = e]) (use assms in \<open>simp_all add: x_def\<close>)
  show "x mod 4 = e"
    by (rule int_mod_pos_eq [where q = "100 * a + 25 * b + c"])
      (use assms in \<open>simp_all add: x_def\<close>)
  show "x div 100 = 4 * a + b"
    by (rule int_div_pos_eq [where r = "4 * c + e"]) (use assms in \<open>simp_all add: x_def\<close>)
  show "x mod 100 = 4 * c + e"
    by (rule int_mod_pos_eq [where q = "4 * a + b"]) (use assms in \<open>simp_all add: x_def\<close>)
  show "x div 400 = a"
    by (rule int_div_pos_eq [where r = "100 * b + 4 * c + e"])
      (use assms in \<open>simp_all add: x_def\<close>)
  show "x mod 400 = 100 * b + 4 * c + e"
    by (rule int_mod_pos_eq [where q = a]) (use assms in \<open>simp_all add: x_def\<close>)
qed

lemma succ_mod_eq_0:
  fixes x k :: int
  assumes "1 < k"
  shows "(x + 1) mod k = 0 \<longleftrightarrow> x mod k = k - 1"
proof -
  have r: "0 \<le> x mod k" "x mod k < k" and x: "x = k * (x div k) + x mod k"
    using assms by simp_all
  show ?thesis
  proof (cases "x mod k = k - 1")
    case True
    with x have "x + 1 = k * (x div k) + k" by linarith
    then have "x + 1 = k * (x div k + 1)" by (simp add: distrib_left)
    then have "(x + 1) mod k = 0" by simp
    with True show ?thesis by simp
  next
    case False
    have "(x + 1) mod k = x mod k + 1"
      by (rule int_mod_pos_eq [where q = "x div k"]) (use x r False in linarith)+
    with False r show ?thesis by simp
  qed
qed

lemma is_leap_cycles:
  fixes a b c e :: int
  assumes "0 \<le> b" "b \<le> 3" "0 \<le> c" "c \<le> 24" "0 \<le> e" "e \<le> 3"
  shows "is_leap (400 * a + 100 * b + 4 * c + e + 1) \<longleftrightarrow> e = 3 \<and> (c = 24 \<longrightarrow> b = 3)"
proof -
  have "4 * c + e = 99 \<longleftrightarrow> c = 24 \<and> e = 3"
    using assms by (intro iffI conjI) linarith+
  moreover have "100 * b + 4 * c + e = 399 \<longleftrightarrow> b = 3 \<and> c = 24 \<and> e = 3"
    using assms by (intro iffI conjI) linarith+
  ultimately show ?thesis
    by (auto simp: is_leap_def succ_mod_eq_0 cycles_div_mod [OF assms])
qed

lemma days_before_year_cycles:
  fixes a b c e :: int
  assumes "0 \<le> b" "b \<le> 3" "0 \<le> c" "c \<le> 24" "0 \<le> e" "e \<le> 3"
  shows "days_before_year (400 * a + 100 * b + 4 * c + e + 1)
     = 146097 * a + 36524 * b + 1461 * c + 365 * e"
proof -
  have "400 * a + 100 * b + 4 * c + e + 1 - 1 = 400 * a + 100 * b + 4 * c + e" by simp
  then show ?thesis
    unfolding days_before_year_def using cycles_div_mod [OF assms] by simp
qed

lemma year_yday_correct:
  assumes "year_yday d = (y, yd)"
  shows "days_before_year y + yd = d" and "0 \<le> yd" and "yd < days_in_year y"
proof -
  obtain a b c e yd' where y: "year_yday d = (400 * a + 100 * b + 4 * c + e + 1, yd')"
    and d: "d = 146097 * a + 36524 * b + 1461 * c + 365 * e + yd'"
    and B: "0 \<le> b" "b \<le> 3" "0 \<le> c" "c \<le> 24" "0 \<le> e" "e \<le> 3"
    and yd': "0 \<le> yd'" "yd' \<le> 365"
    and last: "yd' = 365 \<Longrightarrow> e = 3 \<and> (c = 24 \<longrightarrow> b = 3)"
    by (rule year_yday_cyclesE [of d], rule that)
  have eqs: "y = 400 * a + 100 * b + 4 * c + e + 1" "yd = yd'" using assms y by simp_all
  show "days_before_year y + yd = d"
    unfolding eqs days_before_year_cycles [OF B] using d by simp
  show "0 \<le> yd" using yd' eqs by simp
  have "is_leap y" if "yd' = 365" unfolding eqs is_leap_cycles [OF B] using last that by blast
  then show "yd < days_in_year y"
    using yd' eqs(2) by (cases "yd' = 365") (auto simp: days_in_year_def)
qed

lemma month_of_yday_cases:
  assumes "m = month_of_yday l yd" "0 \<le> yd" "yd < 365 + l"
  shows "(m = 1 \<and> yd < 31) \<or> (m = 2 \<and> 31 \<le> yd \<and> yd < 59 + l)
    \<or> (m = 3 \<and> 59 + l \<le> yd \<and> yd < 90 + l) \<or> (m = 4 \<and> 90 + l \<le> yd \<and> yd < 120 + l)
    \<or> (m = 5 \<and> 120 + l \<le> yd \<and> yd < 151 + l) \<or> (m = 6 \<and> 151 + l \<le> yd \<and> yd < 181 + l)
    \<or> (m = 7 \<and> 181 + l \<le> yd \<and> yd < 212 + l) \<or> (m = 8 \<and> 212 + l \<le> yd \<and> yd < 243 + l)
    \<or> (m = 9 \<and> 243 + l \<le> yd \<and> yd < 273 + l) \<or> (m = 10 \<and> 273 + l \<le> yd \<and> yd < 304 + l)
    \<or> (m = 11 \<and> 304 + l \<le> yd \<and> yd < 334 + l) \<or> (m = 12 \<and> 334 + l \<le> yd \<and> yd < 365 + l)"
  using assms unfolding month_of_yday_def by (simp split: if_splits)

lemma days_in_leap_day:
  "days_in m y =
     (if m = 2 then 28 + leap_day y
      else if m = 4 \<or> m = 6 \<or> m = 9 \<or> m = 11 then 30 else 31)"
  by (simp add: days_in_def leap_day_def)

lemma month_of_yday_correct:
  assumes "m = month_of_yday (leap_day y) yd" "0 \<le> yd" "yd < 365 + leap_day y"
  shows "1 \<le> m" and "m \<le> 12" and "days_before_month (leap_day y) m \<le> yd"
    and "yd < days_before_month (leap_day y) m + days_in m y"
proof -
  note C = month_of_yday_cases [OF assms]
  show "1 \<le> m" "m \<le> 12" using C by auto
  show "days_before_month (leap_day y) m \<le> yd"
    using C assms(2) by (elim disjE) (simp_all add: days_before_month_def)
  show "yd < days_before_month (leap_day y) m + days_in m y"
    using C by (elim disjE) (simp_all add: days_before_month_def days_in_leap_day)
qed

lemma civil_of_days_correct:
  assumes "civil_of_days d = (y, m, dd)"
  shows "days_of_civil y m dd = d" and "1 \<le> m" and "m \<le> 12" and "1 \<le> dd" and "dd \<le> days_in m y"
    and "fst (year_yday d) = y"
proof -
  obtain yd where y: "year_yday d = (y, yd)"
    and m: "m = month_of_yday (leap_day y) yd"
    and dd: "dd = yd - days_before_month (leap_day y) m + 1"
    using assms by (auto simp: civil_of_days_def Let_def split: prod.splits)
  note C = year_yday_correct [OF y]
  have yd: "yd < 365 + leap_day y"
    using C(3) by (auto simp: days_in_year_def leap_day_def split: if_splits)
  note M = month_of_yday_correct [OF m C(2) yd]
  show "1 \<le> m" "m \<le> 12" using M by simp_all
  show "1 \<le> dd" "dd \<le> days_in m y" using M(3,4) dd by linarith+
  show "days_of_civil y m dd = d" using C(1) dd by (simp add: days_of_civil_def)
  show "fst (year_yday d) = y" using y by simp
qed

section \<open>Decimal digits\<close>

definition digit :: "nat \<Rightarrow> char" where
  "digit n = char_of (48 + n)"

definition is_digit :: "char \<Rightarrow> bool" where
  "is_digit c \<longleftrightarrow> 48 \<le> (of_char c :: nat) \<and> (of_char c :: nat) \<le> 57"

definition digit_val :: "char \<Rightarrow> nat" where
  "digit_val c = of_char c - 48"

fun dec_digits :: "nat \<Rightarrow> string" where
  "dec_digits n = (if n < 10 then [digit n] else dec_digits (n div 10) @ [digit (n mod 10)])"

declare dec_digits.simps [simp del]

text \<open>The low \<open>w\<close> decimal digits of \<open>n\<close>: the zero padded form of any \<open>n < 10 ^ w\<close>.\<close>

fun pad_digits :: "nat \<Rightarrow> nat \<Rightarrow> string" where
  "pad_digits 0 n = []"
| "pad_digits (Suc w) n = pad_digits w (n div 10) @ [digit (n mod 10)]"

text \<open>\<open>appendInt(b, x, w)\<close> of package \<open>time\<close>.\<close>

definition append_int :: "int \<Rightarrow> nat \<Rightarrow> string" where
  "append_int x w =
     (let s = dec_digits (nat \<bar>x\<bar>)
      in (if x < 0 then ''-'' else []) @ replicate (w - length s) (CHR ''0'') @ s)"

text \<open>The value of a digit string.\<close>

definition digits_val :: "string \<Rightarrow> nat" where
  "digits_val s = foldl (\<lambda>a c. 10 * a + digit_val c) 0 s"

lemma is_digit_digit [simp]: "n < 10 \<Longrightarrow> is_digit (digit n)"
  by (simp add: is_digit_def digit_def)

lemma digit_val_digit [simp]: "n < 10 \<Longrightarrow> digit_val (digit n) = n"
  by (simp add: digit_val_def digit_def)

lemma length_pad_digits [simp]: "length (pad_digits w n) = w"
  by (induction w arbitrary: n) simp_all

lemma pad_digits_digits: "c \<in> set (pad_digits w n) \<Longrightarrow> is_digit c"
  by (induction w arbitrary: n) auto

lemma digits_val_snoc [simp]: "digits_val (s @ [c]) = 10 * digits_val s + digit_val c"
  by (simp add: digits_val_def)

lemma digits_val_Nil [simp]: "digits_val [] = 0"
  by (simp add: digits_val_def)

lemma digits_val_pad_digits [simp]: "digits_val (pad_digits w n) = n mod 10 ^ w"
proof (induction w arbitrary: n)
  case (Suc w)
  then show ?case
    by (simp add: mod_mult2_eq [of n 10 "10 ^ w"] add.commute)
qed simp

lemma pad_digits_0 [simp]: "pad_digits w 0 = replicate w (CHR ''0'')"
proof -
  have "digit 0 = CHR ''0''" by code_simp
  then show ?thesis
    by (induction w) (simp_all add: replicate_append_same)
qed

lemma replicate_dec_digits:
  "0 < w \<Longrightarrow> n < 10 ^ w \<Longrightarrow>
     replicate (w - length (dec_digits n)) (CHR ''0'') @ dec_digits n = pad_digits w n"
proof (induction w arbitrary: n)
  case (Suc w)
  show ?case
  proof (cases "n < 10")
    case True
    then show ?thesis by (simp add: dec_digits.simps [of n])
  next
    case False
    then have "0 < w" using Suc.prems by (cases w) auto
    moreover have "n div 10 < 10 ^ w" using Suc.prems(2) by (simp add: less_mult_imp_div_less mult.commute)
    ultimately have IH: "replicate (w - length (dec_digits (n div 10))) (CHR ''0'')
        @ dec_digits (n div 10) = pad_digits w (n div 10)"
      by (rule Suc.IH)
    from False show ?thesis by (simp add: dec_digits.simps [of n] IH [symmetric])
  qed
qed simp

lemma append_int_nonneg:
  "0 \<le> x \<Longrightarrow> x < 10 ^ w \<Longrightarrow> 0 < w \<Longrightarrow> append_int x w = pad_digits w (nat x)"
  by (simp add: append_int_def Let_def replicate_dec_digits nat_less_iff)

section \<open>Formatting\<close>

definition strip_zeros :: "string \<Rightarrow> string" where
  "strip_zeros s = rev (dropWhile (\<lambda>c. c = CHR ''0'') (rev s))"

text \<open>\<open>appendNano\<close> with the trimming layout \<open>.999999999\<close>.\<close>

definition append_nano :: "nat \<Rightarrow> string" where
  "append_nano n = (if n = 0 then [] else CHR ''.'' # strip_zeros (pad_digits 9 n))"

text \<open>\<open>t.UTC().Format(time.RFC3339Nano)\<close>.\<close>

definition go_format :: "time \<Rightarrow> string" where
  "go_format t =
     (let s = t div nanos_per_sec; n = t mod nanos_per_sec; sod = s mod secs_per_day
      in case civil_of_days (s div secs_per_day + epoch_day) of (y, m, d) \<Rightarrow>
        append_int y 4 @ ''-'' @ append_int m 2 @ ''-'' @ append_int d 2 @ ''T'' @
        append_int (sod div 3600) 2 @ '':'' @ append_int (sod mod 3600 div 60) 2 @ '':'' @
        append_int (sod mod 60) 2 @ append_nano (nat n) @ ''Z'')"

section \<open>Parsing\<close>

text \<open>\<open>time.Date\<close> in UTC on fields that are in range.\<close>

definition date_time :: "int \<Rightarrow> int \<Rightarrow> int \<Rightarrow> int \<Rightarrow> int \<Rightarrow> int \<Rightarrow> int \<Rightarrow> time" where
  "date_time y m d hh mm ss ns =
     ((days_of_civil y m d - epoch_day) * secs_per_day + hh * 3600 + mm * 60 + ss) * nanos_per_sec
       + ns"

definition parse_uint :: "string \<Rightarrow> nat \<Rightarrow> nat \<Rightarrow> nat option" where
  "parse_uint s lo hi =
     (if (\<forall>c \<in> set s. is_digit c) \<and> lo \<le> digits_val s \<and> digits_val s \<le> hi
      then Some (digits_val s) else None)"

text \<open>\<open>parseNanoseconds\<close>: at most nine digits count.\<close>

definition nanos_of_digits :: "string \<Rightarrow> nat" where
  "nanos_of_digits ds = digits_val (take 9 ds) * 10 ^ (9 - length (take 9 ds))"

definition split_frac :: "(char \<Rightarrow> bool) \<Rightarrow> string \<Rightarrow> nat \<times> string" where
  "split_frac sep s =
     (case s of
        c # d # rest \<Rightarrow>
          if sep c \<and> is_digit d
          then (nanos_of_digits (takeWhile is_digit (d # rest)), dropWhile is_digit (d # rest))
          else (0, s)
      | _ \<Rightarrow> (0, s))"

text \<open>\<open>parseRFC3339\<close>, the strict fast path: \<open>None\<close> sends the input to the general parser.\<close>

definition parse_offset_strict :: "string \<Rightarrow> int option" where
  "parse_offset_strict s =
     (if s = ''Z'' then Some 0
      else if length s \<noteq> 6 then None
      else Option.bind (parse_uint (take 2 (drop 1 s)) 0 23) (\<lambda>hr.
           Option.bind (parse_uint (take 2 (drop 4 s)) 0 59) (\<lambda>mm.
           if (s ! 0 = CHR ''-'' \<or> s ! 0 = CHR ''+'') \<and> s ! 3 = CHR '':''
           then Some ((if s ! 0 = CHR ''-'' then -1 else 1) * ((int hr * 60 + int mm) * 60))
           else None)))"

definition parse_rfc3339 :: "string \<Rightarrow> time option" where
  "parse_rfc3339 s =
     (if length s < 19 then None
      else Option.bind (parse_uint (take 4 s) 0 9999) (\<lambda>year.
           Option.bind (parse_uint (take 2 (drop 5 s)) 1 12) (\<lambda>month.
           Option.bind (parse_uint (take 2 (drop 8 s)) 1 (nat (days_in (int month) (int year)))) (\<lambda>day.
           Option.bind (parse_uint (take 2 (drop 11 s)) 0 23) (\<lambda>hour.
           Option.bind (parse_uint (take 2 (drop 14 s)) 0 59) (\<lambda>mm.
           Option.bind (parse_uint (take 2 (drop 17 s)) 0 59) (\<lambda>ss.
           if s ! 4 = CHR ''-'' \<and> s ! 7 = CHR ''-'' \<and> s ! 10 = CHR ''T''
             \<and> s ! 13 = CHR '':'' \<and> s ! 16 = CHR '':''
           then (case split_frac (\<lambda>c. c = CHR ''.'') (drop 19 s) of (ns, rest) \<Rightarrow>
             map_option
               (\<lambda>off. date_time (int year) (int month) (int day) (int hour) (int mm) (int ss) (int ns)
                  - off * nanos_per_sec)
               (parse_offset_strict rest))
           else None)))))))"

text \<open>The general parser on the same layout: one digit hours, a comma fraction and offsets up to 24:60.\<close>

definition getnum :: "bool \<Rightarrow> string \<Rightarrow> (nat \<times> string) option" where
  "getnum fixed s =
     (case s of
        [] \<Rightarrow> None
      | c # cs \<Rightarrow>
          if \<not> is_digit c then None
          else (case cs of
                  d # ds \<Rightarrow>
                    if is_digit d then Some (10 * digit_val c + digit_val d, ds)
                    else if fixed then None else Some (digit_val c, cs)
                | [] \<Rightarrow> if fixed then None else Some (digit_val c, [])))"

definition skip_lit :: "char \<Rightarrow> string \<Rightarrow> string option" where
  "skip_lit c s = (case s of [] \<Rightarrow> None | d # ds \<Rightarrow> if d = c then Some ds else None)"

definition parse_offset_general :: "string \<Rightarrow> (int \<times> string) option" where
  "parse_offset_general s =
     (if s \<noteq> [] \<and> hd s = CHR ''Z'' then Some (0, tl s)
      else if length s < 6 \<or> s ! 3 \<noteq> CHR '':'' then None
      else Option.bind (getnum True (take 2 (drop 1 s))) (\<lambda>(hr, _).
           Option.bind (getnum True (take 2 (drop 4 s))) (\<lambda>(mm, _).
           if 24 < hr \<or> 60 < mm then None
           else if s ! 0 = CHR ''+'' then Some ((int hr * 60 + int mm) * 60, drop 6 s)
           else if s ! 0 = CHR ''-'' then Some (- ((int hr * 60 + int mm) * 60), drop 6 s)
           else None)))"

definition parse_general :: "string \<Rightarrow> time option" where
  "parse_general s0 =
     (if length s0 < 4 then None
      else Option.bind (parse_uint (take 4 s0) 0 9999) (\<lambda>year.
           Option.bind (skip_lit CHR ''-'' (drop 4 s0)) (\<lambda>s1.
           Option.bind (getnum True s1) (\<lambda>(month, s2).
           Option.bind (skip_lit CHR ''-'' s2) (\<lambda>s3.
           Option.bind (getnum True s3) (\<lambda>(day, s4).
           Option.bind (skip_lit CHR ''T'' s4) (\<lambda>s5.
           Option.bind (getnum False s5) (\<lambda>(hour, s6).
           Option.bind (skip_lit CHR '':'' s6) (\<lambda>s7.
           Option.bind (getnum True s7) (\<lambda>(mm, s8).
           Option.bind (skip_lit CHR '':'' s8) (\<lambda>s9.
           Option.bind (getnum True s9) (\<lambda>(ss, s10).
           case split_frac (\<lambda>c. c = CHR ''.'' \<or> c = CHR '','') s10 of (ns, s11) \<Rightarrow>
           Option.bind (parse_offset_general s11) (\<lambda>(off, s12).
           if s12 = [] \<and> 1 \<le> month \<and> month \<le> 12 \<and> hour < 24 \<and> mm < 60 \<and> ss < 60
             \<and> 1 \<le> day \<and> int day \<le> days_in (int month) (int year)
           then Some (date_time (int year) (int month) (int day) (int hour) (int mm) (int ss) (int ns)
                  - off * nanos_per_sec)
           else None)))))))))))))"

text \<open>\<open>time.Parse(time.RFC3339Nano, s)\<close>.\<close>

definition go_parse :: "string \<Rightarrow> time result" where
  "go_parse s =
     (case parse_rfc3339 s of
        Some t \<Rightarrow> Inr t
      | None \<Rightarrow> (case parse_general s of Some t \<Rightarrow> Inr t | None \<Rightarrow> Inl (Errorf ''parsing time'')))"

section \<open>Round trip\<close>

lemma strip_zeros_replicate:
  "\<exists>k. s = strip_zeros s @ replicate k (CHR ''0'')"
proof -
  let ?z = "\<lambda>c. c = CHR ''0''"
  have "\<forall>c \<in> set (takeWhile ?z (rev s)). c = CHR ''0''" using set_takeWhileD by fastforce
  then have z: "takeWhile ?z (rev s) = replicate (length (takeWhile ?z (rev s))) (CHR ''0'')"
    by (simp add: replicate_length_same)
  have "s = rev (takeWhile ?z (rev s) @ dropWhile ?z (rev s))"
    by (simp only: takeWhile_dropWhile_id rev_rev_ident)
  also have "\<dots> = strip_zeros s @ rev (takeWhile ?z (rev s))"
    by (simp only: rev_append strip_zeros_def)
  also have "rev (takeWhile ?z (rev s)) = replicate (length (takeWhile ?z (rev s))) (CHR ''0'')"
    by (subst z) simp
  finally show ?thesis by blast
qed

lemma digits_val_zeros [simp]: "digits_val (s @ replicate k (CHR ''0'')) = digits_val s * 10 ^ k"
proof (induction k)
  case (Suc k)
  have "digit_val (CHR ''0'') = 0" by code_simp
  moreover have "s @ replicate (Suc k) (CHR ''0'') = (s @ replicate k (CHR ''0'')) @ [CHR ''0'']"
    by (simp add: replicate_append_same)
  ultimately show ?case using Suc by (simp only: digits_val_snoc) simp
qed simp

lemma nanos_of_strip_zeros:
  assumes "n < 10 ^ 9"
  shows "nanos_of_digits (strip_zeros (pad_digits 9 n)) = n"
proof -
  obtain k where k: "pad_digits 9 n = strip_zeros (pad_digits 9 n) @ replicate k (CHR ''0'')"
    using strip_zeros_replicate by blast
  have "length (strip_zeros (pad_digits 9 n)) + k = 9"
    using arg_cong [OF k, of length] by simp
  then have len: "length (strip_zeros (pad_digits 9 n)) \<le> 9"
      "9 - length (strip_zeros (pad_digits 9 n)) = k" by simp_all
  have "digits_val (strip_zeros (pad_digits 9 n)) * 10 ^ k = n"
    using arg_cong [OF k, of digits_val] assms by simp
  with len show ?thesis by (simp add: nanos_of_digits_def)
qed

lemma strip_zeros_digits:
  "c \<in> set (strip_zeros (pad_digits w n)) \<Longrightarrow> is_digit c"
  using strip_zeros_replicate [of "pad_digits w n"] pad_digits_digits [of c w n]
  by (metis Un_iff set_append)

lemma strip_zeros_nonempty:
  assumes "0 < n" "n < 10 ^ 9"
  shows "strip_zeros (pad_digits 9 n) \<noteq> []"
  using nanos_of_strip_zeros [OF assms(2)] assms(1) by (auto simp: nanos_of_digits_def)

lemma split_frac_append_nano:
  assumes "n < 10 ^ 9"
  shows "split_frac (\<lambda>c. c = CHR ''.'') (append_nano n @ ''Z'') = (n, ''Z'')"
proof (cases "n = 0")
  case True
  then show ?thesis by (simp add: append_nano_def split_frac_def)
next
  case False
  define ds where "ds = strip_zeros (pad_digits 9 n)"
  have ds: "ds \<noteq> []" "\<forall>c \<in> set ds. is_digit c" "nanos_of_digits ds = n"
    using False assms nanos_of_strip_zeros strip_zeros_nonempty strip_zeros_digits
    by (auto simp: ds_def)
  obtain d rest where d: "ds = d # rest" using ds(1) by (cases ds) auto
  have z: "\<not> is_digit (CHR ''Z'')" by code_simp
  have "takeWhile is_digit (ds @ ''Z'') = ds" "dropWhile is_digit (ds @ ''Z'') = ''Z''"
    using ds(2) z by (simp_all add: takeWhile_append2 dropWhile_append2)
  then show ?thesis using False ds d
    by (simp add: append_nano_def split_frac_def flip: ds_def)
qed

lemma parse_uint_pad_digits:
  "n < 10 ^ w \<Longrightarrow> lo \<le> n \<Longrightarrow> n \<le> hi \<Longrightarrow> parse_uint (pad_digits w n) lo hi = Some n"
  using pad_digits_digits by (auto simp: parse_uint_def)

text \<open>The instants of the years 0 to 9999, which the four digit year of the layout can write.\<close>

definition time_in_range :: "time \<Rightarrow> bool" where
  "time_in_range t \<longleftrightarrow> - 62167219200 * nanos_per_sec \<le> t \<and> t < 253402300800 * nanos_per_sec"

lemma year_in_range:
  assumes "year_yday d = (y, yd)" "- 366 \<le> d" "d < 3652059"
  shows "0 \<le> y" and "y \<le> 9999"
proof -
  obtain a b c e yd' where y: "year_yday d = (400 * a + 100 * b + 4 * c + e + 1, yd')"
    and d: "d = 146097 * a + 36524 * b + 1461 * c + 365 * e + yd'"
    and B: "0 \<le> b" "b \<le> 3" "0 \<le> c" "c \<le> 24" "0 \<le> e" "e \<le> 3"
    and yd': "0 \<le> yd'" "yd' \<le> 365"
    and last: "yd' = 365 \<Longrightarrow> e = 3 \<and> (c = 24 \<longrightarrow> b = 3)"
    by (rule year_yday_cyclesE [of d], rule that)
  have yeq: "y = 400 * a + 100 * b + 4 * c + e + 1" using assms(1) y by simp
  have a1: "- 1 \<le> a" using d assms(2) B yd' by linarith
  have a2: "a \<le> 24" using d assms(3) B yd' by linarith
  show "0 \<le> y"
  proof (cases "a = -1")
    case True
    then have "b = 3" using d assms(2) B yd' by linarith
    moreover from this True have "c = 24" using d assms(2) B yd' by linarith
    moreover from calculation True have "e = 3"
      using d assms(2) B yd' last by (cases "yd' = 365") auto
    ultimately show ?thesis using yeq True by simp
  next
    case False
    then show ?thesis using a1 yeq B by linarith
  qed
  show "y \<le> 9999"
  proof (rule ccontr)
    assume "\<not> y \<le> 9999"
    then have "a = 24" "b = 3" "c = 24" "e = 3" using yeq a2 B by linarith+
    then show False using d assms(3) yd' by simp
  qed
qed

lemma go_format_fields:
  assumes "time_in_range t"
  obtains y m d sod n :: nat where
    "go_format t = pad_digits 4 y @ ''-'' @ pad_digits 2 m @ ''-'' @ pad_digits 2 d @ ''T'' @
       pad_digits 2 (sod div 3600) @ '':'' @ pad_digits 2 (sod mod 3600 div 60) @ '':'' @
       pad_digits 2 (sod mod 60) @ append_nano n @ ''Z''"
    "y \<le> 9999" "1 \<le> m" "m \<le> 12" "1 \<le> d" "int d \<le> days_in (int m) (int y)"
    "sod < 86400" "n < 10 ^ 9"
    "t = ((days_of_civil (int y) (int m) (int d) - epoch_day) * secs_per_day + int sod) * nanos_per_sec
       + int n"
proof -
  define s where "s = t div nanos_per_sec"
  define n where "n = t mod nanos_per_sec"
  define day where "day = s div secs_per_day + epoch_day"
  define sod where "sod = s mod secs_per_day"
  obtain y m d where ymd: "civil_of_days day = (y, m, d)" by (cases "civil_of_days day") auto
  note C = civil_of_days_correct [OF ymd]
  have n: "0 \<le> n" "n < 1000000000" by (simp_all add: n_def nanos_per_sec_def)
  have sod: "0 \<le> sod" "sod < 86400" by (simp_all add: sod_def secs_per_day_def)
  have t: "t = s * nanos_per_sec + n" by (simp add: s_def n_def)
  have s: "s = (day - epoch_day) * secs_per_day + sod" by (simp add: day_def sod_def)
  have "- 366 \<le> day" "day < 3652059"
    using assms t s n sod
    by (simp_all add: time_in_range_def nanos_per_sec_def secs_per_day_def epoch_day_def)
  then have y: "0 \<le> y" "y \<le> 9999"
    using year_in_range [of day y "snd (year_yday day)"] C(6) by (simp_all add: prod_eq_iff)
  have d31: "d \<le> 31" using C(5) by (auto simp: days_in_def split: if_splits)
  have f: "go_format t = pad_digits 4 (nat y) @ ''-'' @ pad_digits 2 (nat m) @ ''-'' @
      pad_digits 2 (nat d) @ ''T'' @ pad_digits 2 (nat sod div 3600) @ '':'' @
      pad_digits 2 (nat sod mod 3600 div 60) @ '':'' @
      pad_digits 2 (nat sod mod 60) @ append_nano (nat n) @ ''Z''"
  proof -
    have "sod mod 3600 div 60 < 100"
      using pos_mod_bound [of 3600 sod] by linarith
    then have "append_int y 4 = pad_digits 4 (nat y)" "append_int m 2 = pad_digits 2 (nat m)"
      "append_int d 2 = pad_digits 2 (nat d)"
      "append_int (sod div 3600) 2 = pad_digits 2 (nat sod div 3600)"
      "append_int (sod mod 3600 div 60) 2 = pad_digits 2 (nat sod mod 3600 div 60)"
      "append_int (sod mod 60) 2 = pad_digits 2 (nat sod mod 60)"
      using y C d31 sod pos_mod_bound [of 60 sod]
      by (simp_all add: append_int_nonneg nat_div_distrib nat_mod_distrib)
    then show ?thesis
      using ymd by (simp add: go_format_def Let_def day_def sod_def s_def n_def)
  qed
  show thesis
  proof (rule that [OF f])
    show "int (nat d) \<le> days_in (int (nat m)) (int (nat y))" using y C by simp
    show "t = ((days_of_civil (int (nat y)) (int (nat m)) (int (nat d)) - epoch_day) * secs_per_day
        + int (nat sod)) * nanos_per_sec + int (nat n)"
      using t s y C n sod by simp
  qed (use y C sod n in auto)
qed

lemma hms_combine:
  assumes "3600 * q + r = s" "60 * q2 + r2 = r"
  shows "int q * 3600 + int q2 * 60 + int r2 = int s"
  using assms by auto

lemma hms_split: "int (s div 3600) * 3600 + int (s mod 3600 div 60) * 60 + int (s mod 60) = int s"
proof (rule hms_combine)
  show "3600 * (s div 3600) + s mod 3600 = s" by (rule mult_div_mod_eq)
  have "s mod 3600 mod 60 = s mod 60" by (rule mod_mod_cancel) simp
  then show "60 * (s mod 3600 div 60) + s mod 60 = s mod 3600"
    using mult_div_mod_eq [of 60 "s mod 3600"] by simp
qed

lemma hms_bounds:
  fixes s :: nat
  assumes "s < 86400"
  shows "s div 3600 \<le> 23" "s mod 3600 div 60 \<le> 59" "s mod 60 \<le> 59"
proof -
  have "s div 3600 < 24" using assms by (simp add: less_mult_imp_div_less)
  then show "s div 3600 \<le> 23" by simp
  have "s mod 3600 div 60 < 60" by (simp add: less_mult_imp_div_less)
  then show "s mod 3600 div 60 \<le> 59" by simp
  have "s mod 60 < 60" by simp
  then show "s mod 60 \<le> 59" by simp
qed

lemma parse_rfc3339_format:
  assumes "time_in_range t"
  shows "parse_rfc3339 (go_format t) = Some t"
proof -
  obtain y m d sod n where f: "go_format t = pad_digits 4 y @ ''-'' @ pad_digits 2 m @ ''-'' @
      pad_digits 2 d @ ''T'' @
       pad_digits 2 (sod div 3600) @ '':'' @ pad_digits 2 (sod mod 3600 div 60) @ '':'' @
       pad_digits 2 (sod mod 60) @ append_nano n @ ''Z''"
    and b: "y \<le> 9999" "1 \<le> m" "m \<le> 12" "1 \<le> d" "int d \<le> days_in (int m) (int y)"
    "sod < 86400" "n < 10 ^ 9"
    and t: "t = ((days_of_civil (int y) (int m) (int d) - epoch_day) * secs_per_day + int sod)
        * nanos_per_sec + int n"
    by (rule go_format_fields [OF assms], rule that)
  define rest where "rest = append_nano n @ ''Z''"
  define h mi ss where "h = sod div 3600" and "mi = sod mod 3600 div 60" and "ss = sod mod 60"
  have hms: "h \<le> 23" "mi \<le> 59" "ss \<le> 59"
    unfolding h_def mi_def ss_def by (rule hms_bounds [OF b(6)])+
  have d31: "d \<le> 31" using b(5) by (auto simp: days_in_def split: if_splits)
  have p: "parse_uint (pad_digits 4 y) 0 9999 = Some y" "parse_uint (pad_digits 2 m) 1 12 = Some m"
    "parse_uint (pad_digits 2 d) 1 (nat (days_in (int m) (int y))) = Some d"
    "parse_uint (pad_digits 2 h) 0 23 = Some h" "parse_uint (pad_digits 2 mi) 0 59 = Some mi"
    "parse_uint (pad_digits 2 ss) 0 59 = Some ss"
    using b hms d31 by (auto intro!: parse_uint_pad_digits)
  have fr: "split_frac (\<lambda>c. c = CHR ''.'') rest = (n, ''Z'')"
    unfolding rest_def by (rule split_frac_append_nano [OF b(7)])
  have t': "t = date_time (int y) (int m) (int d) (int h) (int mi) (int ss) (int n)"
    using t hms_split [of sod] by (simp add: date_time_def h_def mi_def ss_def add.assoc)
  define F where "F = pad_digits 4 y @ ''-'' @ pad_digits 2 m @ ''-'' @ pad_digits 2 d @ ''T'' @
       pad_digits 2 h @ '':'' @ pad_digits 2 mi @ '':'' @ pad_digits 2 ss @ rest"
  have pos: "take 4 F = pad_digits 4 y" "take 2 (drop 5 F) = pad_digits 2 m"
      "take 2 (drop 8 F) = pad_digits 2 d" "take 2 (drop 11 F) = pad_digits 2 h"
      "take 2 (drop 14 F) = pad_digits 2 mi" "take 2 (drop 17 F) = pad_digits 2 ss"
      "drop 19 F = rest" "\<not> length F < 19"
      "F ! 4 = CHR ''-''" "F ! 7 = CHR ''-''" "F ! 10 = CHR ''T''" "F ! 13 = CHR '':''"
      "F ! 16 = CHR '':''"
    by (simp_all add: F_def nth_append)
  have "parse_rfc3339 F = Some t"
    unfolding parse_rfc3339_def pos p fr t'
    by (simp add: p(2,3) [simplified] pos parse_offset_strict_def)
  then show ?thesis by (simp add: f F_def rest_def h_def mi_def ss_def)
qed

theorem go_parse_format: "time_in_range t \<Longrightarrow> go_parse (go_format t) = Inr t"
  by (simp add: go_parse_def parse_rfc3339_format)

interpretation rfc3339: codec go_format go_parse time_in_range
  by unfold_locales (rule go_parse_format)

end
