(* ===== verification/Go_Strings.thy ===== *)
theory Go_Strings
  imports Prelude
begin

text \<open>
  Go strings and the parts of packages \<open>strings\<close> and \<open>unicode/utf8\<close> the connector uses. A Go
  string is a sequence of bytes, so it is a \<open>string\<close> here: one \<open>char\<close> per byte. Runes are natural
  numbers; a byte sequence that is not UTF-8 decodes to \<open>rune_error\<close> of width one, as in Go.
\<close>

abbreviation byte :: "char \<Rightarrow> nat" where
  "byte c \<equiv> of_char c"

lemma byte_less_256 [simp]: "byte c < 256"
  using nat_of_char_less_256 .

lemma byte_char_of [simp]: "n < 256 \<Longrightarrow> byte (char_of n) = n"
  by simp

lemma byte_inject: "byte c = byte d \<longleftrightarrow> c = d"
  by simp

section \<open>Package strings\<close>

definition HasPrefix :: "string \<Rightarrow> string \<Rightarrow> bool" where
  "HasPrefix s p \<longleftrightarrow> take (length p) s = p"

definition TrimPrefix :: "string \<Rightarrow> string \<Rightarrow> string" where
  "TrimPrefix s p = (if HasPrefix s p then drop (length p) s else s)"

text \<open>\<open>strings.Split(s, sep)\<close> for a one byte separator: always at least one part.\<close>

fun Split :: "string \<Rightarrow> char \<Rightarrow> string list" where
  "Split [] sep = [[]]"
| "Split (c # cs) sep =
     (if c = sep then [] # Split cs sep
      else case Split cs sep of p # ps \<Rightarrow> (c # p) # ps | [] \<Rightarrow> [[c]])"

text \<open>\<open>strings.SplitN(s, sep, 2)\<close> for a one byte separator.\<close>

definition SplitN2 :: "string \<Rightarrow> char \<Rightarrow> string list" where
  "SplitN2 s sep =
     (case dropWhile (\<lambda>c. c \<noteq> sep) s of
        [] \<Rightarrow> [s]
      | _ # rest \<Rightarrow> [takeWhile (\<lambda>c. c \<noteq> sep) s, rest])"

text \<open>\<open>strings.ReplaceAll(s, old, new)\<close> for one byte strings.\<close>

definition ReplaceAll :: "string \<Rightarrow> char \<Rightarrow> char \<Rightarrow> string" where
  "ReplaceAll s old new = map (\<lambda>c. if c = old then new else c) s"

lemma Split_nonempty [simp]: "Split s sep \<noteq> []"
  by (induction s) (auto split: list.splits)

lemma length_Split: "length (Split s sep) = count_list s sep + 1"
proof (induction s)
  case (Cons c cs)
  then show ?case by (cases "Split cs sep") auto
qed simp

lemma count_list_append: "count_list (xs @ ys) x = count_list xs x + count_list ys x"
  by (induction xs) auto

lemma SplitN2_no_sep: "sep \<notin> set s \<Longrightarrow> SplitN2 s sep = [s]"
proof -
  assume "sep \<notin> set s"
  then have "dropWhile (\<lambda>c. c \<noteq> sep) s = []"
    by (simp only: dropWhile_eq_Nil_conv) blast
  then show ?thesis by (simp only: SplitN2_def list.case)
qed

lemma SplitN2_sep:
  "sep \<notin> set a \<Longrightarrow> SplitN2 (a @ sep # b) sep = [a, b]"
proof -
  assume a: "sep \<notin> set a"
  then have "\<forall>c \<in> set a. c \<noteq> sep" by blast
  then have "dropWhile (\<lambda>c. c \<noteq> sep) (a @ sep # b) = sep # b"
    and "takeWhile (\<lambda>c. c \<noteq> sep) (a @ sep # b) = a"
    by (simp_all add: dropWhile_append2 takeWhile_append2)
  then show ?thesis by (simp add: SplitN2_def)
qed

section \<open>Package unicode/utf8\<close>

definition rune_error :: nat where
  "rune_error = 0xFFFD"

definition cont_byte :: "nat \<Rightarrow> nat \<Rightarrow> char \<Rightarrow> bool" where
  "cont_byte lo hi c \<longleftrightarrow> lo \<le> byte c \<and> byte c \<le> hi"

text \<open>The range of the second byte after each leading byte of a three or four byte sequence.\<close>

definition second_lo :: "nat \<Rightarrow> nat" where
  "second_lo b = (if b = 0xE0 then 0xA0 else if b = 0xF0 then 0x90 else 0x80)"

definition second_hi :: "nat \<Rightarrow> nat" where
  "second_hi b = (if b = 0xED then 0x9F else if b = 0xF4 then 0x8F else 0xBF)"

text \<open>\<open>utf8.DecodeRuneInString\<close>: the rune at the front and its width in bytes.\<close>

definition decode_rune :: "string \<Rightarrow> nat \<times> nat" where
  "decode_rune s =
     (case s of
        [] \<Rightarrow> (rune_error, 0)
      | c # cs \<Rightarrow>
          let b = byte c in
          if b < 0x80 then (b, 1)
          else if b < 0xC2 \<or> 0xF4 < b then (rune_error, 1)
          else if b < 0xE0 then
            (case cs of
               c1 # _ \<Rightarrow>
                 if cont_byte 0x80 0xBF c1 then ((b - 0xC0) * 64 + (byte c1 - 0x80), 2)
                 else (rune_error, 1)
             | _ \<Rightarrow> (rune_error, 1))
          else if b < 0xF0 then
            (case cs of
               c1 # c2 # _ \<Rightarrow>
                 if cont_byte (second_lo b) (second_hi b) c1 \<and> cont_byte 0x80 0xBF c2
                 then (((b - 0xE0) * 64 + (byte c1 - 0x80)) * 64 + (byte c2 - 0x80), 3)
                 else (rune_error, 1)
             | _ \<Rightarrow> (rune_error, 1))
          else
            (case cs of
               c1 # c2 # c3 # _ \<Rightarrow>
                 if cont_byte (second_lo b) (second_hi b) c1 \<and> cont_byte 0x80 0xBF c2
                   \<and> cont_byte 0x80 0xBF c3
                 then ((((b - 0xF0) * 64 + (byte c1 - 0x80)) * 64 + (byte c2 - 0x80)) * 64
                        + (byte c3 - 0x80), 4)
                 else (rune_error, 1)
             | _ \<Rightarrow> (rune_error, 1)))"

text \<open>\<open>utf8.AppendRune\<close> for a rune that is a Unicode scalar value.\<close>

definition encode_rune :: "nat \<Rightarrow> string" where
  "encode_rune r =
     (if r < 0x80 then [char_of r]
      else if r < 0x800 then [char_of (0xC0 + r div 64), char_of (0x80 + r mod 64)]
      else if r < 0x10000 then
        [char_of (0xE0 + r div 4096), char_of (0x80 + r div 64 mod 64), char_of (0x80 + r mod 64)]
      else
        [char_of (0xF0 + r div 262144), char_of (0x80 + r div 4096 mod 64),
         char_of (0x80 + r div 64 mod 64), char_of (0x80 + r mod 64)])"

text \<open>
  The width of a valid character at the front, \<open>0\<close> when the front is not valid UTF-8 (width one
  and \<open>rune_error\<close> in Go).
\<close>

definition valid_front :: "string \<Rightarrow> bool" where
  "valid_front s \<longleftrightarrow> s \<noteq> [] \<and> (byte (hd s) < 0x80 \<or> 1 < snd (decode_rune s))"

lemma decode_rune_width: "s \<noteq> [] \<Longrightarrow> 1 \<le> snd (decode_rune s) \<and> snd (decode_rune s) \<le> length s"
  by (cases s) (auto simp: decode_rune_def Let_def split: list.splits)

lemma decode_rune_ascii: "byte c < 0x80 \<Longrightarrow> decode_rune (c # cs) = (byte c, 1)"
  by (simp add: decode_rune_def)

text \<open>\<open>utf8.ValidString\<close>.\<close>

fun valid_utf8 :: "string \<Rightarrow> bool" where
  "valid_utf8 [] = True"
| "valid_utf8 (c # cs) =
     (valid_front (c # cs) \<and> valid_utf8 (drop (snd (decode_rune (c # cs)) - 1) cs))"

declare valid_utf8.simps(2) [simp del]

lemma valid_utf8_ascii: "byte c < 0x80 \<Longrightarrow> valid_utf8 (c # cs) \<longleftrightarrow> valid_utf8 cs"
  by (simp add: valid_utf8.simps valid_front_def decode_rune_ascii)

text \<open>A valid front decides itself: what follows its bytes does not matter.\<close>

lemma valid_frontE:
  assumes "valid_front s"
  obtains (one) c rest where "s = c # rest" "byte c < 0x80" "decode_rune s = (byte c, 1)"
  | (two) c c1 rest r where "s = c # c1 # rest" "0x80 \<le> byte c"
      "\<And>t. decode_rune (c # c1 # t) = (r, 2)"
  | (three) c c1 c2 rest r where "s = c # c1 # c2 # rest" "0x80 \<le> byte c"
      "\<And>t. decode_rune (c # c1 # c2 # t) = (r, 3)"
  | (four) c c1 c2 c3 rest r where "s = c # c1 # c2 # c3 # rest" "0x80 \<le> byte c"
      "\<And>t. decode_rune (c # c1 # c2 # c3 # t) = (r, 4)"
proof -
  obtain c cs where s: "s = c # cs" using assms by (cases s) (auto simp: valid_front_def)
  show thesis
  proof (cases "byte c < 0x80")
    case True
    with s show ?thesis by (intro one) (simp_all add: decode_rune_ascii)
  next
    case False
    with assms s have w: "1 < snd (decode_rune (c # cs))" by (simp add: valid_front_def)
    from False have hi: "0x80 \<le> byte c" by simp
    consider c1 rest where "cs = c1 # rest" "snd (decode_rune (c # cs)) = 2"
        "\<And>t. decode_rune (c # c1 # t) = decode_rune (c # cs)"
      | c1 c2 rest where "cs = c1 # c2 # rest" "snd (decode_rune (c # cs)) = 3"
        "\<And>t. decode_rune (c # c1 # c2 # t) = decode_rune (c # cs)"
      | c1 c2 c3 rest where "cs = c1 # c2 # c3 # rest" "snd (decode_rune (c # cs)) = 4"
        "\<And>t. decode_rune (c # c1 # c2 # c3 # t) = decode_rune (c # cs)"
      using w hi by (simp add: decode_rune_def Let_def split: if_splits list.splits)
    then show ?thesis
    proof cases
      case 1
      then show ?thesis using s hi two by (metis prod.collapse)
    next
      case 2
      then show ?thesis using s hi three by (metis prod.collapse)
    next
      case 3
      then show ?thesis using s hi four by (metis prod.collapse)
    qed
  qed
qed

lemma decode_rune_append: "valid_front s \<Longrightarrow> decode_rune (s @ t) = decode_rune s"
  by (erule valid_frontE) (simp_all add: decode_rune_ascii)

lemma decode_rune_take:
  "valid_front s \<Longrightarrow> decode_rune (take (snd (decode_rune s)) s @ t) = decode_rune s"
  by (erule valid_frontE) (simp_all add: decode_rune_ascii take_Cons numeral_eq_Suc)

lemma valid_front_append: "valid_front s \<Longrightarrow> valid_front (s @ t)"
  using decode_rune_append [of s t] by (auto simp: valid_front_def)

lemma valid_utf8_ascii_string:
  "(\<And>c. c \<in> set s \<Longrightarrow> byte c < 0x80) \<Longrightarrow> valid_utf8 s"
  by (induction s) (auto simp: valid_utf8_ascii)

lemma valid_utf8_append: "valid_utf8 s \<Longrightarrow> valid_utf8 t \<Longrightarrow> valid_utf8 (s @ t)"
proof (induction s rule: valid_utf8.induct)
  case (2 c cs)
  define n where "n = snd (decode_rune (c # cs))"
  have v: "valid_front (c # cs)" "valid_utf8 (drop (n - 1) cs)"
    using "2.prems"(1) by (simp_all add: valid_utf8.simps n_def)
  have d: "decode_rune (c # cs @ t) = decode_rune (c # cs)"
    using decode_rune_append [OF v(1), of t] by simp
  have "n - 1 \<le> length cs" using decode_rune_width [of "c # cs"] by (simp add: n_def le_diff_conv)
  then have "drop (n - 1) (cs @ t) = drop (n - 1) cs @ t" by simp
  moreover have "valid_utf8 (drop (n - 1) cs @ t)"
    using "2.IH" v(2) "2.prems"(2) by (simp add: n_def)
  ultimately show ?case
    using valid_front_append [OF v(1), of t] by (simp add: valid_utf8.simps d n_def)
qed simp

text \<open>An ASCII byte is always a boundary between characters.\<close>

lemma valid_front_high:
  assumes "valid_front s" "0 < i" "i < snd (decode_rune s)"
  shows "0x80 \<le> byte (s ! i)"
proof -
  have cont: "cont_byte (second_lo b) (second_hi b) c \<Longrightarrow> 0x80 \<le> byte c" for b and c :: char
    by (auto simp: cont_byte_def second_lo_def split: if_splits)
  have cont': "cont_byte 0x80 0xBF c \<Longrightarrow> 0x80 \<le> byte c" for c
    by (simp add: cont_byte_def)
  obtain c cs where s: "s = c # cs"
    using assms(1) by (cases s) (auto simp: valid_front_def)
  have i: "i = 1 \<or> i = 2 \<or> i = 3 \<or> 4 \<le> i"
    using assms(2) by linarith
  show ?thesis
    using assms(3) i
    by (auto simp: s decode_rune_def Let_def dest!: cont cont' split: if_splits list.splits)
qed

lemma valid_utf8_ascii_boundary:
  assumes "valid_utf8 (a @ c # b)" "byte c < 0x80"
  shows "valid_utf8 a \<and> valid_utf8 b"
  using assms(1)
proof (induction a rule: length_induct)
  case (1 a)
  show ?case
  proof (cases a)
    case Nil
    with "1.prems" assms(2) show ?thesis by (simp add: valid_utf8_ascii)
  next
    case (Cons x xs)
    define n where "n = snd (decode_rune (a @ c # b))"
    have v: "valid_front (a @ c # b)" and rest: "valid_utf8 (drop (n - 1) (xs @ c # b))"
      using "1.prems" by (simp_all add: Cons valid_utf8.simps n_def)
    have n1: "1 \<le> n"
      using decode_rune_width [of "a @ c # b"] by (simp add: n_def)
    have le: "n \<le> length a"
      using valid_front_high [OF v, of "length a"] assms(2) Cons n_def by (force simp: not_less)
    then have "take n (a @ c # b) @ drop n a = a" by simp
    with decode_rune_take [OF v, of "drop n a"] have d: "decode_rune a = decode_rune (a @ c # b)"
      by (simp add: n_def)
    have front: "valid_front a"
      using v d by (simp add: valid_front_def Cons)
    have "drop (n - 1) (xs @ c # b) = drop (n - 1) xs @ c # b"
      using le n1 by (simp add: Cons)
    with rest have "valid_utf8 (drop (n - 1) xs @ c # b)" by simp
    moreover have "length (drop (n - 1) xs) < length a" by (simp add: Cons)
    ultimately have "valid_utf8 (drop (n - 1) xs) \<and> valid_utf8 b"
      using "1.IH" by blast
    with front d show ?thesis
      by (simp add: Cons valid_utf8.simps n_def)
  qed
qed

text \<open>Encoding the rune of a valid front gives its bytes back.\<close>

lemma char_of_byte_offset: "d \<le> byte c \<Longrightarrow> char_of (d + (byte c - d)) = c"
  by simp

lemma encode_rune2:
  assumes "k < 32" "2 \<le> k" "y < 64"
  shows "encode_rune (k * 64 + y) = [char_of (0xC0 + k), char_of (0x80 + y)]"
  using assms by (simp add: encode_rune_def)

lemma six_bits:
  fixes m y :: nat
  assumes "y < 64"
  shows "(m * 64 + y) div 64 = m" "(m * 64 + y) mod 64 = y"
  using assms by simp_all

lemma encode_rune3:
  assumes "k < 16" "x < 64" "y < 64" "k = 0 \<longrightarrow> 32 \<le> x"
  shows "encode_rune ((k * 64 + x) * 64 + y)
    = [char_of (0xE0 + k), char_of (0x80 + x), char_of (0x80 + y)]"
proof -
  let ?r = "(k * 64 + x) * 64 + y"
  have "2048 \<le> ?r" using assms by (cases "k = 0") auto
  moreover have "?r < 65536" using assms by simp
  moreover have "?r div 64 = k * 64 + x" "?r mod 64 = y"
    by (rule six_bits [OF assms(3)])+
  moreover from this have "?r div 4096 = k"
    using assms div_mult2_eq [of ?r 64 64] by simp
  ultimately show ?thesis using assms by (simp add: encode_rune_def)
qed

lemma encode_rune4:
  assumes "k < 5" "w < 64" "x < 64" "y < 64" "k = 0 \<longrightarrow> 16 \<le> w"
  shows "encode_rune (((k * 64 + w) * 64 + x) * 64 + y)
    = [char_of (0xF0 + k), char_of (0x80 + w), char_of (0x80 + x), char_of (0x80 + y)]"
proof -
  let ?r = "((k * 64 + w) * 64 + x) * 64 + y"
  have "65536 \<le> ?r" using assms by (cases "k = 0") auto
  moreover have d: "?r div 64 = (k * 64 + w) * 64 + x" "?r mod 64 = y"
    by (rule six_bits [OF assms(4)])+
  moreover from d have e: "?r div 4096 = k * 64 + w"
    using assms div_mult2_eq [of ?r 64 64] by simp
  moreover from e have "?r div 262144 = k"
    using assms div_mult2_eq [of ?r 4096 64] by simp
  moreover have "((k * 64 + w) * 64 + x) mod 64 = x" by (rule six_bits [OF assms(3)])
  ultimately show ?thesis using assms by (simp add: encode_rune_def)
qed

lemma encode_decode_rune:
  assumes "valid_front s"
  shows "encode_rune (fst (decode_rune s)) = take (snd (decode_rune s)) s"
proof -
  obtain c cs where s: "s = c # cs" using assms by (cases s) (auto simp: valid_front_def)
  define b where "b = byte c"
  have c: "c = char_of b" by (simp add: b_def)
  show ?thesis
  proof (cases "b < 0x80")
    case True
    then show ?thesis using s by (simp add: decode_rune_def encode_rune_def b_def)
  next
    case False
    with assms s have w: "1 < snd (decode_rune (c # cs))" by (simp add: valid_front_def b_def)
    consider (two) c1 tl where "cs = c1 # tl" "0xC2 \<le> b" "b < 0xE0" "cont_byte 0x80 0xBF c1"
        "decode_rune (c # cs) = ((b - 0xC0) * 64 + (byte c1 - 0x80), 2)"
      | (three) c1 c2 tl where "cs = c1 # c2 # tl" "0xE0 \<le> b" "b < 0xF0"
        "cont_byte (second_lo b) (second_hi b) c1" "cont_byte 0x80 0xBF c2"
        "decode_rune (c # cs) = (((b - 0xE0) * 64 + (byte c1 - 0x80)) * 64 + (byte c2 - 0x80), 3)"
      | (four) c1 c2 c3 tl where "cs = c1 # c2 # c3 # tl" "0xF0 \<le> b" "b \<le> 0xF4"
        "cont_byte (second_lo b) (second_hi b) c1" "cont_byte 0x80 0xBF c2" "cont_byte 0x80 0xBF c3"
        "decode_rune (c # cs) = ((((b - 0xF0) * 64 + (byte c1 - 0x80)) * 64 + (byte c2 - 0x80)) * 64
            + (byte c3 - 0x80), 4)"
      using w False by (simp add: decode_rune_def Let_def b_def split: if_splits list.splits)
    then show ?thesis
    proof cases
      case two
      then have "encode_rune ((b - 0xC0) * 64 + (byte c1 - 0x80))
          = [char_of (0xC0 + (b - 0xC0)), char_of (0x80 + (byte c1 - 0x80))]"
        by (intro encode_rune2) (auto simp: cont_byte_def)
      with two s c show ?thesis by (simp add: cont_byte_def)
    next
      case three
      then have "0x80 \<le> byte c1" "byte c1 \<le> 0xBF" "b = 0xE0 \<longrightarrow> 0xA0 \<le> byte c1"
        by (auto simp: cont_byte_def second_lo_def second_hi_def split: if_splits)
      moreover from this three have enc: "encode_rune (((b - 0xE0) * 64 + (byte c1 - 0x80)) * 64 + (byte c2 - 0x80))
          = [char_of (0xE0 + (b - 0xE0)), char_of (0x80 + (byte c1 - 0x80)), char_of (0x80 + (byte c2 - 0x80))]"
        by (intro encode_rune3) (auto simp: cont_byte_def)
      ultimately show ?thesis
        unfolding s three(6) fst_conv snd_conv enc using three(1,2,5) c by (simp add: cont_byte_def)
    next
      case four
      then have "0x80 \<le> byte c1" "byte c1 \<le> 0xBF" "b = 0xF0 \<longrightarrow> 0x90 \<le> byte c1"
        by (auto simp: cont_byte_def second_lo_def second_hi_def split: if_splits)
      moreover from this four have enc:
        "encode_rune ((((b - 0xF0) * 64 + (byte c1 - 0x80)) * 64 + (byte c2 - 0x80)) * 64 + (byte c3 - 0x80))
          = [char_of (0xF0 + (b - 0xF0)), char_of (0x80 + (byte c1 - 0x80)), char_of (0x80 + (byte c2 - 0x80)),
             char_of (0x80 + (byte c3 - 0x80))]"
        by (intro encode_rune4) (auto simp: cont_byte_def)
      ultimately show ?thesis
        unfolding s four(7) fst_conv snd_conv enc using four(1,2,5,6) c by (simp add: cont_byte_def)
    qed
  qed
qed

end
