(* ===== verification/Baton_Sdk.thy ===== *)
theory Baton_Sdk
  imports Prelude Go_Time Go_Strings "HOL-Library.AList" "HOL-Library.Word"
begin

text \<open>
  The parts of the connector SDK (\<open>vendor/github.com/conductorone/baton-sdk\<close>) and of the
  protobuf runtime that the connector builds its answers with: resource types, resources
  with their annotations, entitlements, grants, events, stream tokens, and the builders
  \<open>NewUserResource\<close>, \<open>NewRoleResource\<close>, \<open>NewAssignmentEntitlement\<close> and \<open>NewGrant\<close> with the
  options the connector passes. A Go pointer that may be nil is an \<open>option\<close>; dereferencing
  nil is the error value \<open>Panic\<close>. Message fields the connector never sets (icons,
  descriptions, external ids) are left out of the records.
\<close>

section \<open>Pointers and options\<close>

fun deref :: "'a option \<Rightarrow> 'a result" where
  "deref None = Inl (Panic ''nil pointer dereference'')"
| "deref (Some a) = Inr a"

lemma deref_Inr_iff [simp]: "deref p = Inr a \<longleftrightarrow> p = Some a"
  by (cases p) auto

text \<open>The loop \<open>for _, o := range opts { if err := o(x); err != nil { return err } }\<close>.\<close>

fun apply_options :: "('a \<Rightarrow> 'a result) list \<Rightarrow> 'a \<Rightarrow> 'a result" where
  "apply_options [] x = Inr x"
| "apply_options (f # fs) x = res_bind (f x) (apply_options fs)"

lemma apply_options_append:
  "apply_options (fs @ gs) x = res_bind (apply_options fs x) (apply_options gs)"
proof (induction fs arbitrary: x)
  case (Cons f fs)
  then show ?case by (cases "f x") simp_all
qed simp

section \<open>Timestamps (\<open>timestamppb\<close>)\<close>

text \<open>Seconds since the Unix epoch and a nanosecond part, as \<open>timestamppb.Timestamp\<close> has them.\<close>

datatype timestamp = Timestamp (Seconds: int) (Nanos: int)

definition timestamp_New :: "time \<Rightarrow> timestamp" where
  [go_defs]: "timestamp_New t = Timestamp (t div nanos_per_sec) (t mod nanos_per_sec)"

definition AsTime :: "timestamp \<Rightarrow> time" where
  [go_defs]: "AsTime ts = Seconds ts * nanos_per_sec + Nanos ts"

instantiation timestamp :: linorder
begin

definition less_eq_timestamp :: "timestamp \<Rightarrow> timestamp \<Rightarrow> bool" where
  "x \<le> y \<longleftrightarrow> Seconds x < Seconds y \<or> (Seconds x = Seconds y \<and> Nanos x \<le> Nanos y)"

definition less_timestamp :: "timestamp \<Rightarrow> timestamp \<Rightarrow> bool" where
  "x < y \<longleftrightarrow> Seconds x < Seconds y \<or> (Seconds x = Seconds y \<and> Nanos x < Nanos y)"

instance
  by standard (auto simp: less_eq_timestamp_def less_timestamp_def timestamp.expand)

end

lemma AsTime_New [simp]: "AsTime (timestamp_New t) = t"
  by (simp add: AsTime_def timestamp_New_def)

lemma less_eq_div_mod:
  fixes t u n :: int
  assumes "0 < n"
  shows "t \<le> u \<longleftrightarrow> t div n < u div n \<or> t div n = u div n \<and> t mod n \<le> u mod n"
proof -
  have split: "n * (x div n) + x mod n = x" for x :: int
    by simp
  consider "t div n < u div n" | "u div n < t div n" | "t div n = u div n"
    by linarith
  then show ?thesis
  proof cases
    case 1
    then have "\<not> u \<le> t"
      using zdiv_mono1 [OF _ assms, of u t] by linarith
    with 1 show ?thesis by simp
  next
    case 2
    then have "\<not> t \<le> u"
      using zdiv_mono1 [OF _ assms, of t u] by linarith
    with 2 show ?thesis by simp
  next
    case 3
    have "n * (u div n) + t mod n \<le> n * (u div n) + u mod n \<longleftrightarrow> t mod n \<le> u mod n"
      by (rule add_le_cancel_left)
    then show ?thesis
      using split [of t] split [of u] unfolding 3 by simp
  qed
qed

lemma timestamp_New_less_eq_iff [simp]: "timestamp_New t \<le> timestamp_New u \<longleftrightarrow> t \<le> u"
proof -
  have "0 < nanos_per_sec" by (simp add: nanos_per_sec_def)
  from less_eq_div_mod [OF this, of t u] show ?thesis
    by (simp only: less_eq_timestamp_def timestamp_New_def timestamp.sel)
qed

section \<open>Resource types, resources and annotations\<close>

datatype trait =
    TRAIT_UNSPECIFIED | TRAIT_USER | TRAIT_GROUP | TRAIT_ROLE | TRAIT_APP | TRAIT_SECRET
  | TRAIT_SECURITY_INSIGHT | TRAIT_SCOPE_BINDING

datatype account_type =
    ACCOUNT_TYPE_UNSPECIFIED | ACCOUNT_TYPE_HUMAN | ACCOUNT_TYPE_SERVICE | ACCOUNT_TYPE_SYSTEM

datatype user_status = STATUS_UNSPECIFIED | STATUS_ENABLED | STATUS_DISABLED | STATUS_DELETED

text \<open>\<open>structpb.Value\<close>; a number is kept as the bits of its float64.\<close>

datatype pb_value =
    NullValue | NumberValue "64 word" | StringValue string | BoolValue bool
  | ListValue "pb_value list" | StructValue "(string \<times> pb_value) list"

type_synonym pb_struct = "(string \<times> pb_value) list"

record user_trait =
  ut_Emails :: "(string \<times> bool) list"
  ut_Status :: "user_status option"
  ut_Profile :: "pb_struct option"
  ut_AccountType :: account_type
  ut_Login :: string
  ut_LoginAliases :: "string list"

record role_trait =
  rt_Profile :: "pb_struct option"

datatype annotation =
    SkipEntitlementsAndGrants
  | UserTrait user_trait
  | RoleTrait role_trait

record resource_type =
  rty_Id :: string
  rty_DisplayName :: string
  rty_Traits :: "trait list"
  rty_Annotations :: "annotation list"

record resource_id =
  rid_ResourceType :: string
  rid_Resource :: string

record resource =
  res_Id :: "resource_id option"
  res_ParentResourceId :: "resource_id option"
  res_DisplayName :: string
  res_Annotations :: "annotation list"

text \<open>The generated getters return the zero value on a nil receiver.\<close>

fun GetResourceType :: "resource_id option \<Rightarrow> string" where
  "GetResourceType None = []"
| "GetResourceType (Some r) = rid_ResourceType r"

fun GetResource :: "resource_id option \<Rightarrow> string" where
  "GetResource None = []"
| "GetResource (Some r) = rid_Resource r"

subsection \<open>\<open>structpb.NewStruct\<close>\<close>

text \<open>
  The connector only passes maps with string values. A Go map has no order; which of
  several invalid strings is named in the error is therefore not determined, and the
  message leaves the quoted string out.
\<close>

definition new_string_value :: "string \<Rightarrow> pb_value result" where
  [go_defs]: "new_string_value v =
     (if valid_utf8 v then Inr (StringValue v) else Inl (Errorf ''invalid UTF-8 in string''))"

definition NewStruct :: "(string \<times> string) list \<Rightarrow> pb_struct result" where
  [go_defs]: "NewStruct m = traverse (\<lambda>(k, v).
     if valid_utf8 k then res_bind (new_string_value v) (\<lambda>x. Inr (k, x))
     else Inl (Errorf ''invalid UTF-8 in string'')) m"

definition string_struct :: "(string \<times> string) list \<Rightarrow> pb_struct" where
  [go_defs]: "string_struct m = map (\<lambda>(k, v). (k, StringValue v)) m"

lemma NewStruct_valid:
  assumes "\<forall>(k, v) \<in> set m. valid_utf8 k \<and> valid_utf8 v"
  shows "NewStruct m = Inr (string_struct m)"
  unfolding NewStruct_def string_struct_def
  by (rule traverse_total) (use assms in \<open>auto simp: new_string_value_def\<close>)

lemma NewStruct_Cons:
  "NewStruct ((k, v) # m) =
     (if valid_utf8 k \<and> valid_utf8 v
      then res_bind (NewStruct m) (\<lambda>s. Inr ((k, StringValue v) # s))
      else Inl (Errorf ''invalid UTF-8 in string''))"
  by (auto simp: NewStruct_def new_string_value_def)

lemma NewStruct_cases:
  "NewStruct m = (if \<forall>(k, v) \<in> set m. valid_utf8 k \<and> valid_utf8 v
     then Inr (string_struct m) else Inl (Errorf ''invalid UTF-8 in string''))"
proof (induction m)
  case (Cons kv m)
  then show ?case
    by (cases kv) (auto simp: NewStruct_Cons string_struct_def split: if_splits)
qed (simp add: NewStruct_def string_struct_def)

lemma NewStruct_error:
  "\<exists>(k, v) \<in> set m. \<not> valid_utf8 k \<or> \<not> valid_utf8 v \<Longrightarrow>
   NewStruct m = Inl (Errorf ''invalid UTF-8 in string'')"
  by (subst NewStruct_cases) fastforce

section \<open>Annotations\<close>

fun annotation_strings :: "annotation \<Rightarrow> string list" where
  "annotation_strings SkipEntitlementsAndGrants = []"
| "annotation_strings (UserTrait ut) =
     ut_Login ut # ut_LoginAliases ut @ map fst (ut_Emails ut) @
     (case ut_Profile ut of None \<Rightarrow> [] | Some p \<Rightarrow>
       concat (map (\<lambda>(k, v). k # (case v of StringValue x \<Rightarrow> [x] | _ \<Rightarrow> [])) p))"
| "annotation_strings (RoleTrait rt) =
     (case rt_Profile rt of None \<Rightarrow> [] | Some p \<Rightarrow>
       concat (map (\<lambda>(k, v). k # (case v of StringValue x \<Rightarrow> [x] | _ \<Rightarrow> [])) p))"

text \<open>
  \<open>anypb.New\<close> marshals the message, which fails on a string field that is not UTF-8;
  \<open>Annotations.Update\<close> panics then.
\<close>

definition anypb_New :: "annotation \<Rightarrow> annotation result" where
  [go_defs]: "anypb_New m =
     (if list_all valid_utf8 (annotation_strings m) then Inr m
      else Inl (Panic ''failed to anypb.New''))"

fun MessageIs :: "annotation \<Rightarrow> annotation \<Rightarrow> bool" where
  "MessageIs SkipEntitlementsAndGrants SkipEntitlementsAndGrants = True"
| "MessageIs (UserTrait _) (UserTrait _) = True"
| "MessageIs (RoleTrait _) (RoleTrait _) = True"
| "MessageIs _ _ = False"

definition annotations_Update :: "annotation \<Rightarrow> annotation list \<Rightarrow> annotation list result" where
  [go_defs]: "annotations_Update msg a =
     res_bind (traverse (\<lambda>v. if MessageIs v msg then anypb_New msg else Inr v) a)
       (\<lambda>new. if \<exists>v \<in> set a. MessageIs v msg then Inr new
              else res_bind (anypb_New msg) (\<lambda>v. Inr (new @ [v])))"

definition annotations_New :: "annotation list \<Rightarrow> annotation list result" where
  [go_defs]: "annotations_New msgs = apply_options (map annotations_Update msgs) []"

definition annotations_Pick :: "annotation \<Rightarrow> annotation list \<Rightarrow> annotation option" where
  [go_defs]: "annotations_Pick needle a = find (\<lambda>v. MessageIs v needle) a"

section \<open>User and role traits\<close>

type_synonym user_trait_option = "user_trait \<Rightarrow> user_trait result"
type_synonym role_trait_option = "role_trait \<Rightarrow> role_trait result"
type_synonym resource_option = "resource \<Rightarrow> resource result"

definition empty_user_trait :: user_trait where
  [go_defs]: "empty_user_trait = \<lparr>ut_Emails = [], ut_Status = None, ut_Profile = None,
     ut_AccountType = ACCOUNT_TYPE_UNSPECIFIED, ut_Login = [], ut_LoginAliases = []\<rparr>"

definition WithStatus :: "user_status \<Rightarrow> user_trait_option" where
  [go_defs]: "WithStatus st ut = Inr (ut\<lparr>ut_Status := Some st\<rparr>)"

definition WithEmail :: "string \<Rightarrow> bool \<Rightarrow> user_trait_option" where
  [go_defs]: "WithEmail email primary ut =
     (if email = [] then Inr ut else Inr (ut\<lparr>ut_Emails := ut_Emails ut @ [(email, primary)]\<rparr>))"

definition WithUserLogin :: "string \<Rightarrow> string list \<Rightarrow> user_trait_option" where
  [go_defs]: "WithUserLogin login aliases ut =
     (if login = [] then Inr ut else Inr (ut\<lparr>ut_Login := login, ut_LoginAliases := aliases\<rparr>))"

definition WithUserProfile :: "(string \<times> string) list \<Rightarrow> user_trait_option" where
  [go_defs]: "WithUserProfile profile ut =
     res_bind (NewStruct profile) (\<lambda>p. Inr (ut\<lparr>ut_Profile := Some p\<rparr>))"

definition WithAccountType :: "account_type \<Rightarrow> user_trait_option" where
  [go_defs]: "WithAccountType t ut = Inr (ut\<lparr>ut_AccountType := t\<rparr>)"

definition NewUserTrait :: "user_trait_option list \<Rightarrow> user_trait result" where
  [go_defs]: "NewUserTrait opts =
     res_bind (apply_options opts empty_user_trait) (\<lambda>ut.
     let ut1 = (if ut_Status ut = None then ut\<lparr>ut_Status := Some STATUS_ENABLED\<rparr> else ut);
         ut2 = (if ut_AccountType ut1 = ACCOUNT_TYPE_UNSPECIFIED
                then ut1\<lparr>ut_AccountType := ACCOUNT_TYPE_HUMAN\<rparr> else ut1)
     in Inr ut2)"

definition WithRoleProfile :: "(string \<times> string) list \<Rightarrow> role_trait_option" where
  [go_defs]: "WithRoleProfile profile rt =
     res_bind (NewStruct profile) (\<lambda>p. Inr (rt\<lparr>rt_Profile := Some p\<rparr>))"

section \<open>Resources\<close>

definition WithParentResourceID :: "resource_id option \<Rightarrow> resource_option" where
  [go_defs]: "WithParentResourceID p r = Inr (r\<lparr>res_ParentResourceId := p\<rparr>)"

definition WithUserTrait :: "user_trait_option list \<Rightarrow> resource_option" where
  [go_defs]: "WithUserTrait opts r =
     res_bind
       (case annotations_Pick (UserTrait empty_user_trait) (res_Annotations r) of
          Some (UserTrait ut) \<Rightarrow> apply_options opts ut
        | _ \<Rightarrow> NewUserTrait opts)
       (\<lambda>ut. res_bind (annotations_Update (UserTrait ut) (res_Annotations r))
         (\<lambda>annos. Inr (r\<lparr>res_Annotations := annos\<rparr>)))"

definition WithRoleTrait :: "role_trait_option list \<Rightarrow> resource_option" where
  [go_defs]: "WithRoleTrait opts r =
     res_bind
       (apply_options opts
         (case annotations_Pick (RoleTrait \<lparr>rt_Profile = None\<rparr>) (res_Annotations r) of
            Some (RoleTrait rt) \<Rightarrow> rt
          | _ \<Rightarrow> \<lparr>rt_Profile = None\<rparr>))
       (\<lambda>rt. res_bind (annotations_Update (RoleTrait rt) (res_Annotations r))
         (\<lambda>annos. Inr (r\<lparr>res_Annotations := annos\<rparr>)))"

definition NewResource ::
    "string \<Rightarrow> resource_type \<Rightarrow> string \<Rightarrow> resource_option list \<Rightarrow> resource result" where
  [go_defs]: "NewResource name rt objectID opts =
     apply_options opts
       \<lparr>res_Id = Some \<lparr>rid_ResourceType = rty_Id rt, rid_Resource = objectID\<rparr>,
        res_ParentResourceId = None, res_DisplayName = name, res_Annotations = []\<rparr>"

definition NewUserResource ::
    "string \<Rightarrow> resource_type \<Rightarrow> string \<Rightarrow> user_trait_option list \<Rightarrow> resource_option list
      \<Rightarrow> resource result" where
  [go_defs]: "NewUserResource name rt objectID trait_opts opts =
     NewResource name rt objectID (opts @ [WithUserTrait trait_opts])"

definition NewRoleResource ::
    "string \<Rightarrow> resource_type \<Rightarrow> string \<Rightarrow> role_trait_option list \<Rightarrow> resource_option list
      \<Rightarrow> resource result" where
  [go_defs]: "NewRoleResource name rt objectID trait_opts opts =
     NewResource name rt objectID (opts @ [WithRoleTrait trait_opts])"

lemma annotation_strings_string_struct:
  "concat (map (\<lambda>(k, v). k # (case v of StringValue x \<Rightarrow> [x] | _ \<Rightarrow> [])) (string_struct m)) =
   concat (map (\<lambda>(k, v). [k, v]) m)"
  by (induction m) (auto simp: string_struct_def)

text \<open>
  A resource built with a role profile only: it exists exactly when every string of the
  profile is UTF-8, and \<open>Annotations.Update\<close> never panics, because \<open>NewStruct\<close> has
  checked the same strings before.
\<close>

lemma NewRoleResource_profile:
  "NewRoleResource name rt objectID [WithRoleProfile m] [] =
     (if \<forall>(k, v) \<in> set m. valid_utf8 k \<and> valid_utf8 v
      then Inr \<lparr>res_Id = Some \<lparr>rid_ResourceType = rty_Id rt, rid_Resource = objectID\<rparr>,
                res_ParentResourceId = None, res_DisplayName = name,
                res_Annotations = [RoleTrait \<lparr>rt_Profile = Some (string_struct m)\<rparr>]\<rparr>
      else Inl (Errorf ''invalid UTF-8 in string''))"
proof (cases "\<forall>(k, v) \<in> set m. valid_utf8 k \<and> valid_utf8 v")
  case True
  then have "list_all valid_utf8 (concat (map (\<lambda>(k, v). [k, v]) m))"
    by (auto simp: list_all_iff)
  with True show ?thesis
    by (simp add: NewRoleResource_def NewResource_def WithRoleTrait_def WithRoleProfile_def
        annotations_Pick_def annotations_Update_def anypb_New_def NewStruct_valid
        annotation_strings_string_struct)
next
  case False
  then have "NewStruct m = Inl (Errorf ''invalid UTF-8 in string'')"
    by (subst NewStruct_cases) (rule if_not_P)
  with False show ?thesis
    by (simp only: if_False if_not_P)
      (simp add: NewRoleResource_def NewResource_def WithRoleTrait_def WithRoleProfile_def
        annotations_Pick_def)
qed

section \<open>Entitlements and grants\<close>

datatype purpose =
    PURPOSE_VALUE_UNSPECIFIED | PURPOSE_VALUE_ASSIGNMENT | PURPOSE_VALUE_PERMISSION
  | PURPOSE_VALUE_OWNERSHIP

record entitlement =
  ent_Resource :: "resource option"
  ent_Id :: string
  ent_DisplayName :: string
  ent_Description :: string
  ent_GrantableTo :: "resource_type list"
  ent_Purpose :: purpose
  ent_Slug :: string

type_synonym entitlement_option = "entitlement \<Rightarrow> entitlement"

definition WithGrantableTo :: "resource_type list \<Rightarrow> entitlement_option" where
  [go_defs]: "WithGrantableTo ts e = e\<lparr>ent_GrantableTo := ts\<rparr>"

definition WithDisplayName :: "string \<Rightarrow> entitlement_option" where
  [go_defs]: "WithDisplayName n e = e\<lparr>ent_DisplayName := n\<rparr>"

definition WithDescription :: "string \<Rightarrow> entitlement_option" where
  [go_defs]: "WithDescription d e = e\<lparr>ent_Description := d\<rparr>"

definition NewEntitlementID :: "resource \<Rightarrow> string \<Rightarrow> string" where
  [go_defs]: "NewEntitlementID r permission =
     GetResourceType (res_Id r) @ '':'' @ GetResource (res_Id r) @ '':'' @ permission"

definition NewAssignmentEntitlement ::
    "resource \<Rightarrow> string \<Rightarrow> entitlement_option list \<Rightarrow> entitlement" where
  [go_defs]: "NewAssignmentEntitlement r name opts = fold (\<lambda>f e. f e) opts
     \<lparr>ent_Resource = Some r, ent_Id = NewEntitlementID r name, ent_DisplayName = name,
      ent_Description = [], ent_GrantableTo = [], ent_Purpose = PURPOSE_VALUE_ASSIGNMENT,
      ent_Slug = name\<rparr>"

record grant =
  gr_Entitlement :: "entitlement option"
  gr_Principal :: "resource option"
  gr_Id :: string

text \<open>\<open>NewGrant\<close> for a principal given as \<open>*ResourceId\<close>, the only way the connector calls it.\<close>

definition NewGrant :: "resource \<Rightarrow> string \<Rightarrow> resource_id option \<Rightarrow> grant result" where
  [go_defs]: "NewGrant r name pr = (case pr of
     None \<Rightarrow> Inl (Panic ''principal resource must have a valid resource ID'')
   | Some p \<Rightarrow> Inr
      \<lparr>gr_Entitlement = Some
         \<lparr>ent_Resource = Some r, ent_Id = NewEntitlementID r name, ent_DisplayName = [],
          ent_Description = [], ent_GrantableTo = [], ent_Purpose = PURPOSE_VALUE_UNSPECIFIED,
          ent_Slug = []\<rparr>,
       gr_Principal = Some \<lparr>res_Id = Some p, res_ParentResourceId = None, res_DisplayName = [],
          res_Annotations = []\<rparr>,
       gr_Id = NewEntitlementID r name @ '':'' @ rid_ResourceType p @ '':'' @ rid_Resource p\<rparr>)"

section \<open>Events and stream tokens\<close>

datatype event_payload =
    UsageEvent (TargetResource: resource) (ActorResource: resource)
  | ResourceChangeEvent (ChangedResourceId: resource_id)
  | CreateGrantEvent (EventEntitlement: entitlement) (EventPrincipal: resource)
  | CreateRevokeEvent (EventEntitlement: entitlement) (EventPrincipal: resource)

record event =
  ev_Id :: string
  ev_OccurredAt :: timestamp
  ev_Event :: event_payload

datatype event_type =
    EVENT_TYPE_UNSPECIFIED | EVENT_TYPE_USAGE | EVENT_TYPE_RESOURCE_CHANGE
  | EVENT_TYPE_CREATE_GRANT | EVENT_TYPE_CREATE_REVOKE

fun payload_type :: "event_payload \<Rightarrow> event_type" where
  "payload_type (UsageEvent _ _) = EVENT_TYPE_USAGE"
| "payload_type (ResourceChangeEvent _) = EVENT_TYPE_RESOURCE_CHANGE"
| "payload_type (CreateGrantEvent _ _) = EVENT_TYPE_CREATE_GRANT"
| "payload_type (CreateRevokeEvent _ _) = EVENT_TYPE_CREATE_REVOKE"

record event_feed_metadata =
  efm_Id :: string
  efm_SupportedEventTypes :: "event_type list"

record stream_token =
  st_Size :: int
  st_Cursor :: string

record stream_state =
  ss_Cursor :: string
  ss_HasMore :: bool

record sync_op_results =
  sor_NextPageToken :: string

end
