(* ===== verification/Helpers.thy ===== *)
theory Helpers
  imports Baton_Sdk
begin

text \<open>
  \<open>pkg/connector/resource_types.go\<close> and \<open>pkg/connector/helpers.go\<close>: the resource types the
  connector syncs, the options of an entitlement, and the two string helpers of account
  provisioning, with their laws.
\<close>

section \<open>Resource types\<close>

definition userResourceType :: resource_type where
  [go_defs]: "userResourceType = \<lparr>rty_Id = ''user'', rty_DisplayName = ''User'',
     rty_Traits = [TRAIT_USER], rty_Annotations = [SkipEntitlementsAndGrants]\<rparr>"

definition roleResourceType :: resource_type where
  [go_defs]: "roleResourceType = \<lparr>rty_Id = ''role'', rty_DisplayName = ''Role'',
     rty_Traits = [TRAIT_ROLE], rty_Annotations = []\<rparr>"

definition nodeResourceType :: resource_type where
  [go_defs]: "nodeResourceType = \<lparr>rty_Id = ''node'', rty_DisplayName = ''Node'',
     rty_Traits = [], rty_Annotations = []\<rparr>"

definition appResourceType :: resource_type where
  [go_defs]: "appResourceType = \<lparr>rty_Id = ''app'', rty_DisplayName = ''App'',
     rty_Traits = [], rty_Annotations = []\<rparr>"

definition dbResourceType :: resource_type where
  [go_defs]: "dbResourceType = \<lparr>rty_Id = ''database'', rty_DisplayName = ''Database'',
     rty_Traits = [], rty_Annotations = []\<rparr>"

lemma user_type_id [simp]: "rty_Id userResourceType = ''user''"
  and role_type_id [simp]: "rty_Id roleResourceType = ''role''"
  and node_type_id [simp]: "rty_Id nodeResourceType = ''node''"
  and app_type_id [simp]: "rty_Id appResourceType = ''app''"
  and db_type_id [simp]: "rty_Id dbResourceType = ''database''"
  by (simp_all add: userResourceType_def roleResourceType_def nodeResourceType_def
      appResourceType_def dbResourceType_def)

text \<open>\<open>annotations.New(&v2.SkipEntitlementsAndGrants{})\<close> is that one annotation.\<close>

lemma user_type_annotations:
  "annotations_New [SkipEntitlementsAndGrants] = Inr (rty_Annotations userResourceType)"
  by (simp add: annotations_New_def annotations_Update_def anypb_New_def userResourceType_def)

text \<open>\<open>roleMembership\<close>, the permission of a role, declared in \<open>roles.go\<close>.\<close>

definition roleMembership :: string where [go_defs]: "roleMembership = ''member''"

section \<open>Entitlement options\<close>

definition PopulateOptions :: "string \<Rightarrow> string \<Rightarrow> string \<Rightarrow> entitlement_option list" where
  [go_defs]: "PopulateOptions displayName permission r =
     [WithDisplayName (displayName @ '' Role '' @ permission),
      WithDescription (permission @ '' of Teleport '' @ displayName @ '' '' @ r),
      WithGrantableTo [roleResourceType, userResourceType]]"

section \<open>Names\<close>

text \<open>
  \<open>strings.ToLower\<close>. Of the runes outside ASCII only U+0130 and the Kelvin sign U+212A have
  an ASCII lower case; the others stay outside ASCII, which is all that the regular
  expression of \<open>cleanResourceName\<close> tells apart, so they are kept as they are.
\<close>

definition lower_ascii :: "char \<Rightarrow> char" where
  [go_defs]: "lower_ascii c = (if 65 \<le> byte c \<and> byte c \<le> 90 then char_of (byte c + 32) else c)"

fun ToLower :: "string \<Rightarrow> string" where
  "ToLower [] = []"
| "ToLower (c # cs) =
     (if byte c < 0x80 then lower_ascii c # ToLower cs
      else (let r = fst (decode_rune (c # cs)); n = snd (decode_rune (c # cs)) in
        (if r = 0x130 then ''i'' else if r = 0x212A then ''k'' else encode_rune r)
          @ ToLower (drop (n - 1) cs)))"

text \<open>
  The class \<open>[a-z0-9\-.\+]\<close>. Replacing every maximal run outside it by nothing keeps the
  characters inside it; a byte outside ASCII always belongs to a rune outside the class.
\<close>

definition name_char :: "char \<Rightarrow> bool" where
  [go_defs]: "name_char c \<longleftrightarrow> (97 \<le> byte c \<and> byte c \<le> 122) \<or> (48 \<le> byte c \<and> byte c \<le> 57) \<or>
     c = CHR ''-'' \<or> c = CHR ''.'' \<or> c = CHR ''+''"

definition cleanResourceName :: "string \<Rightarrow> string" where
  [go_defs]: "cleanResourceName name =
     filter name_char (ToLower (ReplaceAll name (CHR '' '') (CHR ''-'')))"

definition splitDashSeparatedName :: "string \<Rightarrow> string \<times> string" where
  [go_defs]: "splitDashSeparatedName name =
     (let names = SplitN2 name (CHR ''-'')
      in (if 0 < length names then names ! 0 else [], if 1 < length names then names ! 1 else []))"

lemma name_char_ascii: "name_char c \<Longrightarrow> byte c < 0x80"
  by (auto simp: name_char_def)

lemma lower_name_char [simp]: "name_char c \<Longrightarrow> lower_ascii c = c"
  by (auto simp: name_char_def lower_ascii_def)

lemma ToLower_names: "list_all name_char s \<Longrightarrow> ToLower s = s"
  by (induction s) (auto simp: name_char_ascii)

lemma clean_names:
  assumes "list_all name_char s"
  shows "cleanResourceName s = s"
proof -
  have "ReplaceAll s (CHR '' '') (CHR ''-'') = s"
    unfolding ReplaceAll_def using assms
    by (induction s) (auto simp: name_char_def)
  then show ?thesis
    using assms by (simp add: cleanResourceName_def ToLower_names list_all_iff filter_id_conv)
qed

lemma clean_charset: "list_all name_char (cleanResourceName s)"
  by (simp add: cleanResourceName_def list_all_iff)

text \<open>
  Of an ASCII name the letters, digits, spaces, dashes, dots and plus signs leave something.
\<close>

definition name_kept :: "char \<Rightarrow> bool" where
  "name_kept c \<longleftrightarrow> (65 \<le> byte c \<and> byte c \<le> 90) \<or> (97 \<le> byte c \<and> byte c \<le> 122) \<or>
     (48 \<le> byte c \<and> byte c \<le> 57) \<or> c \<in> set '' -.+''"

lemma ToLower_ascii: "\<forall>c \<in> set s. byte c < 0x80 \<Longrightarrow> ToLower s = map lower_ascii s"
  by (induction s) simp_all

lemma name_kept_iff:
  assumes "byte c < 0x80"
  shows "name_char (lower_ascii (if c = CHR '' '' then CHR ''-'' else c)) \<longleftrightarrow> name_kept c"
proof (cases "65 \<le> byte c \<and> byte c \<le> 90")
  case True
  then have "c \<noteq> CHR '' ''" by auto
  with True show ?thesis by (simp add: name_char_def lower_ascii_def name_kept_def)
next
  case False
  then show ?thesis by (auto simp: name_char_def lower_ascii_def name_kept_def)
qed

lemma clean_ascii:
  assumes "\<forall>c \<in> set s. byte c < 0x80"
  shows "cleanResourceName s = [] \<longleftrightarrow> (\<forall>c \<in> set s. \<not> name_kept c)"
proof -
  let ?r = "\<lambda>c. if c = CHR '' '' then CHR ''-'' else c"
  have r: "ReplaceAll s (CHR '' '') (CHR ''-'') = map ?r s"
    by (simp add: ReplaceAll_def)
  have "\<forall>c \<in> set (map ?r s). byte c < 0x80" using assms by auto
  then have "cleanResourceName s = filter name_char (map (\<lambda>c. lower_ascii (?r c)) s)"
    by (simp add: cleanResourceName_def r ToLower_ascii comp_def)
  then show ?thesis
    using assms by (simp add: filter_empty_conv name_kept_iff)
qed

text \<open>A cleaned name is ASCII, hence valid UTF-8.\<close>

lemma clean_utf8 [simp]: "valid_utf8 (cleanResourceName s)"
  by (rule valid_utf8_ascii_string)
    (use clean_charset [of s] in \<open>auto simp: list_all_iff name_char_ascii\<close>)

lemma ToLower_append_ascii:
  "byte c < 0x80 \<Longrightarrow> ToLower (c # t) = lower_ascii c # ToLower t"
  by simp

lemma split_dash_none: "CHR ''-'' \<notin> set s \<Longrightarrow> splitDashSeparatedName s = (s, [])"
  by (simp add: splitDashSeparatedName_def SplitN2_no_sep)

lemma split_dash_first:
  "CHR ''-'' \<notin> set a \<Longrightarrow> splitDashSeparatedName (a @ CHR ''-'' # b) = (a, b)"
  by (simp add: splitDashSeparatedName_def SplitN2_sep)

lemma split_dash_parts:
  assumes "CHR ''-'' \<in> set s"
  shows "s = fst (splitDashSeparatedName s) @ CHR ''-'' # snd (splitDashSeparatedName s)"
    and "CHR ''-'' \<notin> set (fst (splitDashSeparatedName s))"
proof -
  obtain a b where ab: "s = a @ CHR ''-'' # b" "CHR ''-'' \<notin> set a"
    using split_list_first [OF assms] by blast
  have "splitDashSeparatedName s = (a, b)"
    unfolding ab(1) by (rule split_dash_first [OF ab(2)])
  with ab show "s = fst (splitDashSeparatedName s) @ CHR ''-'' # snd (splitDashSeparatedName s)"
    "CHR ''-'' \<notin> set (fst (splitDashSeparatedName s))" by simp_all
qed

lemma split_dash_utf8:
  assumes "valid_utf8 s"
  shows "valid_utf8 (fst (splitDashSeparatedName s))" "valid_utf8 (snd (splitDashSeparatedName s))"
proof -
  have "valid_utf8 (fst (splitDashSeparatedName s)) \<and> valid_utf8 (snd (splitDashSeparatedName s))"
  proof (cases "CHR ''-'' \<in> set s")
    case True
    show ?thesis
      by (rule valid_utf8_ascii_boundary [of _ "CHR ''-''"])
        (use split_dash_parts(1) [OF True] assms in simp_all)
  next
    case False
    then show ?thesis using assms by (simp add: split_dash_none)
  qed
  then show "valid_utf8 (fst (splitDashSeparatedName s))" "valid_utf8 (snd (splitDashSeparatedName s))"
    by simp_all
qed

section \<open>Contracts of the resource builders\<close>

text \<open>
  Every \<open>List\<close> converts the service's records one by one and stops at the first that cannot
  be converted. The contract of a conversion: which records it accepts, and what it makes of
  them.
\<close>

locale resource_converter =
  fixes to_resource :: "'a \<Rightarrow> resource result"
    and acceptable :: "'a \<Rightarrow> bool"
    and resource_of :: "'a \<Rightarrow> resource"
  assumes converts: "acceptable x \<Longrightarrow> to_resource x = Inr (resource_of x)"
    and rejects: "\<not> acceptable x \<Longrightarrow> \<exists>e. to_resource x = Inl e"
begin

lemma converted_iff: "to_resource x = Inr r \<longleftrightarrow> acceptable x \<and> r = resource_of x"
  using converts [of x] rejects [of x] by (cases "acceptable x") auto

lemma traverse_accepts:
  "list_all acceptable xs \<Longrightarrow> traverse to_resource xs = Inr (map resource_of xs)"
  by (rule traverse_total) (simp add: converts list_all_iff)

lemma traverse_iff:
  "traverse to_resource xs = Inr rs \<longleftrightarrow> list_all acceptable xs \<and> rs = map resource_of xs"
proof (cases "list_all acceptable xs")
  case True
  then show ?thesis using traverse_accepts by auto
next
  case False
  then obtain x where x: "x \<in> set xs" "\<not> acceptable x"
    by (auto simp: list_all_iff)
  then have "\<exists>x \<in> set xs. \<exists>e. to_resource x = Inl e"
    using rejects [OF x(2)] by (rule_tac bexI)
  then have "\<exists>e. traverse to_resource xs = Inl e"
    by (simp only: traverse_fails_iff)
  then obtain e where "traverse to_resource xs = Inl e" ..
  with False show ?thesis by simp
qed

lemma traverse_rejects: "\<not> list_all acceptable xs \<Longrightarrow> \<exists>e. traverse to_resource xs = Inl e"
  using traverse_iff [of xs] by (cases "traverse to_resource xs") auto

end

text \<open>
  Roles, nodes, apps and databases have one entitlement, the membership in the resource,
  that only users can be granted.
\<close>

locale membership_syncer =
  fixes entitlements :: "resource option \<Rightarrow> entitlement list result"
    and permission kind description :: string
  assumes entitlements_nil: "entitlements None = Inl (Panic ''nil pointer dereference'')"
    and entitlements_eq: "entitlements (Some r) = Inr [NewAssignmentEntitlement r permission
       [WithGrantableTo [userResourceType],
        WithDisplayName (res_DisplayName r @ kind @ permission),
        WithDescription (''Member of '' @ res_DisplayName r @ description)]]"
begin

lemma one_membership:
  obtains e where "entitlements (Some r) = Inr [e]" "ent_Id e = NewEntitlementID r permission"
    "ent_Resource e = Some r" "ent_GrantableTo e = [userResourceType]"
    "ent_Purpose e = PURPOSE_VALUE_ASSIGNMENT" "ent_Slug e = permission"
    "ent_DisplayName e = res_DisplayName r @ kind @ permission"
  using entitlements_eq
  by (rule that) (simp_all add: NewAssignmentEntitlement_def WithGrantableTo_def
      WithDisplayName_def WithDescription_def)

text \<open>The entitlement's id determines the resource, when its type has no colon.\<close>

lemma entitlement_id_inj:
  assumes "entitlements (Some r) = Inr [e]" "entitlements (Some r') = Inr [e']" "ent_Id e = ent_Id e'"
    and "res_Id r = Some \<lparr>rid_ResourceType = t, rid_Resource = n\<rparr>"
    and "res_Id r' = Some \<lparr>rid_ResourceType = t, rid_Resource = n'\<rparr>"
  shows "n = n'"
  using assms
  by (auto simp: entitlements_eq NewAssignmentEntitlement_def WithGrantableTo_def
      WithDisplayName_def WithDescription_def NewEntitlementID_def)

end

section \<open>Properties\<close>

text \<open>
  A cleaned account name only has lower case letters, digits, dashes, dots and plus signs
  (so it is UTF-8), whatever bytes the requested name had, and cleaning it again changes
  nothing.
\<close>

lemma clean_name_normal_form:
  "list_all name_char (cleanResourceName s) \<and> valid_utf8 (cleanResourceName s) \<and>
   cleanResourceName (cleanResourceName s) = cleanResourceName s"
  using clean_charset [of s] clean_names [OF clean_charset [of s]] by simp

text \<open>
  First and last name are the two sides of the first dash: joined by a dash they give the
  name back, the first has no dash, and a name without a dash is all first name.
\<close>

lemma split_name_parts:
  "case splitDashSeparatedName s of (f, l) \<Rightarrow>
     if CHR ''-'' \<in> set s then s = f @ CHR ''-'' # l \<and> CHR ''-'' \<notin> set f
     else f = s \<and> l = []"
  using split_dash_parts [of s] split_dash_none [of s]
  by (cases "CHR ''-'' \<in> set s") (auto simp: split_beta)

end
