(* ===== verification/Teleport_Api.thy ===== *)
theory Teleport_Api
  imports Prelude Go_Time Go_Strings "HOL-Library.AList"
begin

text \<open>
  The Teleport side of the connector: the records of the resources and audit events it
  reads (\<open>vendor/github.com/gravitational/teleport/api/types\<close>), the methods of \<open>UserV2\<close>,
  \<open>Metadata\<close> and \<open>NewRole\<close> it calls, and the client. The remote calls themselves are a
  record of functions \<open>'s teleport_api\<close> over an abstract state \<open>'s\<close> of the outside world, a
  parameter of every operation that uses it. Record fields the connector never reads are
  left out.
\<close>

section \<open>Constants\<close>

definition KindUser :: string where [go_defs]: "KindUser = ''user''"
definition KindNode :: string where [go_defs]: "KindNode = ''node''"
definition V2 :: string where [go_defs]: "V2 = ''v2''"
definition Namespace :: string where [go_defs]: "Namespace = ''default''"
definition TraitLogins :: string where [go_defs]: "TraitLogins = ''logins''"
definition Wildcard :: string where [go_defs]: "Wildcard = ''*''"
definition BotLabel :: string where [go_defs]: "BotLabel = ''teleport.internal/bot''"
definition TeleportInternalResourceType :: string where
  [go_defs]: "TeleportInternalResourceType = ''teleport.internal/resource-type''"
definition SystemResource :: string where [go_defs]: "SystemResource = ''system''"

section \<open>Resources of the cluster\<close>

record metadata =
  md_Name :: string
  md_Namespace :: string
  md_Description :: string
  md_Labels :: "(string \<times> string) list"
  md_Revision :: string

record external_identity =
  eid_ConnectorID :: string
  eid_Username :: string

record connector_ref =
  cr_Type :: string
  cr_ID :: string
  cr_Identity :: string

text \<open>A nil Go map is \<open>None\<close>; a map is an association list with the first entry of a key counting.\<close>

record user_v2 =
  usr_Kind :: string
  usr_Version :: string
  usr_Metadata :: metadata
  usr_Roles :: "string list"
  usr_Traits :: "(string \<times> string list) list option"
  usr_IsLocked :: bool
  usr_CreatedByConnector :: "connector_ref option"
  usr_OIDCIdentities :: "external_identity list"
  usr_SAMLIdentities :: "external_identity list"
  usr_GithubIdentities :: "external_identity list"

record role = rol_Metadata :: metadata

record application = app_Metadata :: metadata

record database = db_Metadata :: metadata

record server_v2 =
  srv_Metadata :: metadata
  srv_Hostname :: string

datatype user_type = UserTypeLocal | UserTypeSSO

definition IsSystemResource :: "metadata \<Rightarrow> bool" where
  [go_defs]: "IsSystemResource md = (case map_of (md_Labels md) TeleportInternalResourceType of
     Some t \<Rightarrow> t = SystemResource | None \<Rightarrow> False)"

definition IsBot :: "user_v2 \<Rightarrow> bool" where
  [go_defs]: "IsBot u = (map_of (md_Labels (usr_Metadata u)) BotLabel \<noteq> None)"

definition GetUserType :: "user_v2 \<Rightarrow> user_type" where
  [go_defs]: "GetUserType u =
     (if usr_CreatedByConnector u \<noteq> None \<or> usr_OIDCIdentities u \<noteq> [] \<or>
         usr_GithubIdentities u \<noteq> [] \<or> usr_SAMLIdentities u \<noteq> []
      then UserTypeSSO else UserTypeLocal)"

definition ProcessNamespace :: "string \<Rightarrow> string" where
  [go_defs]: "ProcessNamespace ns = (if ns = [] then Namespace else ns)"

section \<open>Methods of \<open>UserV2\<close>\<close>

fun dedup_from :: "string list \<Rightarrow> string list \<Rightarrow> string list" where
  "dedup_from seen [] = []"
| "dedup_from seen (v # vs) =
     (if v \<in> set seen then dedup_from seen vs else v # dedup_from (v # seen) vs)"

definition Deduplicate :: "string list \<Rightarrow> string list" where
  [go_defs]: "Deduplicate xs = (if length xs \<le> 1 then xs else dedup_from [] xs)"

lemma set_dedup_from: "set (dedup_from seen xs) = set xs - set seen"
  by (induction xs arbitrary: seen) auto

lemma distinct_dedup_from: "distinct (dedup_from seen xs)"
  by (induction xs arbitrary: seen) (auto simp: set_dedup_from)

lemma dedup_from_distinct:
  "distinct xs \<Longrightarrow> set xs \<inter> set seen = {} \<Longrightarrow> dedup_from seen xs = xs"
  by (induction xs arbitrary: seen) auto

lemma set_Deduplicate [simp]: "set (Deduplicate xs) = set xs"
  by (simp add: Deduplicate_def set_dedup_from)

lemma distinct_Deduplicate [simp]: "distinct (Deduplicate xs)"
proof (cases "length xs \<le> 1")
  case True
  then show ?thesis
    by (cases xs) (auto simp: Deduplicate_def)
qed (simp add: Deduplicate_def distinct_dedup_from)

lemma Deduplicate_distinct: "distinct xs \<Longrightarrow> Deduplicate xs = xs"
  by (simp add: Deduplicate_def dedup_from_distinct)

definition SetRoles :: "string list \<Rightarrow> user_v2 \<Rightarrow> user_v2" where
  [go_defs]: "SetRoles roles u = u\<lparr>usr_Roles := Deduplicate roles\<rparr>"

definition AddRole :: "string \<Rightarrow> user_v2 \<Rightarrow> user_v2" where
  [go_defs]: "AddRole name u =
     (if name \<in> set (usr_Roles u) then u else u\<lparr>usr_Roles := usr_Roles u @ [name]\<rparr>)"

definition setTrait :: "string \<Rightarrow> string list \<Rightarrow> user_v2 \<Rightarrow> user_v2" where
  [go_defs]: "setTrait trait xs u = u\<lparr>usr_Traits := Some (AList.update trait (Deduplicate xs)
     (case usr_Traits u of None \<Rightarrow> [] | Some m \<Rightarrow> m))\<rparr>"

definition getTrait :: "string \<Rightarrow> user_v2 \<Rightarrow> string list" where
  [go_defs]: "getTrait trait u = (case usr_Traits u of None \<Rightarrow> []
     | Some m \<Rightarrow> (case map_of m trait of None \<Rightarrow> [] | Some xs \<Rightarrow> xs))"

definition SetLogins :: "string list \<Rightarrow> user_v2 \<Rightarrow> user_v2" where
  [go_defs]: "SetLogins logins = setTrait TraitLogins logins"

definition GetLogins :: "user_v2 \<Rightarrow> string list" where
  [go_defs]: "GetLogins = getTrait TraitLogins"

lemma getTrait_setTrait:
  "getTrait k (setTrait k' xs u) = (if k = k' then Deduplicate xs else getTrait k u)"
  by (auto simp: getTrait_def setTrait_def update_conv' split: option.splits)

lemma setTrait_sel [simp]:
  "usr_Roles (setTrait k xs u) = usr_Roles u"
  "usr_Metadata (setTrait k xs u) = usr_Metadata u"
  by (simp_all add: setTrait_def)

lemma AddRole_sel [simp]:
  "usr_Metadata (AddRole r u) = usr_Metadata u"
  "usr_Traits (AddRole r u) = usr_Traits u"
  "set (usr_Roles (AddRole r u)) = insert r (set (usr_Roles u))"
  by (auto simp: AddRole_def)

section \<open>\<open>NewRole\<close>\<close>

text \<open>
  \<open>types.NewRole\<close> runs \<open>RoleV6.CheckAndSetDefaults\<close> (role.go:1242-1525) on the role. For the
  specification the connector passes (a name and one list of logins, no labels, rules,
  wildcards or requests, and every option at its default but the MFA requirement) only two
  of its checks read something the caller controls: the name must not be empty
  (resource.go:492) and no login may be the wildcard (role.go:1420). The other checks pass
  on the defaults that the function itself has just set.
\<close>

definition NewRole :: "string \<Rightarrow> string list \<Rightarrow> role result" where
  [go_defs]: "NewRole name logins =
     (if name = [] then Inl (Errorf ''missing parameter Name'')
      else if Wildcard \<in> set logins
        then Inl (Errorf ''wildcard matcher is not allowed in logins'')
      else Inr \<lparr>rol_Metadata = \<lparr>md_Name = name, md_Namespace = Namespace, md_Description = [],
             md_Labels = [], md_Revision = []\<rparr>\<rparr>)"

section \<open>Audit events\<close>

record event_metadata =
  em_ID :: string
  em_Time :: time
  em_ClusterName :: string
  em_Type :: string

record lock_target =
  lt_User :: string
  lt_Role :: string
  lt_Login :: string
  lt_ServerID :: string

record access_request =
  ar_User :: string
  ar_Roles :: "string list"

text \<open>
  The Go types the connector and the test tools distinguish by a type switch; of every other
  type only the metadata is there to read.
\<close>

datatype audit_event =
    UserLogin (EventMeta: event_metadata) (LoginUser: string) (LoginSuccess: bool)
  | UserCreate (EventMeta: event_metadata) (EventName: string) (EventRoles: "string list")
  | UserUpdate (EventMeta: event_metadata) (EventName: string) (EventRoles: "string list")
  | RoleCreate (EventMeta: event_metadata) (EventName: string)
  | RoleUpdate (EventMeta: event_metadata) (EventName: string)
  | LockCreate (EventMeta: event_metadata) (LockTarget: lock_target)
  | LockDelete (EventMeta: event_metadata) (LockTarget: lock_target)
  | AccessRequestCreate (EventMeta: event_metadata) (RequestUser: string)
      (RequestRoles: "string list") (RequestID: string) (RequestState: string)
  | AccessRequestDelete (EventMeta: event_metadata) (RequestUser: string) (RequestID: string)
  | UserDelete (EventMeta: event_metadata) (EventName: string)
  | RoleDelete (EventMeta: event_metadata) (EventName: string)
  | AppCreate (EventMeta: event_metadata) (EventName: string)
  | AppUpdate (EventMeta: event_metadata) (EventName: string)
  | AppDelete (EventMeta: event_metadata) (EventName: string)
  | DatabaseCreate (EventMeta: event_metadata) (EventName: string)
  | DatabaseUpdate (EventMeta: event_metadata) (EventName: string)
  | DatabaseDelete (EventMeta: event_metadata) (EventName: string)
  | OtherAuditEvent (EventMeta: event_metadata)

section \<open>The client\<close>

datatype event_order = EventOrderAscending | EventOrderDescending

record search_request =
  sr_From :: time
  sr_To :: time
  sr_Namespace :: string
  sr_EventTypes :: "string list"
  sr_Limit :: int
  sr_Order :: event_order
  sr_StartKey :: string
  sr_Search :: string

record list_resources_request =
  lrr_ResourceType :: string
  lrr_StartKey :: string

text \<open>A \<open>PaginatedResource\<close> holds a node or another kind of resource, of which nothing is read.\<close>

datatype paginated_resource = NodeResource server_v2 | OtherResource

record list_resources_response =
  lrs_Resources :: "paginated_resource list"
  lrs_NextKey :: string

record reset_password_request =
  rpr_Name :: string
  rpr_TTL :: int

record 's teleport_api =
  api_SearchEvents :: "search_request \<Rightarrow> ('s, audit_event list \<times> string) io"
  api_GetAccessRequests :: "string \<Rightarrow> ('s, access_request list) io"
  api_GetUsers :: "bool \<Rightarrow> ('s, user_v2 list) io"
  api_GetUser :: "string \<Rightarrow> bool \<Rightarrow> ('s, user_v2) io"
  api_CreateUser :: "user_v2 \<Rightarrow> ('s, user_v2) io"
  api_UpdateUser :: "user_v2 \<Rightarrow> ('s, user_v2) io"
  api_DeleteUser :: "string \<Rightarrow> ('s, unit) io"
  api_CreateResetPasswordToken :: "reset_password_request \<Rightarrow> ('s, string) io"
  api_GetRoles :: "('s, role list) io"
  api_GetRole :: "string \<Rightarrow> ('s, role) io"
  api_GetApps :: "('s, application list) io"
  api_GetDatabases :: "('s, database list) io"
  api_GetResources :: "list_resources_request \<Rightarrow> ('s, list_resources_response) io"
  api_Ping :: "('s, unit) io"
  api_Close :: "('s, unit) io"

text \<open>
  \<open>client.TeleportClient\<close> embeds a pointer to the Teleport client. The builders hold a pointer
  to it: calling a promoted method through a nil pointer, or on a nil client, panics.
\<close>

record 's teleport_client =
  tc_Client :: "'s teleport_api option"
  tc_ProxyAddress :: string

type_synonym 's client_ptr = "'s teleport_client option"

fun with_client :: "'s client_ptr \<Rightarrow> ('s teleport_api \<Rightarrow> ('s, 'a) io) \<Rightarrow> ('s, 'a) io" where
  "with_client None f = io_fail (Panic ''nil pointer dereference'')"
| "with_client (Some tc) f = (case tc_Client tc of
     None \<Rightarrow> io_fail (Panic ''nil pointer dereference'')
   | Some api \<Rightarrow> f api)"

text \<open>\<open>Client.GetUser\<close> and \<open>Client.GetRole\<close> check the name before the remote call.\<close>

definition client_GetUser :: "'s client_ptr \<Rightarrow> string \<Rightarrow> bool \<Rightarrow> ('s, user_v2) io" where
  [go_defs]: "client_GetUser c name withSecrets =
     (if c \<noteq> None \<and> name = [] then io_fail (Errorf ''missing username'')
      else with_client c (\<lambda>api. api_GetUser api name withSecrets))"

definition client_GetRole :: "'s client_ptr \<Rightarrow> string \<Rightarrow> ('s, role) io" where
  [go_defs]: "client_GetRole c name =
     (if c \<noteq> None \<and> name = [] then io_fail (Errorf ''missing name'')
      else with_client c (\<lambda>api. api_GetRole api name))"

text \<open>The system clock is read through the same state.\<close>

type_synonym 's clock = "'s \<Rightarrow> time \<times> 's"

definition now :: "'s clock \<Rightarrow> ('s, time) io" where
  [io_simps]: "now clk = (\<lambda>s. let (t, s') = clk s in (Inr t, s'))"

text \<open>
  A service on which every call fails; concrete instances replace the calls they need.
\<close>

definition offline_api :: "'s teleport_api" where
  [go_defs]: "offline_api =
     (let e = Errorf ''unavailable'' in
      \<lparr>api_SearchEvents = (\<lambda>_. io_fail e), api_GetAccessRequests = (\<lambda>_. io_fail e),
       api_GetUsers = (\<lambda>_. io_fail e), api_GetUser = (\<lambda>_ _. io_fail e),
       api_CreateUser = (\<lambda>_. io_fail e), api_UpdateUser = (\<lambda>_. io_fail e),
       api_DeleteUser = (\<lambda>_. io_fail e), api_CreateResetPasswordToken = (\<lambda>_. io_fail e),
       api_GetRoles = io_fail e, api_GetRole = (\<lambda>_. io_fail e), api_GetApps = io_fail e,
       api_GetDatabases = io_fail e, api_GetResources = (\<lambda>_. io_fail e), api_Ping = io_fail e,
       api_Close = io_fail e\<rparr>)"

definition client_of :: "'s teleport_api \<Rightarrow> 's client_ptr" where
  [go_defs]: "client_of api = Some \<lparr>tc_Client = Some api, tc_ProxyAddress = ''proxy:443''\<rparr>"

lemma tc_client_eq: "tc_Client \<lparr>tc_Client = Some api, tc_ProxyAddress = ''proxy:443''\<rparr> = Some api"
  by simp

end
