(* ===== verification/Builders.thy ===== *)
theory Builders
  imports Helpers Teleport_Api
begin

text \<open>
  What the five builder structs of \<open>pkg/connector\<close> have in common: the resource type they are
  for and the client pointer all of them share.
\<close>

record 's builder =
  bld_resourceType :: resource_type
  bld_client :: "'s client_ptr"

end
