(* ===== verification/Users.thy ===== *)
theory Users
  imports Builders
begin

text \<open>
  \<open>pkg/connector/users.go\<close>: the user resource, account creation, lookup, deletion and listing.
\<close>

section \<open>The user resource\<close>

definition user_account_type :: "user_v2 \<Rightarrow> account_type" where
  [go_defs]: "user_account_type user =
     (let accountType = (if IsBot user then ACCOUNT_TYPE_SERVICE else ACCOUNT_TYPE_HUMAN)
      in if IsSystemResource (usr_Metadata user) then ACCOUNT_TYPE_SYSTEM else accountType)"

definition user_profile :: "user_v2 \<Rightarrow> (string \<times> string) list" where
  [go_defs]: "user_profile user =
     (let name = md_Name (usr_Metadata user);
          (firstName, lastName) = splitDashSeparatedName name;
          profile = [(''name'', name), (''user_id'', md_Revision (usr_Metadata user)),
                     (''first_name'', firstName), (''last_name'', lastName)]
      in if user_account_type user = ACCOUNT_TYPE_HUMAN
         then AList.update ''email'' name profile else profile)"

definition userResource :: "resource_id option \<Rightarrow> user_v2 \<Rightarrow> resource result" where
  [go_defs]: "userResource pId user =
     (let name = md_Name (usr_Metadata user);
          accountType = user_account_type user;
          status = (if usr_IsLocked user then STATUS_DISABLED else STATUS_ENABLED);
          opts = [WithUserProfile (user_profile user), WithUserLogin name [], WithStatus status,
                  WithAccountType accountType];
          opts = (if accountType = ACCOUNT_TYPE_HUMAN then opts @ [WithEmail name True] else opts)
      in NewUserResource name userResourceType name opts [WithParentResourceID pId])"

text \<open>What the options add up to.\<close>

definition user_trait_of :: "user_v2 \<Rightarrow> user_trait" where
  [go_defs]: "user_trait_of user =
     (let name = md_Name (usr_Metadata user) in
      \<lparr>ut_Emails = (if user_account_type user = ACCOUNT_TYPE_HUMAN \<and> name \<noteq> [] then [(name, True)] else []),
       ut_Status = Some (if usr_IsLocked user then STATUS_DISABLED else STATUS_ENABLED),
       ut_Profile = Some (string_struct (user_profile user)),
       ut_AccountType = user_account_type user,
       ut_Login = name,
       ut_LoginAliases = []\<rparr>)"

definition user_resource_of :: "resource_id option \<Rightarrow> user_v2 \<Rightarrow> resource" where
  [go_defs]: "user_resource_of pId user =
     \<lparr>res_Id = Some \<lparr>rid_ResourceType = ''user'', rid_Resource = md_Name (usr_Metadata user)\<rparr>,
      res_ParentResourceId = pId, res_DisplayName = md_Name (usr_Metadata user),
      res_Annotations = [UserTrait (user_trait_of user)]\<rparr>"

definition user_text_ok :: "user_v2 \<Rightarrow> bool" where
  [go_defs]: "user_text_ok user \<longleftrightarrow>
     valid_utf8 (md_Name (usr_Metadata user)) \<and> valid_utf8 (md_Revision (usr_Metadata user))"

lemma account_type_set [simp]: "user_account_type user \<noteq> ACCOUNT_TYPE_UNSPECIFIED"
  by (simp add: user_account_type_def Let_def)

lemma profile_keys_utf8 [simp]:
  "valid_utf8 ''name''" "valid_utf8 ''user_id''" "valid_utf8 ''first_name''"
  "valid_utf8 ''last_name''" "valid_utf8 ''email''"
  by code_simp+

lemma user_profile_utf8:
  "(\<forall>(k, v) \<in> set (user_profile user). valid_utf8 k \<and> valid_utf8 v) \<longleftrightarrow> user_text_ok user"
  by (auto simp: user_profile_def user_text_ok_def Let_def split_dash_utf8 split_beta)

lemma userResource_cases:
  "userResource pId user =
     (if user_text_ok user then Inr (user_resource_of pId user)
      else Inl (Errorf ''invalid UTF-8 in string''))"
proof (cases "user_text_ok user")
  case True
  then have p: "\<forall>(k, v) \<in> set (user_profile user). valid_utf8 k \<and> valid_utf8 v"
    by (simp only: user_profile_utf8)
  then have "list_all valid_utf8 (concat (map (\<lambda>(k, v). [k, v]) (user_profile user)))"
    by (auto simp: list_all_iff)
  with True have any: "anypb_New (UserTrait (user_trait_of user)) = Inr (UserTrait (user_trait_of user))"
    by (simp add: anypb_New_def user_trait_of_def user_text_ok_def Let_def
        annotation_strings_string_struct)
  have trait: "NewUserTrait
      (if user_account_type user = ACCOUNT_TYPE_HUMAN
       then [WithUserProfile (user_profile user), WithUserLogin (md_Name (usr_Metadata user)) [],
             WithStatus (if usr_IsLocked user then STATUS_DISABLED else STATUS_ENABLED),
             WithAccountType (user_account_type user)] @ [WithEmail (md_Name (usr_Metadata user)) True]
       else [WithUserProfile (user_profile user), WithUserLogin (md_Name (usr_Metadata user)) [],
             WithStatus (if usr_IsLocked user then STATUS_DISABLED else STATUS_ENABLED),
             WithAccountType (user_account_type user)])
      = Inr (user_trait_of user)"
    by (simp add: NewUserTrait_def WithUserProfile_def WithUserLogin_def WithStatus_def
        WithAccountType_def WithEmail_def NewStruct_valid [OF p] user_trait_of_def
        empty_user_trait_def Let_def)
  show ?thesis
    unfolding userResource_def Let_def NewUserResource_def NewResource_def
    by (simp add: WithParentResourceID_def WithUserTrait_def annotations_Pick_def
        annotations_Update_def any trait [simplified] user_resource_of_def True)
next
  case False
  then have "NewStruct (user_profile user) = Inl (Errorf ''invalid UTF-8 in string'')"
    by (subst NewStruct_cases) (simp only: user_profile_utf8 if_False)
  with False show ?thesis
    by (simp add: userResource_def Let_def NewUserResource_def NewResource_def
        WithParentResourceID_def WithUserTrait_def annotations_Pick_def NewUserTrait_def
        WithUserProfile_def)
qed

section \<open>Account creation\<close>

datatype credential_option =
    OPTION_UNSPECIFIED | OPTION_NO_PASSWORD | OPTION_RANDOM_PASSWORD | OPTION_SSO
  | OPTION_ENCRYPTED_PASSWORD

record account_provisioning_details =
  SupportedCredentialOptions :: "credential_option list"
  PreferredCredentialOption :: credential_option

definition CreateAccountCapabilityDetails :: account_provisioning_details where
  [go_defs]: "CreateAccountCapabilityDetails =
     \<lparr>SupportedCredentialOptions = [OPTION_NO_PASSWORD],
      PreferredCredentialOption = OPTION_NO_PASSWORD\<rparr>"

record account_info =
  ai_Profile :: "pb_struct option"

record plaintext_data =
  pd_Name :: string
  pd_Bytes :: string

text \<open>\<open>accountInfo.GetProfile().AsMap()\<close>: a nil message or profile is the empty map.\<close>

definition profile_map :: "account_info option \<Rightarrow> pb_struct" where
  [go_defs]: "profile_map accountInfo = (case accountInfo of
     None \<Rightarrow> [] | Some ai \<Rightarrow> (case ai_Profile ai of None \<Rightarrow> [] | Some m \<Rightarrow> m))"

text \<open>
  \<open>p[k].(string)\<close> on the map of \<open>AsMap\<close>, which turns the float64 values that JSON has no
  number for into the strings NaN, Infinity and -Infinity.
\<close>

definition special_float :: "64 word \<Rightarrow> string option" where
  [go_defs]: "special_float w =
     (let bits = uint w; e = bits div 2 ^ 52 mod 2048; m = bits mod 2 ^ 52
      in if e \<noteq> 2047 then None
         else if m \<noteq> 0 then Some ''NaN''
         else if bits < 2 ^ 63 then Some ''Infinity'' else Some ''-Infinity'')"

fun as_string :: "pb_value option \<Rightarrow> string option" where
  "as_string (Some (StringValue s)) = Some s"
| "as_string (Some (NumberValue w)) = special_float w"
| "as_string _ = None"

definition createNewUserInfo :: "account_info option \<Rightarrow> user_v2 result" where
  [go_defs]: "createNewUserInfo accountInfo =
     (let p = map_of (profile_map accountInfo) in
      case as_string (p ''name'') of
        None \<Rightarrow> Inl (Errorf ''missing required field: name'')
      | Some username \<Rightarrow>
          if username = [] then Inl (Errorf ''missing required field: name'')
          else
            let role = (case as_string (p ''role'') of Some r \<Rightarrow> r | None \<Rightarrow> []);
                role = (if role = [] then ''access'' else role);
                name = cleanResourceName username
            in Inr \<lparr>usr_Kind = KindUser, usr_Version = V2,
                    usr_Metadata = \<lparr>md_Name = name, md_Namespace = [], md_Description = [],
                       md_Labels = [], md_Revision = []\<rparr>,
                    usr_Roles = [role],
                    usr_Traits = Some [(TraitLogins, [username])],
                    usr_IsLocked = False, usr_CreatedByConnector = None,
                    usr_OIDCIdentities = [], usr_SAMLIdentities = [], usr_GithubIdentities = []\<rparr>)"

definition CreateAccount ::
    "'s client_ptr \<Rightarrow> account_info option \<Rightarrow> ('s, resource \<times> plaintext_data list) io" where
  "CreateAccount c accountInfo =
     io_bind (io_lift (createNewUserInfo accountInfo)) (\<lambda>newUser.
     io_bind (io_wrap ''failed to create user''
       (with_client c (\<lambda>api. api_CreateUser api newUser))) (\<lambda>_.
     io_bind (io_wrap ''failed to create reset password token''
       (with_client c (\<lambda>api. api_CreateResetPasswordToken api
         \<lparr>rpr_Name = md_Name (usr_Metadata newUser), rpr_TTL = 24 * hour_nanos\<rparr>))) (\<lambda>url.
     io_bind (io_lift (userResource None newUser)) (\<lambda>userRes.
     io_return (userRes, [\<lparr>pd_Name = ''password_configuration_link'', pd_Bytes = url\<rparr>])))))"

lemma createNewUserInfo_cases:
  obtains (missing) "createNewUserInfo ai = Inl (Errorf ''missing required field: name'')"
      "as_string (map_of (profile_map ai) ''name'') \<in> {None, Some []}"
  | (user) username u where "createNewUserInfo ai = Inr u"
      "as_string (map_of (profile_map ai) ''name'') = Some username" "username \<noteq> []"
      "md_Name (usr_Metadata u) = cleanResourceName username"
      "md_Revision (usr_Metadata u) = []"
      "usr_Traits u = Some [(TraitLogins, [username])]"
      "usr_Roles u = [case as_string (map_of (profile_map ai) ''role'') of
          Some r \<Rightarrow> if r = [] then ''access'' else r | None \<Rightarrow> ''access'']"
      "md_Labels (usr_Metadata u) = []" "GetUserType u = UserTypeLocal" "\<not> usr_IsLocked u"
proof (cases "as_string (map_of (profile_map ai) ''name'')")
  case None
  then show ?thesis by (intro missing) (simp_all add: createNewUserInfo_def Let_def)
next
  case (Some username)
  show ?thesis
  proof (cases "username = []")
    case True
    with Some show ?thesis by (intro missing) (simp_all add: createNewUserInfo_def Let_def)
  next
    case False
    with Some obtain u where "createNewUserInfo ai = Inr u"
      by (simp add: createNewUserInfo_def Let_def)
    with Some False show ?thesis
      by (intro user [of u username])
        (auto simp: createNewUserInfo_def Let_def GetUserType_def split: option.splits)
  qed
qed

lemma new_user_text_ok: "createNewUserInfo ai = Inr u \<Longrightarrow> user_text_ok u"
  by (rule createNewUserInfo_cases [of ai]) (auto simp: user_text_ok_def)

section \<open>Lookup, deletion, listing\<close>

definition user_Get ::
    "'s client_ptr \<Rightarrow> resource_id option \<Rightarrow> resource_id option \<Rightarrow> ('s, resource) io" where
  "user_Get c resourceId parentResourceId = (case resourceId of
     None \<Rightarrow> io_fail (Errorf ''baton-teleport: resourceId is required'')
   | Some rid \<Rightarrow>
       io_bind (io_wrap (''baton-teleport: failed to get user '' @ rid_Resource rid)
         (client_GetUser c (rid_Resource rid) False)) (\<lambda>user.
       io_lift (userResource parentResourceId user)))"

definition user_Delete :: "'s client_ptr \<Rightarrow> resource_id option \<Rightarrow> ('s, unit) io" where
  "user_Delete c resourceID =
     (let username = GetResource resourceID in
      if username = [] then io_fail (Errorf ''missing resource name'')
      else
        io_bind (io_wrap ''failed to get user'' (client_GetUser c username False)) (\<lambda>user.
        if GetUserType user \<noteq> UserTypeLocal
        then io_fail (Errorf (''cannot delete federated (non-local) user: '' @ username))
        else io_wrap ''failed to delete user''
          (with_client c (\<lambda>api. api_DeleteUser api username))))"

definition user_List :: "'s client_ptr \<Rightarrow> resource_id option \<Rightarrow> ('s, resource list) io" where
  "user_List c parentResourceID =
     io_bind (with_client c (\<lambda>api. api_GetUsers api False)) (\<lambda>users.
     io_lift (traverse (userResource parentResourceID) users))"

definition newUserBuilder :: "'s client_ptr \<Rightarrow> 's builder" where
  [go_defs]: "newUserBuilder c = \<lparr>bld_resourceType = userResourceType, bld_client = c\<rparr>"

definition user_ResourceType :: "'s builder \<Rightarrow> resource_type" where
  [go_defs]: "user_ResourceType o' = userResourceType"

definition user_Entitlements :: "resource option \<Rightarrow> entitlement list" where
  [go_defs]: "user_Entitlements r = []"

definition user_Grants :: "resource option \<Rightarrow> grant list" where
  [go_defs]: "user_Grants r = []"

interpretation user_conv: resource_converter "userResource p" user_text_ok "user_resource_of p" for p
  by unfold_locales (simp_all add: userResource_cases)

section \<open>Properties\<close>

text \<open>
  C27: The resource of a user whose name and revision are text: id and display name are the
  name, the parent is the one given; the status is disabled exactly when the user is locked;
  the internal system label decides the account type before the bot label does; only a
  human account gets the name as primary email, in the trait and in the profile; and the
  profile has the name, the revision as user id and the two parts of the name.
\<close>

theorem user_resource_shape:
  assumes "user_text_ok user"
  shows "\<exists>ut p. userResource pId user = Inr
      \<lparr>res_Id = Some \<lparr>rid_ResourceType = ''user'', rid_Resource = md_Name (usr_Metadata user)\<rparr>,
       res_ParentResourceId = pId, res_DisplayName = md_Name (usr_Metadata user),
       res_Annotations = [UserTrait ut]\<rparr>
    \<and> ut_Status ut = Some (if usr_IsLocked user then STATUS_DISABLED else STATUS_ENABLED)
    \<and> ut_AccountType ut = (if IsSystemResource (usr_Metadata user) then ACCOUNT_TYPE_SYSTEM
        else if IsBot user then ACCOUNT_TYPE_SERVICE else ACCOUNT_TYPE_HUMAN)
    \<and> ut_Emails ut = (if ut_AccountType ut = ACCOUNT_TYPE_HUMAN \<and> md_Name (usr_Metadata user) \<noteq> []
        then [(md_Name (usr_Metadata user), True)] else [])
    \<and> ut_Login ut = md_Name (usr_Metadata user)
    \<and> ut_Profile ut = Some p
    \<and> map_of p ''name'' = Some (StringValue (md_Name (usr_Metadata user)))
    \<and> map_of p ''user_id'' = Some (StringValue (md_Revision (usr_Metadata user)))
    \<and> map_of p ''first_name'' = Some (StringValue (fst (splitDashSeparatedName (md_Name (usr_Metadata user)))))
    \<and> map_of p ''last_name'' = Some (StringValue (snd (splitDashSeparatedName (md_Name (usr_Metadata user)))))
    \<and> map_of p ''email'' = (if ut_AccountType ut = ACCOUNT_TYPE_HUMAN
        then Some (StringValue (md_Name (usr_Metadata user))) else None)"
proof -
  let ?p = "string_struct (user_profile user)"
  have p: "map_of ?p ''name'' = Some (StringValue (md_Name (usr_Metadata user)))"
    "map_of ?p ''user_id'' = Some (StringValue (md_Revision (usr_Metadata user)))"
    "map_of ?p ''first_name'' = Some (StringValue (fst (splitDashSeparatedName (md_Name (usr_Metadata user)))))"
    "map_of ?p ''last_name'' = Some (StringValue (snd (splitDashSeparatedName (md_Name (usr_Metadata user)))))"
    "map_of ?p ''email'' = (if user_account_type user = ACCOUNT_TYPE_HUMAN
        then Some (StringValue (md_Name (usr_Metadata user))) else None)"
    by (simp_all add: string_struct_def user_profile_def Let_def split_beta)
  show ?thesis
    by (rule exI [of _ "user_trait_of user"], rule exI [of _ ?p])
      (use assms p in \<open>simp add: userResource_cases user_resource_of_def user_trait_of_def Let_def
        user_account_type_def\<close>)
qed

definition sample_metadata :: "string \<Rightarrow> metadata" where
  "sample_metadata name = \<lparr>md_Name = name, md_Namespace = ''default'', md_Description = [],
     md_Labels = [], md_Revision = ''r1''\<rparr>"

definition sample_user :: "string \<Rightarrow> string list \<Rightarrow> user_v2" where
  "sample_user name roles = \<lparr>usr_Kind = KindUser, usr_Version = V2, usr_Metadata = sample_metadata name,
     usr_Roles = roles, usr_Traits = None, usr_IsLocked = False, usr_CreatedByConnector = None,
     usr_OIDCIdentities = [], usr_SAMLIdentities = [], usr_GithubIdentities = []\<rparr>"

lemma sample_user_text: "valid_utf8 name \<Longrightarrow> user_text_ok (sample_user name roles)"
proof -
  have "valid_utf8 ''r1''" by code_simp
  then show "valid_utf8 name \<Longrightarrow> user_text_ok (sample_user name roles)"
    by (simp add: user_text_ok_def sample_user_def sample_metadata_def)
qed

theorem user_resource_shape_witness:
  "\<exists>ut. userResource None (sample_user ''ann-lee'' []) = Inr
      \<lparr>res_Id = Some \<lparr>rid_ResourceType = ''user'', rid_Resource = ''ann-lee''\<rparr>,
       res_ParentResourceId = None, res_DisplayName = ''ann-lee'', res_Annotations = [UserTrait ut]\<rparr>
    \<and> ut_Status ut = Some STATUS_ENABLED \<and> ut_Emails ut = [(''ann-lee'', True)]"
proof -
  have "valid_utf8 ''ann-lee''" by code_simp
  from user_resource_shape [OF sample_user_text [OF this, of "[]"], of None] show ?thesis
    by (auto simp: sample_user_def sample_metadata_def IsSystemResource_def IsBot_def)
qed

text \<open>
  Listing users is all or nothing: the resources of all users in the service's order, or,
  when the name or the revision of one of them is not UTF-8, an error and no resource.
\<close>

lemma user_list_all_or_nothing:
  assumes "c = Some tc" "tc_Client tc = Some api" "api_GetUsers api False s = (Inr users, s1)"
  shows "user_List c pId s =
    (if list_all user_text_ok users then Inr (map (user_resource_of pId) users)
     else Inl (Errorf ''invalid UTF-8 in string''), s1)"
proof -
  have "traverse (userResource pId) us = Inl (Errorf ''invalid UTF-8 in string'')"
    if "\<not> list_all user_text_ok us" for us
    using that by (induction us) (auto simp: userResource_cases user_conv.traverse_accepts)
  then show ?thesis
    using assms by (simp add: user_List_def io_bind_def io_lift_def user_conv.traverse_accepts)
qed

definition two_users_api :: "nat teleport_api" where
  "two_users_api = offline_api\<lparr>api_GetUsers := (\<lambda>_. io_return
     [sample_user ''ann'' [], sample_user [CHR 0xFF] []])\<rparr>"

lemma user_list_all_or_nothing_witness:
  "user_List (client_of two_users_api) None 7 = (Inl (Errorf ''invalid UTF-8 in string''), 7)"
proof -
  let ?us = "[sample_user ''ann'' [], sample_user [CHR 0xFF] []]"
  have "\<not> valid_utf8 [CHR 0xFF]"
    by (simp add: valid_utf8.simps valid_front_def decode_rune_def)
  then have bad: "\<not> list_all user_text_ok ?us"
    by (simp add: user_text_ok_def sample_user_def sample_metadata_def)
  have call: "api_GetUsers two_users_api False 7 = (Inr ?us, 7)"
    by (simp add: two_users_api_def io_return_def)
  show ?thesis
    unfolding user_list_all_or_nothing [OF client_of_def tc_client_eq call]
    by (simp only: bad if_False)
qed

text \<open>The account that a request for a username and a role asks for.\<close>

definition new_account :: "string \<Rightarrow> string \<Rightarrow> user_v2" where
  "new_account username role = \<lparr>usr_Kind = ''user'', usr_Version = ''v2'',
     usr_Metadata = \<lparr>md_Name = cleanResourceName username, md_Namespace = [], md_Description = [],
       md_Labels = [], md_Revision = []\<rparr>,
     usr_Roles = [role], usr_Traits = Some [(''logins'', [username])], usr_IsLocked = False,
     usr_CreatedByConnector = None, usr_OIDCIdentities = [], usr_SAMLIdentities = [],
     usr_GithubIdentities = []\<rparr>"

definition requested_role :: "account_info option \<Rightarrow> string" where
  "requested_role ai = (case as_string (map_of (profile_map ai) ''role'') of
     None \<Rightarrow> ''access'' | Some r \<Rightarrow> if r = [] then ''access'' else r)"

lemma createNewUserInfo_account:
  assumes "as_string (map_of (profile_map ai) ''name'') = Some username" "username \<noteq> []"
  shows "createNewUserInfo ai = Inr (new_account username (requested_role ai))"
  using assms
  by (simp add: createNewUserInfo_def new_account_def requested_role_def KindUser_def V2_def
      TraitLogins_def Let_def split: option.splits)

text \<open>
  C26: Creating an account: the service is asked to create one user, under the cleaned name,
  with the one requested role (access by default) and the requested name as login, and then
  for a password token of that user valid for 24 hours; the answer is that user's resource
  and the link. When the token call fails the error is returned although the user exists by
  then: nothing deletes it again.
\<close>

theorem create_account_calls:
  assumes "as_string (map_of (profile_map ai) ''name'') = Some username" "username \<noteq> []"
    and "c = Some tc" "tc_Client tc = Some api"
    and "api_CreateUser api (new_account username (requested_role ai)) s = (Inr u', s1)"
    and "api_CreateResetPasswordToken api
        \<lparr>rpr_Name = cleanResourceName username, rpr_TTL = 24 * hour_nanos\<rparr> s1 = (r, s2)"
  shows "CreateAccount c ai s =
    (case r of
       Inr url \<Rightarrow> Inr (user_resource_of None (new_account username (requested_role ai)),
           [\<lparr>pd_Name = ''password_configuration_link'', pd_Bytes = url\<rparr>])
     | Inl e \<Rightarrow> Inl (wrap_error ''failed to create reset password token'' e), s2)"
proof -
  have "user_text_ok (new_account username (requested_role ai))"
    by (simp add: user_text_ok_def new_account_def)
  moreover have "md_Name (usr_Metadata (new_account username (requested_role ai))) = cleanResourceName username"
    by (simp add: new_account_def)
  ultimately show ?thesis
    using assms createNewUserInfo_account [OF assms(1,2)]
    by (simp add: CreateAccount_def io_bind_def io_wrap_def io_lift_def io_return_def
        userResource_cases split: sum.splits)
qed

definition account_request :: "account_info option" where
  "account_request = Some \<lparr>ai_Profile = Some [(''name'', StringValue ''Ann Lee'')]\<rparr>"

definition account_api :: "user_v2 list teleport_api" where
  "account_api = offline_api\<lparr>api_CreateUser := (\<lambda>u s. (Inr u, u # s))\<rparr>"

theorem create_account_calls_witness:
  "CreateAccount (client_of account_api) account_request [] =
     (Inl (Wrapf ''failed to create reset password token'' (Errorf ''unavailable'')),
      [new_account ''Ann Lee'' ''access''])"
  using create_account_calls [where ai = account_request and username = "''Ann Lee''" and
      tc = "\<lparr>tc_Client = Some account_api, tc_ProxyAddress = ''proxy:443''\<rparr>" and s = "[]"]
  by (simp add: account_request_def account_api_def client_of_def offline_api_def Let_def io_fail_def
      requested_role_def profile_map_def)

text \<open>
  A request without a name is refused before anything is asked of the service: a missing
  key, an empty string and a value that is no string are the same.
\<close>

lemma create_account_needs_name:
  assumes "as_string (map_of (profile_map ai) ''name'') \<in> {None, Some []}"
  shows "CreateAccount c ai s = (Inl (Errorf ''missing required field: name''), s)"
  using assms
  by (auto simp: CreateAccount_def createNewUserInfo_def Let_def io_fail_def)

lemma create_account_bool_name:
  "CreateAccount (client_of account_api) (Some \<lparr>ai_Profile = Some [(''name'', BoolValue True)]\<rparr>) [] =
     (Inl (Errorf ''missing required field: name''), [])"
  by (rule create_account_needs_name) (simp add: profile_map_def)

text \<open>
  The emptiness check comes before the cleaning: a name of which nothing is left, three
  exclamation marks say, passes it, and the user to be created has the empty name.
\<close>

lemma cleaned_name_may_be_empty:
  "\<exists>u. createNewUserInfo (Some \<lparr>ai_Profile = Some [(''name'', StringValue ''!!!'')]\<rparr>) = Inr u
     \<and> md_Name (usr_Metadata u) = []"
proof -
  have "cleanResourceName ''!!!'' = []" by code_simp
  then show ?thesis
    by (simp add: createNewUserInfo_def profile_map_def Let_def)
qed

text \<open>
  C40: The emptiness check comes before the cleaning. For an ASCII name that is not empty the
  check passes, and the user that \<open>CreateAccount\<close> asks the service to create has the empty name
  exactly when the requested one has no letter, digit, space, dash, dot or plus sign. If the
  service accepts that user, \<open>CreateAccount\<close> reports success with an empty resource id, which
  \<open>Delete\<close> and \<open>Get\<close> refuse before anything is asked of the service.
\<close>

theorem account_name_lost:
  assumes "as_string (map_of (profile_map ai) ''name'') = Some username" "username \<noteq> []"
    and "\<forall>c \<in> set username. byte c < 0x80"
    and "c = Some tc" "tc_Client tc = Some api"
  shows "\<exists>u. createNewUserInfo ai = Inr u \<and>
    (md_Name (usr_Metadata u) = [] \<longleftrightarrow> (\<forall>c \<in> set username. \<not> name_kept c)) \<and>
    (\<forall>s s1 s2 u' url. md_Name (usr_Metadata u) = [] \<longrightarrow> api_CreateUser api u s = (Inr u', s1) \<longrightarrow>
       api_CreateResetPasswordToken api \<lparr>rpr_Name = [], rpr_TTL = 24 * hour_nanos\<rparr> s1 = (Inr url, s2) \<longrightarrow>
       (\<exists>res. CreateAccount c ai s =
           (Inr (res, [\<lparr>pd_Name = ''password_configuration_link'', pd_Bytes = url\<rparr>]), s2) \<and>
         res_Id res = Some \<lparr>rid_ResourceType = ''user'', rid_Resource = []\<rparr> \<and>
         (\<forall>s'. user_Delete c (res_Id res) s' = (Inl (Errorf ''missing resource name''), s') \<and>
           (\<exists>e. user_Get c (res_Id res) None s' = (Inl e, s')))))"
proof -
  let ?u = "new_account username (requested_role ai)"
  have new: "createNewUserInfo ai = Inr ?u" by (rule createNewUserInfo_account [OF assms(1,2)])
  have ok: "user_text_ok ?u" by (simp add: user_text_ok_def new_account_def)
  have name: "md_Name (usr_Metadata ?u) = [] \<longleftrightarrow> (\<forall>c \<in> set username. \<not> name_kept c)"
    using clean_ascii [OF assms(3)] by (simp add: new_account_def)
  have run: "CreateAccount c ai s = (Inr (user_resource_of None ?u,
        [\<lparr>pd_Name = ''password_configuration_link'', pd_Bytes = url\<rparr>]), s2)"
    if "md_Name (usr_Metadata ?u) = []" "api_CreateUser api ?u s = (Inr u', s1)"
      "api_CreateResetPasswordToken api \<lparr>rpr_Name = [], rpr_TTL = 24 * hour_nanos\<rparr> s1 = (Inr url, s2)"
    for s s1 s2 u' url
    using assms(4,5) that
    by (simp add: CreateAccount_def new io_bind_def io_wrap_def io_lift_def io_return_def
        userResource_cases ok)
  have lost: "res_Id (user_resource_of None ?u) = Some \<lparr>rid_ResourceType = ''user'', rid_Resource = []\<rparr>"
    if "md_Name (usr_Metadata ?u) = []" using that by (simp add: user_resource_of_def)
  have refused: "user_Delete c (Some \<lparr>rid_ResourceType = ''user'', rid_Resource = []\<rparr>) s' =
        (Inl (Errorf ''missing resource name''), s')"
    "\<exists>e. user_Get c (Some \<lparr>rid_ResourceType = ''user'', rid_Resource = []\<rparr>) None s' = (Inl e, s')" for s'
    by (simp_all add: user_Delete_def user_Get_def client_GetUser_def io_fail_def io_bind_def io_wrap_def)
  show ?thesis
    by (intro exI [of _ ?u] conjI allI impI, rule new, rule name)
      (intro exI [of _ "user_resource_of None ?u"] conjI allI, rule run, assumption+,
        rule lost, assumption, simp_all add: lost refused)
qed

definition lenient_api :: "user_v2 list teleport_api" where
  "lenient_api = account_api\<lparr>api_CreateResetPasswordToken := (\<lambda>q s. (Inr ''https://proxy/reset'', s))\<rparr>"

theorem account_name_lost_witness:
  "\<exists>u res link. CreateAccount (client_of lenient_api)
      (Some \<lparr>ai_Profile = Some [(''name'', StringValue ''!!!'')]\<rparr>) [] = (Inr (res, link), [u]) \<and>
    md_Name (usr_Metadata u) = [] \<and>
    user_Delete (client_of lenient_api) (res_Id res) [u] = (Inl (Errorf ''missing resource name''), [u])"
proof -
  let ?ai = "Some \<lparr>ai_Profile = Some [(''name'', StringValue ''!!!'')]\<rparr>"
  have ai: "as_string (map_of (profile_map ?ai) ''name'') = Some ''!!!''" "''!!!'' \<noteq> []"
    "\<forall>c \<in> set ''!!!''. byte c < 0x80"
    by (simp_all add: profile_map_def)
  have none: "\<forall>c \<in> set ''!!!''. \<not> name_kept c" by (simp add: name_kept_def)
  have calls: "api_CreateUser lenient_api u [] = (Inr u, [u])"
    "api_CreateResetPasswordToken lenient_api q s = (Inr ''https://proxy/reset'', s)" for u q s
    by (simp_all add: lenient_api_def account_api_def)
  from account_name_lost [OF ai client_of_def tc_client_eq, of lenient_api] none calls
  show ?thesis by blast
qed

text \<open>
  Deletion asks the service to delete exactly the named user, and only when the service
  says it is a local one; for a federated user nothing is called after the lookup.
\<close>

lemma delete_only_local:
  assumes "c = Some tc" "tc_Client tc = Some api" "rid_Resource rid \<noteq> []"
    and "api_GetUser api (rid_Resource rid) False s = (Inr user, s1)"
  shows "user_Delete c (Some rid) s =
    (if usr_CreatedByConnector user = None \<and> usr_OIDCIdentities user = [] \<and>
        usr_GithubIdentities user = [] \<and> usr_SAMLIdentities user = []
     then (case api_DeleteUser api (rid_Resource rid) s1 of
        (r, s2) \<Rightarrow> (res_wrap ''failed to delete user'' r, s2))
     else (Inl (Errorf (''cannot delete federated (non-local) user: '' @ rid_Resource rid)), s1))"
  using assms
  by (simp add: user_Delete_def client_GetUser_def io_bind_def io_wrap_def io_fail_def
      GetUserType_def Let_def)

lemma delete_only_local_witness:
  "user_Delete (client_of (offline_api\<lparr>api_GetUser := (\<lambda>n b. io_return
       ((sample_user n [])\<lparr>usr_GithubIdentities := [\<lparr>eid_ConnectorID = ''gh'', eid_Username = n\<rparr>]\<rparr>))\<rparr>))
     (Some \<lparr>rid_ResourceType = ''user'', rid_Resource = ''ann''\<rparr>) (7 :: nat) =
   (Inl (Errorf ''cannot delete federated (non-local) user: ann''), 7)"
  using delete_only_local [where tc = "\<lparr>tc_Client = Some (offline_api\<lparr>api_GetUser := (\<lambda>n b. io_return
       ((sample_user n [])\<lparr>usr_GithubIdentities := [\<lparr>eid_ConnectorID = ''gh'', eid_Username = n\<rparr>]\<rparr>))\<rparr>),
       tc_ProxyAddress = ''proxy:443''\<rparr>" and rid = "\<lparr>rid_ResourceType = ''user'', rid_Resource = ''ann''\<rparr>"
       and s = "7 :: nat"]
  by (simp add: client_of_def io_return_def)

end
