(* ===== verification/Roles.thy ===== *)
theory Roles
  imports Users
begin

text \<open>
  \<open>pkg/connector/roles.go\<close>: roles, their one entitlement, the grants read from the users, and
  granting and revoking a role. The builder keeps a cache of the users; an operation that
  can touch it runs on the pair of the outside world and the cache.
\<close>

section \<open>The builder's state\<close>

record 's role_builder = "'s builder" +
  userCache :: "user_v2 list"

definition newRoleBuilder :: "'s client_ptr \<Rightarrow> 's role_builder" where
  [go_defs]: "newRoleBuilder c =
     \<lparr>bld_resourceType = roleResourceType, bld_client = c, userCache = []\<rparr>"

definition role_ResourceType :: "'s role_builder \<Rightarrow> resource_type" where
  [go_defs]: "role_ResourceType r = bld_resourceType r"

text \<open>The operations take the client; those that read or write the cache have it in their state.\<close>

type_synonym 's role_state = "'s \<times> user_v2 list"

definition get_cache :: "('s role_state, user_v2 list) io" where
  [io_simps]: "get_cache = (\<lambda>(s, cache). (Inr cache, (s, cache)))"

definition put_cache :: "user_v2 list \<Rightarrow> ('s role_state, unit) io" where
  [io_simps]: "put_cache users = (\<lambda>(s, cache). (Inr (), (s, users)))"

section \<open>Roles\<close>

definition getRoleResource :: "role \<Rightarrow> resource result" where
  [go_defs]: "getRoleResource role =
     (let roleName = md_Name (rol_Metadata role) in
      NewRoleResource roleName roleResourceType roleName
        [WithRoleProfile [(''role_id'', md_Revision (rol_Metadata role)), (''role_name'', roleName),
           (''role_description'', md_Description (rol_Metadata role))]] [])"

definition role_GetUsers :: "'s client_ptr \<Rightarrow> ('s role_state, user_v2 list) io" where
  "role_GetUsers c =
     io_bind get_cache (\<lambda>cache.
     if cache \<noteq> [] then io_return cache
     else io_bind (on_world (with_client c (\<lambda>api. api_GetUsers api False))) (\<lambda>users.
          io_bind (put_cache users) (\<lambda>_. io_return users)))"

definition role_List :: "'s client_ptr \<Rightarrow> ('s role_state, resource list) io" where
  "role_List c =
     io_bind (on_world (with_client c api_GetRoles)) (\<lambda>roles.
     io_bind (io_lift (traverse getRoleResource roles)) (\<lambda>rv.
     io_bind (put_cache []) (\<lambda>_. io_return rv)))"

definition role_Get :: "'s client_ptr \<Rightarrow> resource_id option \<Rightarrow> ('s, resource) io" where
  "role_Get c resourceId = (case resourceId of
     None \<Rightarrow> io_fail (Errorf ''baton-teleport: resourceId is required'')
   | Some rid \<Rightarrow>
       io_bind (io_wrap (''baton-teleport: failed to get role '' @ rid_Resource rid)
         (client_GetRole c (rid_Resource rid))) (\<lambda>role.
       io_lift (getRoleResource role)))"

definition role_Entitlements :: "resource option \<Rightarrow> entitlement list result" where
  [go_defs]: "role_Entitlements r = res_bind (deref r) (\<lambda>res.
     Inr [NewAssignmentEntitlement res roleMembership
       [WithGrantableTo [userResourceType],
        WithDisplayName (res_DisplayName res @ '' Role '' @ roleMembership),
        WithDescription (''Member of '' @ res_DisplayName res @ '' Teleport role'')]])"

section \<open>Grants\<close>

text \<open>
  The body of the loop over the users; the error message dereferences \<open>resource.Id\<close>, which
  the conversion itself accepts as nil.
\<close>

definition role_user_grants :: "resource option \<Rightarrow> user_v2 \<Rightarrow> grant list result" where
  [go_defs]: "role_user_grants r user = res_bind (deref r) (\<lambda>res.
     res_bind
       (case userResource (res_Id res) user of
          Inr ur \<Rightarrow> Inr ur
        | Inl e \<Rightarrow> res_bind (deref (res_Id res)) (\<lambda>rid.
            Inl (wrap_error (''error creating user resource for role '' @ rid_Resource rid) e)))
       (\<lambda>ur. traverse (\<lambda>_. NewGrant res roleMembership (res_Id ur))
          (filter (\<lambda>role. role = res_DisplayName res) (usr_Roles user))))"

definition role_Grants :: "'s client_ptr \<Rightarrow> resource option \<Rightarrow> ('s role_state, grant list) io" where
  "role_Grants c r =
     io_bind (role_GetUsers c) (\<lambda>users.
     io_lift (res_bind (traverse (role_user_grants r) users) (\<lambda>gss. Inr (concat gss))))"

section \<open>Granting and revoking\<close>

definition role_Grant ::
    "'s client_ptr \<Rightarrow> resource option \<Rightarrow> entitlement option \<Rightarrow> ('s, unit) io" where
  "role_Grant c pr en =
     io_bind (io_lift (res_bind (deref pr) (\<lambda>p. deref (res_Id p)))) (\<lambda>pid.
     io_bind (io_lift (res_bind (deref en) (\<lambda>e.
       res_bind (deref (ent_Resource e)) (\<lambda>er. deref (res_Id er))))) (\<lambda>rid.
     let userName = rid_Resource pid; roleName = rid_Resource rid in
     if rid_ResourceType pid \<noteq> rty_Id userResourceType
     then io_fail (Errorf ''baton-teleport: only users can be granted role membership'')
     else
       io_bind (io_lift (NewRole roleName [userName])) (\<lambda>prodRole.
       io_bind (client_GetUser c userName False) (\<lambda>user.
       let user = SetLogins (GetLogins user @ [userName]) user;
           user = AddRole (md_Name (rol_Metadata prodRole)) user
       in io_bind (io_wrap ''baton-teleport: failed to grant role''
            (with_client c (\<lambda>api. api_UpdateUser api user))) (\<lambda>_. io_return ())))))"

definition role_Revoke :: "'s client_ptr \<Rightarrow> grant option \<Rightarrow> ('s, unit) io" where
  "role_Revoke c gr =
     io_bind (io_lift (deref gr)) (\<lambda>g.
     io_bind (io_lift (res_bind (deref (gr_Principal g)) (\<lambda>p. deref (res_Id p)))) (\<lambda>pid.
     if rid_ResourceType pid \<noteq> rty_Id userResourceType
     then io_fail (Errorf ''baton-teleport: only users can have role membership revoked'')
     else
       io_bind (io_lift (res_bind (deref (gr_Entitlement g)) (\<lambda>e.
         res_bind (deref (ent_Resource e)) (\<lambda>er. deref (res_Id er))))) (\<lambda>rid.
       let roleName = rid_Resource rid; userName = rid_Resource pid in
       io_bind (client_GetUser c userName False) (\<lambda>user.
       let user = SetLogins (GetLogins user @ [userName]) user;
           roleList = filter (\<lambda>role. role \<noteq> roleName) (usr_Roles user);
           user = SetRoles roleList user
       in io_bind (io_wrap ''baton-teleport: failed to revoke role''
            (with_client c (\<lambda>api. api_UpdateUser api user))) (\<lambda>_. io_return ())))))"

section \<open>Lemmas\<close>

definition role_text_ok :: "role \<Rightarrow> bool" where
  [go_defs]: "role_text_ok role \<longleftrightarrow> valid_utf8 (md_Name (rol_Metadata role)) \<and>
     valid_utf8 (md_Revision (rol_Metadata role)) \<and> valid_utf8 (md_Description (rol_Metadata role))"

definition role_resource_of :: "role \<Rightarrow> resource" where
  [go_defs]: "role_resource_of role =
     \<lparr>res_Id = Some \<lparr>rid_ResourceType = ''role'', rid_Resource = md_Name (rol_Metadata role)\<rparr>,
      res_ParentResourceId = None, res_DisplayName = md_Name (rol_Metadata role),
      res_Annotations = [RoleTrait \<lparr>rt_Profile = Some (string_struct
         [(''role_id'', md_Revision (rol_Metadata role)), (''role_name'', md_Name (rol_Metadata role)),
          (''role_description'', md_Description (rol_Metadata role))])\<rparr>]\<rparr>"

lemma role_keys_utf8 [simp]:
  "valid_utf8 ''role_id''" "valid_utf8 ''role_name''" "valid_utf8 ''role_description''"
  by code_simp+

lemma getRoleResource_cases:
  "getRoleResource role =
     (if role_text_ok role then Inr (role_resource_of role)
      else Inl (Errorf ''invalid UTF-8 in string''))"
  by (auto simp: getRoleResource_def NewRoleResource_profile role_text_ok_def role_resource_of_def
      Let_def)

interpretation role_conv: resource_converter getRoleResource role_text_ok role_resource_of
  by unfold_locales (simp_all add: getRoleResource_cases)

interpretation role_ent: membership_syncer role_Entitlements roleMembership "'' Role ''" "'' Teleport role''"
  by unfold_locales (simp_all add: role_Entitlements_def)

lemma traverse_const: "traverse (\<lambda>_. Inr y) xs = Inr (map (\<lambda>_. y) xs)"
  by (induction xs) simp_all

lemma map_const_filter: "map (\<lambda>_. y) (filter (\<lambda>x. x = d) xs) = replicate (count_list xs d) y"
  by (induction xs) auto

text \<open>The grant of one user on a role resource.\<close>

definition member_grant :: "resource \<Rightarrow> user_v2 \<Rightarrow> grant" where
  [go_defs]: "member_grant r user =
     \<lparr>gr_Entitlement = Some
        \<lparr>ent_Resource = Some r, ent_Id = NewEntitlementID r roleMembership, ent_DisplayName = [],
         ent_Description = [], ent_GrantableTo = [], ent_Purpose = PURPOSE_VALUE_UNSPECIFIED,
         ent_Slug = []\<rparr>,
      gr_Principal = Some
        \<lparr>res_Id = Some \<lparr>rid_ResourceType = ''user'', rid_Resource = md_Name (usr_Metadata user)\<rparr>,
         res_ParentResourceId = None, res_DisplayName = [], res_Annotations = []\<rparr>,
      gr_Id = NewEntitlementID r roleMembership @ '':user:'' @ md_Name (usr_Metadata user)\<rparr>"

lemma role_user_grants_ok:
  assumes "user_text_ok user"
  shows "role_user_grants (Some r) user =
    Inr (map (\<lambda>_. member_grant r user) (filter (\<lambda>role. role = res_DisplayName r) (usr_Roles user)))"
proof -
  have "NewGrant r roleMembership (res_Id (user_resource_of (res_Id r) user)) = Inr (member_grant r user)"
    by (simp add: NewGrant_def member_grant_def user_resource_of_def)
  then show ?thesis
    using assms by (simp add: role_user_grants_def userResource_cases traverse_const)
qed

lemma role_Grants_run:
  assumes "c = Some tc" "tc_Client tc = Some api"
    and "api_GetUsers api False s = (Inr users, s1)" "list_all user_text_ok users"
  shows "role_Grants c (Some r) (s, []) =
    (Inr (concat (map (\<lambda>u. replicate (count_list (usr_Roles u) (res_DisplayName r)) (member_grant r u)) users)),
     (s1, users))"
proof -
  have one: "role_user_grants (Some r) u =
      Inr (replicate (count_list (usr_Roles u) (res_DisplayName r)) (member_grant r u))"
    if "u \<in> set users" for u
  proof -
    show ?thesis
      using that assms(4) by (simp add: role_user_grants_ok list_all_iff map_const_filter)
  qed
  then have "traverse (role_user_grants (Some r)) users =
      Inr (map (\<lambda>u. replicate (count_list (usr_Roles u) (res_DisplayName r)) (member_grant r u)) users)"
    by (rule traverse_total)
  then show ?thesis
    using assms(1-3)
    by (simp add: role_Grants_def role_GetUsers_def get_cache_def put_cache_def on_world_def
        io_bind_def io_return_def io_lift_def)
qed

section \<open>The user that is sent to the service\<close>

definition with_login :: "string \<Rightarrow> user_v2 \<Rightarrow> user_v2" where
  "with_login name user = SetLogins (GetLogins user @ [name]) user"

definition granted :: "string \<Rightarrow> string \<Rightarrow> user_v2 \<Rightarrow> user_v2" where
  "granted role name user = AddRole role (with_login name user)"

definition revoked :: "string \<Rightarrow> string \<Rightarrow> user_v2 \<Rightarrow> user_v2" where
  "revoked role name user =
     SetRoles (filter (\<lambda>r. r \<noteq> role) (usr_Roles user)) (with_login name user)"

lemma with_login_sel [simp]:
  "usr_Roles (with_login n u) = usr_Roles u"
  "usr_Metadata (with_login n u) = usr_Metadata u"
  by (simp_all add: with_login_def SetLogins_def)

lemma with_login_logins: "GetLogins (with_login n u) = Deduplicate (GetLogins u @ [n])"
  by (simp add: with_login_def SetLogins_def GetLogins_def getTrait_setTrait)

lemma granted_sel [simp]:
  "usr_Metadata (granted r n u) = usr_Metadata u"
  "usr_Roles (granted r n u) = (if r \<in> set (usr_Roles u) then usr_Roles u else usr_Roles u @ [r])"
  by (simp_all add: granted_def AddRole_def)

lemma revoked_sel [simp]:
  "usr_Metadata (revoked r n u) = usr_Metadata u"
  "usr_Roles (revoked r n u) = Deduplicate (filter (\<lambda>x. x \<noteq> r) (usr_Roles u))"
  by (simp_all add: revoked_def SetRoles_def)

text \<open>
  What both operations change of a user beside the roles: the logins gain the user's own name,
  while every other trait and every other field stays as it was.
\<close>

definition adds_login :: "string \<Rightarrow> user_v2 \<Rightarrow> user_v2 \<Rightarrow> bool" where
  "adds_login name u u' \<longleftrightarrow>
     u'\<lparr>usr_Roles := usr_Roles u, usr_Traits := usr_Traits u\<rparr> = u \<and>
     set (GetLogins u') = insert name (set (GetLogins u)) \<and>
     (\<forall>t. t \<noteq> TraitLogins \<longrightarrow> getTrait t u' = getTrait t u)"

lemma getTrait_roles [simp]: "getTrait t (u\<lparr>usr_Roles := rs\<rparr>) = getTrait t u"
  by (simp add: getTrait_def)

lemma with_login_traits: "t \<noteq> TraitLogins \<Longrightarrow> getTrait t (with_login n u) = getTrait t u"
  by (simp add: with_login_def SetLogins_def getTrait_setTrait)

lemma with_login_adds: "adds_login n u ((with_login n u)\<lparr>usr_Roles := rs\<rparr>)"
proof -
  have "set (getTrait TraitLogins (with_login n u)) = insert n (set (GetLogins u))"
    using with_login_logins [of n u] by (simp add: GetLogins_def)
  moreover have "(with_login n u)\<lparr>usr_Roles := usr_Roles u, usr_Traits := usr_Traits u\<rparr> = u"
    by (cases u) (simp add: with_login_def SetLogins_def setTrait_def)
  ultimately show ?thesis by (simp add: adds_login_def with_login_traits GetLogins_def)
qed

lemma with_login_adds': "adds_login n u (with_login n u)"
  using with_login_adds [of n u "usr_Roles (with_login n u)"] by (simp del: with_login_sel)

lemma granted_adds_login: "adds_login n u (granted r n u)"
  by (simp add: granted_def AddRole_def with_login_adds with_login_adds' del: with_login_sel)

lemma revoked_adds_login: "adds_login n u (revoked r n u)"
  by (simp add: revoked_def SetRoles_def with_login_adds)

subsection \<open>Granting twice is granting once\<close>

lemma dedup_from_append:
  "dedup_from old (xs @ [x]) = (if x \<in> set old \<union> set xs then dedup_from old xs else dedup_from old xs @ [x])"
  by (induction xs arbitrary: old) auto

lemma Deduplicate_member: "distinct xs \<Longrightarrow> x \<in> set xs \<Longrightarrow> Deduplicate (xs @ [x]) = xs"
  by (auto simp: Deduplicate_def dedup_from_append dedup_from_distinct)

lemma update_twice: "AList.update k w (AList.update k v m) = AList.update k w m"
  by (induction m) auto

lemma with_login_twice: "with_login n (with_login n u) = with_login n u"
proof -
  let ?l = "Deduplicate (GetLogins u @ [n])"
  have "Deduplicate (?l @ [n]) = ?l" by (rule Deduplicate_member) simp_all
  then have "Deduplicate (GetLogins (with_login n u) @ [n]) = ?l" by (simp add: with_login_logins)
  then show ?thesis
    by (simp add: with_login_def [of n "with_login n u"] SetLogins_def setTrait_def Deduplicate_distinct)
      (simp add: with_login_def SetLogins_def setTrait_def update_twice)
qed

lemma granted_twice: "granted r n (granted r n u) = granted r n u"
proof -
  have "with_login n (AddRole r v) = AddRole r (with_login n v)" for v
    by (cases v) (simp add: AddRole_def with_login_def SetLogins_def setTrait_def GetLogins_def getTrait_def)
  moreover have "AddRole r (AddRole r v) = AddRole r v" for v by (simp add: AddRole_def)
  ultimately show ?thesis by (simp add: granted_def with_login_twice)
qed

lemma revoked_twice: "revoked r n (revoked r n u) = revoked r n u"
proof -
  have "with_login n (SetRoles rs v) = SetRoles rs (with_login n v)" for rs v
    by (cases v) (simp add: SetRoles_def with_login_def SetLogins_def setTrait_def GetLogins_def getTrait_def)
  moreover have "SetRoles rs (SetRoles ss v) = SetRoles rs v" for rs ss v by (simp add: SetRoles_def)
  moreover have "filter (\<lambda>x. x \<noteq> r) (Deduplicate (filter (\<lambda>x. x \<noteq> r) xs)) =
      Deduplicate (filter (\<lambda>x. x \<noteq> r) xs)" for xs
    by (rule filter_True) simp
  moreover have "SetRoles (Deduplicate xs) v = SetRoles xs v" for xs v
    by (simp add: SetRoles_def Deduplicate_distinct)
  ultimately show ?thesis by (simp add: revoked_def with_login_twice SetRoles_def)
qed

text \<open>The principal of a grant request, and its entitlement.\<close>

definition user_ref :: "string \<Rightarrow> resource" where
  [go_defs]: "user_ref n = \<lparr>res_Id = Some \<lparr>rid_ResourceType = ''user'', rid_Resource = n\<rparr>,
     res_ParentResourceId = None, res_DisplayName = n, res_Annotations = []\<rparr>"

definition role_ref :: "string \<Rightarrow> resource" where
  [go_defs]: "role_ref n = \<lparr>res_Id = Some \<lparr>rid_ResourceType = ''role'', rid_Resource = n\<rparr>,
     res_ParentResourceId = None, res_DisplayName = n, res_Annotations = []\<rparr>"

definition membership_of :: "string \<Rightarrow> entitlement" where
  [go_defs]: "membership_of role = NewAssignmentEntitlement (role_ref role) roleMembership []"

definition grant_of :: "string \<Rightarrow> string \<Rightarrow> grant" where
  [go_defs]: "grant_of role n = \<lparr>gr_Entitlement = Some (membership_of role),
     gr_Principal = Some (user_ref n), gr_Id = []\<rparr>"

lemma membership_of_sel [simp]: "ent_Resource (membership_of role) = Some (role_ref role)"
  by (simp add: membership_of_def NewAssignmentEntitlement_def)

lemma ref_id [simp]:
  "res_Id (user_ref n) = Some \<lparr>rid_ResourceType = ''user'', rid_Resource = n\<rparr>"
  "res_Id (role_ref n) = Some \<lparr>rid_ResourceType = ''role'', rid_Resource = n\<rparr>"
  by (simp_all add: user_ref_def role_ref_def)

lemma role_Grant_run:
  assumes "c = Some tc" "tc_Client tc = Some api" "name \<noteq> []" "Wildcard \<noteq> name" "role \<noteq> []"
    and "api_GetUser api name False s = (Inr user, s1)"
  shows "role_Grant c (Some (user_ref name)) (Some (membership_of role)) s =
    (case api_UpdateUser api (granted role name user) s1 of (r, s2) \<Rightarrow>
       (res_wrap ''baton-teleport: failed to grant role'' (res_bind r (\<lambda>_. Inr ())), s2))"
proof -
  obtain r s2 where "api_UpdateUser api (granted role name user) s1 = (r, s2)"
    by (cases "api_UpdateUser api (granted role name user) s1")
  then show ?thesis
    using assms
    by (simp add: role_Grant_def NewRole_def client_GetUser_def granted_def with_login_def)
      (cases r; simp add: Let_def io_bind_def io_wrap_def io_return_def)
qed

lemma role_Revoke_run:
  assumes "c = Some tc" "tc_Client tc = Some api" "name \<noteq> []"
    and "api_GetUser api name False s = (Inr user, s1)"
  shows "role_Revoke c (Some (grant_of role name)) s =
    (case api_UpdateUser api (revoked role name user) s1 of (r, s2) \<Rightarrow>
       (res_wrap ''baton-teleport: failed to revoke role'' (res_bind r (\<lambda>_. Inr ())), s2))"
proof -
  obtain r s2 where "api_UpdateUser api (revoked role name user) s1 = (r, s2)"
    by (cases "api_UpdateUser api (revoked role name user) s1")
  then show ?thesis
    using assms
    by (simp add: role_Revoke_def grant_of_def client_GetUser_def revoked_def with_login_def)
      (cases r; simp add: Let_def io_bind_def io_wrap_def io_return_def setTrait_sel SetLogins_def)
qed

text \<open>
  A service that stores users under their names: what a lookup returns is what the last
  update stored. An update is for a user that is there; what the service does with one for a
  user that is not is left open. The revision that the service gives the updated user is left
  out: no operation here compares it.
\<close>

definition user_store :: "(string \<Rightarrow> user_v2 option) teleport_api \<Rightarrow> bool" where
  "user_store api \<longleftrightarrow>
     (\<forall>n b s. api_GetUser api n b s =
        (case s n of Some u \<Rightarrow> (Inr u, s) | None \<Rightarrow> (Inl (Errorf ''not found''), s))) \<and>
     (\<forall>u s. md_Name (usr_Metadata u) \<in> dom s \<longrightarrow>
        api_UpdateUser api u s = (Inr u, s(md_Name (usr_Metadata u) \<mapsto> u)))"

lemma user_store_UpdateUser:
  "user_store api \<Longrightarrow> s n = Some v \<Longrightarrow> md_Name (usr_Metadata u) = n \<Longrightarrow>
     api_UpdateUser api u s = (Inr u, s(n \<mapsto> u))"
  unfolding user_store_def by blast

lemma store_Grant:
  assumes "c = Some tc" "tc_Client tc = Some api" "user_store api"
    and "name \<noteq> []" "Wildcard \<noteq> name" "role \<noteq> []" "s name = Some user"
    and "md_Name (usr_Metadata user) = name"
  shows "role_Grant c (Some (user_ref name)) (Some (membership_of role)) s =
    (Inr (), s(name \<mapsto> granted role name user))"
proof -
  have "api_GetUser api name False s = (Inr user, s)"
    using assms(3,7) by (simp add: user_store_def)
  moreover have "api_UpdateUser api (granted role name user) s =
      (Inr (granted role name user), s(name \<mapsto> granted role name user))"
    by (rule user_store_UpdateUser [where s = s, OF assms(3,7)]) (simp add: assms(8))
  ultimately show ?thesis
    using role_Grant_run [OF assms(1,2,4,5,6), where s = s] by simp
qed

lemma store_Revoke:
  assumes "c = Some tc" "tc_Client tc = Some api" "user_store api"
    and "name \<noteq> []" "s name = Some user" "md_Name (usr_Metadata user) = name"
  shows "role_Revoke c (Some (grant_of role name)) s =
    (Inr (), s(name \<mapsto> revoked role name user))"
proof -
  have "api_GetUser api name False s = (Inr user, s)"
    using assms(3,5) by (simp add: user_store_def)
  moreover have "api_UpdateUser api (revoked role name user) s =
      (Inr (revoked role name user), s(name \<mapsto> revoked role name user))"
    by (rule user_store_UpdateUser [where s = s, OF assms(3,5)]) (simp add: assms(6))
  ultimately show ?thesis
    using role_Revoke_run [OF assms(1,2,4), where s = s] by simp
qed

definition store_api :: "(string \<Rightarrow> user_v2 option) teleport_api" where
  "store_api = offline_api\<lparr>
     api_GetUser := (\<lambda>n b s. case s n of Some u \<Rightarrow> (Inr u, s) | None \<Rightarrow> (Inl (Errorf ''not found''), s)),
     api_UpdateUser := (\<lambda>u s. case s (md_Name (usr_Metadata u)) of
        Some _ \<Rightarrow> (Inr u, s(md_Name (usr_Metadata u) \<mapsto> u)) | None \<Rightarrow> (Inl (Errorf ''not found''), s))\<rparr>"

lemma store_api_store: "user_store store_api"
  by (auto simp: user_store_def store_api_def)

section \<open>Properties\<close>

text \<open>
  C23: The grants of a role resource, read from a service that lists the users \<open>users\<close> into an
  empty cache: in the order of the users, one grant per occurrence of the role's name among
  the user's roles, no grant for anybody else; the users are cached.
\<close>

theorem grants_from_users:
  assumes "c = Some tc" "tc_Client tc = Some api"
    and "api_GetUsers api False s = (Inr users, s1)" "list_all user_text_ok users"
  shows "role_Grants c (Some r) (s, []) =
    (Inr (concat (map (\<lambda>u. replicate (count_list (usr_Roles u) (res_DisplayName r)) (member_grant r u)) users)),
     (s1, users))"
  by (rule role_Grants_run [OF assms])

definition team_api :: "nat teleport_api" where
  "team_api = offline_api\<lparr>api_GetUsers := (\<lambda>_ s. (Inr
     [sample_user ''ann'' [''dev'', ''ops''], sample_user ''bob'' [''ops''], sample_user ''eve'' [''dev'']], Suc s))\<rparr>"

lemma team_text: "list_all user_text_ok
    [sample_user ''ann'' [''dev'', ''ops''], sample_user ''bob'' [''ops''], sample_user ''eve'' [''dev'']]"
proof -
  have "valid_utf8 ''ann''" "valid_utf8 ''bob''" "valid_utf8 ''eve''" by code_simp+
  then show ?thesis by (simp add: sample_user_text)
qed

theorem grants_from_users_witness:
  "role_Grants (client_of team_api) (Some (role_ref ''dev'')) (0, []) =
    (Inr [member_grant (role_ref ''dev'') (sample_user ''ann'' [''dev'', ''ops'']),
          member_grant (role_ref ''dev'') (sample_user ''eve'' [''dev''])],
     (1, [sample_user ''ann'' [''dev'', ''ops''], sample_user ''bob'' [''ops''], sample_user ''eve'' [''dev'']]))"
proof -
  let ?us = "[sample_user ''ann'' [''dev'', ''ops''], sample_user ''bob'' [''ops''], sample_user ''eve'' [''dev'']]"
  have call: "api_GetUsers team_api False 0 = (Inr ?us, 1)"
    by (simp add: team_api_def)
  show ?thesis
    unfolding grants_from_users [OF client_of_def tc_client_eq call team_text]
    by (simp add: sample_user_def role_ref_def)
qed

text \<open>
  The cache. A filled cache answers \<open>Grants\<close> without a call; only a successful \<open>List\<close>
  empties it, and a failed one leaves it as it was; granting and revoking run on the outside
  world alone, so what they change is not seen until the next \<open>List\<close>.
\<close>

lemma role_cache_behaviour:
  assumes "cache \<noteq> []"
  shows "snd (role_Grants c r (s, cache)) = (s, cache) \<and>
    (case role_List c (s, cache) of
       (Inr _, (_, cache')) \<Rightarrow> cache' = []
     | (Inl _, (_, cache')) \<Rightarrow> cache' = cache) \<and>
    snd (snd (on_world (role_Grant c p e) (s, cache))) = cache \<and>
    snd (snd (on_world (role_Revoke c g) (s, cache))) = cache"
proof (intro conjI)
  show "snd (role_Grants c r (s, cache)) = (s, cache)"
    using assms by (simp add: role_Grants_def role_GetUsers_def get_cache_def io_bind_def
        io_return_def io_lift_def)
  show "case role_List c (s, cache) of
       (Inr _, (_, cache')) \<Rightarrow> cache' = []
     | (Inl _, (_, cache')) \<Rightarrow> cache' = cache"
    by (auto simp: role_List_def io_bind_def on_world_def put_cache_def io_lift_def io_return_def
        split: prod.splits sum.splits)
qed (simp_all add: on_world_def Let_def split: prod.splits)

lemma role_cache_behaviour_witness:
  "snd (role_Grants (client_of team_api) (Some (role_ref ''dev'')) (5, [sample_user ''ann'' []])) =
     (5, [sample_user ''ann'' []])"
  using role_cache_behaviour [of "[sample_user ''ann'' []]" "client_of team_api" "Some (role_ref ''dev'')" 5]
  by simp

text \<open>
  C24: Granting a role to a user of the store makes the user a member: the roles the user had
  keep their order, with the role behind them when it was not there; the user's own name is
  added to the logins, every other trait and every other field of the user stays, nobody else
  changes, and granting it again changes nothing.
\<close>

theorem grant_adds_membership:
  assumes "c = Some tc" "tc_Client tc = Some api" "user_store api"
    and "name \<noteq> []" "Wildcard \<noteq> name" "role \<noteq> []" "s name = Some user"
    and "md_Name (usr_Metadata user) = name"
  shows "\<exists>user'. role_Grant c (Some (user_ref name)) (Some (membership_of role)) s =
      (Inr (), s(name \<mapsto> user')) \<and>
    usr_Roles user' = (if role \<in> set (usr_Roles user) then usr_Roles user else usr_Roles user @ [role]) \<and>
    usr_Metadata user' = usr_Metadata user \<and> adds_login name user user' \<and>
    role_Grant c (Some (user_ref name)) (Some (membership_of role)) (s(name \<mapsto> user')) =
      (Inr (), s(name \<mapsto> user'))"
proof -
  let ?u = "granted role name user"
  have 1: "role_Grant c (Some (user_ref name)) (Some (membership_of role)) s = (Inr (), s(name \<mapsto> ?u))"
    by (rule store_Grant [where s = s, OF assms])
  have "role_Grant c (Some (user_ref name)) (Some (membership_of role)) (s(name \<mapsto> ?u)) =
      (Inr (), s(name \<mapsto> ?u, name \<mapsto> granted role name ?u))"
    by (rule store_Grant [OF assms(1-6)]) (simp_all add: assms(8))
  with 1 show ?thesis
    by (intro exI [of _ ?u]) (simp add: granted_twice granted_adds_login)
qed

theorem grant_adds_membership_witness:
  "\<exists>user'. role_Grant (client_of store_api) (Some (user_ref ''ann'')) (Some (membership_of ''ops''))
      [''ann'' \<mapsto> sample_user ''ann'' [''dev'']] = (Inr (), [''ann'' \<mapsto> user']) \<and>
    usr_Roles user' = [''dev'', ''ops''] \<and> adds_login ''ann'' (sample_user ''ann'' [''dev'']) user'"
  using grant_adds_membership [OF client_of_def tc_client_eq store_api_store, of "''ann''" "''ops''"
      "[''ann'' \<mapsto> sample_user ''ann'' [''dev'']]" "sample_user ''ann'' [''dev'']"]
  by (auto simp: sample_user_def sample_metadata_def Wildcard_def)

lemma revoked_logins: "set (GetLogins (revoked role name user)) = insert name (set (GetLogins user))"
proof -
  have "GetLogins (revoked role name user) = GetLogins (with_login name user)"
    by (simp add: revoked_def SetRoles_def GetLogins_def getTrait_def)
  then show ?thesis by (simp add: with_login_logins)
qed

text \<open>
  C25: Revoking removes every occurrence of the role and keeps the others; after it the roles
  are distinct. It also adds the user's own name to the logins, so that a user who could not log
  in to a host under that name can after the revocation. Revoking right after granting a role the user did not have restores the
  user's (distinct) roles.
\<close>

theorem revoke_removes_membership:
  assumes "c = Some tc" "tc_Client tc = Some api" "user_store api"
    and "name \<noteq> []" "Wildcard \<noteq> name" "role \<noteq> []" "s name = Some user"
    and "md_Name (usr_Metadata user) = name"
  shows "(\<exists>user'. role_Revoke c (Some (grant_of role name)) s = (Inr (), s(name \<mapsto> user')) \<and>
      set (usr_Roles user') = set (usr_Roles user) - {role} \<and> distinct (usr_Roles user') \<and>
      set (GetLogins user') = insert name (set (GetLogins user))) \<and>
    (distinct (usr_Roles user) \<and> role \<notin> set (usr_Roles user) \<longrightarrow>
      (\<exists>s1 user'. role_Grant c (Some (user_ref name)) (Some (membership_of role)) s = (Inr (), s1) \<and>
        role_Revoke c (Some (grant_of role name)) s1 = (Inr (), s(name \<mapsto> user')) \<and>
        usr_Roles user' = usr_Roles user))"
proof (intro conjI impI)
  show "\<exists>user'. role_Revoke c (Some (grant_of role name)) s = (Inr (), s(name \<mapsto> user')) \<and>
      set (usr_Roles user') = set (usr_Roles user) - {role} \<and> distinct (usr_Roles user') \<and>
      set (GetLogins user') = insert name (set (GetLogins user))"
    by (rule exI [of _ "revoked role name user"])
      (use store_Revoke [where s = s, OF assms(1-4,7,8)] in \<open>auto simp: revoked_logins\<close>)
next
  assume d: "distinct (usr_Roles user) \<and> role \<notin> set (usr_Roles user)"
  let ?u = "granted role name user"
  have "role_Revoke c (Some (grant_of role name)) (s(name \<mapsto> ?u)) =
      (Inr (), s(name \<mapsto> ?u, name \<mapsto> revoked role name ?u))"
    by (rule store_Revoke [OF assms(1-4)]) (simp_all add: assms(8))
  moreover have "usr_Roles (revoked role name ?u) = usr_Roles user"
  proof -
    have "filter (\<lambda>x. x \<noteq> role) (usr_Roles user) = usr_Roles user"
      using d by (auto simp: filter_id_conv)
    then show ?thesis using d by (simp add: Deduplicate_distinct)
  qed
  ultimately show "\<exists>s1 user'. role_Grant c (Some (user_ref name)) (Some (membership_of role)) s = (Inr (), s1) \<and>
        role_Revoke c (Some (grant_of role name)) s1 = (Inr (), s(name \<mapsto> user')) \<and>
        usr_Roles user' = usr_Roles user"
    using store_Grant [where s = s, OF assms] by auto
qed

theorem revoke_removes_membership_witness:
  "\<exists>user'. role_Revoke (client_of store_api) (Some (grant_of ''dev'' ''ann''))
      [''ann'' \<mapsto> sample_user ''ann'' [''dev'', ''ops'', ''dev'']] = (Inr (), [''ann'' \<mapsto> user']) \<and>
    set (usr_Roles user') = {''ops''}"
  using revoke_removes_membership [OF client_of_def tc_client_eq store_api_store, of "''ann''" "''dev''"
      "[''ann'' \<mapsto> sample_user ''ann'' [''dev'', ''ops'', ''dev'']]"
      "sample_user ''ann'' [''dev'', ''ops'', ''dev'']"]
  by (auto simp: sample_user_def sample_metadata_def Wildcard_def)

text \<open>
  Revoking a role also adds the user's own name to the user's logins: a user that could
  not log in to a host under that name can after the revocation.
\<close>

lemma revoke_adds_login:
  assumes "c = Some tc" "tc_Client tc = Some api" "user_store api"
    and "name \<noteq> []" "s name = Some user" "md_Name (usr_Metadata user) = name"
  shows "\<exists>user'. role_Revoke c (Some (grant_of role name)) s = (Inr (), s(name \<mapsto> user')) \<and>
    set (GetLogins user') = insert name (set (GetLogins user))"
  using store_Revoke [where s = s, OF assms] revoked_logins by blast

lemma revoke_adds_login_witness:
  "\<exists>user'. role_Revoke (client_of store_api) (Some (grant_of ''dev'' ''ann''))
      [''ann'' \<mapsto> sample_user ''ann'' [''dev'']] = (Inr (), [''ann'' \<mapsto> user']) \<and>
    set (GetLogins user') = {''ann''}"
  using revoke_adds_login [OF client_of_def tc_client_eq store_api_store, of "''ann''"
      "[''ann'' \<mapsto> sample_user ''ann'' [''dev'']]" "sample_user ''ann'' [''dev'']" "''dev''"]
  by (auto simp: sample_user_def sample_metadata_def GetLogins_def getTrait_def)

text \<open>
  Only users can be members: granting to or revoking from a principal of another type
  fails before anything is asked of the service.
\<close>

lemma membership_is_for_users:
  assumes "rid_ResourceType pid \<noteq> ''user''" "res_Id p = Some pid" "ent_Resource e = Some er"
    and "res_Id er = Some rid" "gr_Principal g = Some p"
  shows "role_Grant c (Some p) (Some e) s =
      (Inl (Errorf ''baton-teleport: only users can be granted role membership''), s) \<and>
    role_Revoke c (Some g) s =
      (Inl (Errorf ''baton-teleport: only users can have role membership revoked''), s)"
  using assms by (simp add: role_Grant_def role_Revoke_def io_fail_def Let_def)

lemma membership_is_for_users_witness:
  "role_Grant (client_of store_api) (Some (role_ref ''dev'')) (Some (membership_of ''ops'')) Map.empty =
     (Inl (Errorf ''baton-teleport: only users can be granted role membership''), Map.empty)"
proof -
  let ?g = "\<lparr>gr_Entitlement = None, gr_Principal = Some (role_ref ''dev''), gr_Id = []\<rparr>"
  have "rid_ResourceType \<lparr>rid_ResourceType = ''role'', rid_Resource = ''dev''\<rparr> \<noteq> ''user''"
    "gr_Principal ?g = Some (role_ref ''dev'')" by simp_all
  from membership_is_for_users [OF this(1) ref_id(2) membership_of_sel ref_id(2) this(2)]
  show ?thesis by (rule conjunct1)
qed

end
