(* ===== verification/Role_Cache.thy ===== *)
theory Role_Cache
  imports Roles
begin

text \<open>
  The user cache of the role builder under interleaved calls. The runner of the SDK asks for
  grants from several workers at a time and the builder takes no lock, so between two
  accesses of \<open>r.userCache\<close> in \<open>GetUsers\<close> or \<open>List\<close> (\<open>pkg/connector/roles.go\<close>) any other worker
  may run. A worker is a program counter, one step of it is what the code does between two
  points where others can get in, and a pool of workers steps over the outside world and
  the one cache. What the pool does when a worker runs alone is what \<open>role_GetUsers\<close> and
  \<open>role_List\<close> do.
\<close>

section \<open>One worker\<close>

datatype role_pc =
    Ready
  | CheckCache
  | CallUsers
  | StoreUsers (pc_Users: "user_v2 list")
  | ReturnUsers (pc_Result: "user_v2 list result")
  | CallRoles
  | ClearCache (pc_Roles: "resource list")
  | ReturnRoles (pc_Listed: "resource list result")

text \<open>
  \<open>GetUsers\<close> checks the cache, calls the service and stores the answer; \<open>List\<close> calls the
  service, converts the answer and empties the cache.
\<close>

fun worker_step :: "'s client_ptr \<Rightarrow> role_pc \<Rightarrow> 's role_state \<Rightarrow> role_pc \<times> 's role_state" where
  "worker_step c CheckCache (s, cache) =
     (if cache \<noteq> [] then (ReturnUsers (Inr cache), (s, cache)) else (CallUsers, (s, cache)))"
| "worker_step c CallUsers (s, cache) =
     (case with_client c (\<lambda>api. api_GetUsers api False) s of
        (Inl e, s') \<Rightarrow> (ReturnUsers (Inl e), (s', cache))
      | (Inr users, s') \<Rightarrow> (StoreUsers users, (s', cache)))"
| "worker_step c (StoreUsers users) (s, cache) = (ReturnUsers (Inr users), (s, users))"
| "worker_step c CallRoles (s, cache) =
     (case with_client c api_GetRoles s of
        (Inl e, s') \<Rightarrow> (ReturnRoles (Inl e), (s', cache))
      | (Inr roles, s') \<Rightarrow> (case traverse getRoleResource roles of
            Inl e \<Rightarrow> (ReturnRoles (Inl e), (s', cache))
          | Inr rv \<Rightarrow> (ClearCache rv, (s', cache))))"
| "worker_step c (ClearCache rv) (s, cache) = (ReturnRoles (Inr rv), (s, []))"
| "worker_step c pc (s, cache) = (pc, (s, cache))"

text \<open>A worker that runs alone: three steps are enough for either operation.\<close>

definition alone :: "'s client_ptr \<Rightarrow> role_pc \<Rightarrow> 's role_state \<Rightarrow> role_pc \<times> 's role_state" where
  "alone c pc st = ((\<lambda>(pc, st). worker_step c pc st) ^^ 3) (pc, st)"

lemma alone_GetUsers:
  "alone c CheckCache st = (case role_GetUsers c st of (r, st') \<Rightarrow> (ReturnUsers r, st'))"
  by (cases st) (simp add: alone_def numeral_3_eq_3 role_GetUsers_def get_cache_def put_cache_def
      on_world_def Let_def io_bind_def io_return_def split: prod.splits sum.splits)

lemma alone_List:
  "alone c CallRoles st = (case role_List c st of (r, st') \<Rightarrow> (ReturnRoles r, st'))"
  by (cases st) (simp add: alone_def numeral_3_eq_3 role_List_def put_cache_def on_world_def
      Let_def io_bind_def io_lift_def io_return_def split: prod.splits sum.splits)

section \<open>A pool of workers\<close>

text \<open>
  \<open>since_list\<close> is what the service has answered to \<open>GetUsers\<close> since the cache was last
  emptied, a ghost that no step reads.
\<close>

record 's pool =
  pool_world :: 's
  pool_cache :: "user_v2 list"
  pool_pc :: "nat \<Rightarrow> role_pc"
  since_list :: "user_v2 list list"

definition initial_pool :: "'s \<Rightarrow> 's pool" where
  "initial_pool s = \<lparr>pool_world = s, pool_cache = [], pool_pc = (\<lambda>_. Ready), since_list = []\<rparr>"

text \<open>No worker holds a list of users that it has not stored yet.\<close>

definition no_fill :: "'s pool \<Rightarrow> bool" where
  "no_fill p \<longleftrightarrow> (\<forall>t us. pool_pc p t \<noteq> StoreUsers us)"

definition recorded :: "role_pc \<Rightarrow> role_pc \<Rightarrow> user_v2 list list \<Rightarrow> user_v2 list list" where
  "recorded pc pc' us = (case pc of
     CallUsers \<Rightarrow> (case pc' of StoreUsers u \<Rightarrow> u # us | _ \<Rightarrow> us)
   | ClearCache _ \<Rightarrow> []
   | _ \<Rightarrow> us)"

definition pool_after :: "'s client_ptr \<Rightarrow> nat \<Rightarrow> 's pool \<Rightarrow> 's pool" where
  "pool_after c t p = (case worker_step c (pool_pc p t) (pool_world p, pool_cache p) of
     (pc', (s', cache')) \<Rightarrow>
       \<lparr>pool_world = s', pool_cache = cache', pool_pc = (pool_pc p)(t := pc'),
        since_list = recorded (pool_pc p t) pc' (since_list p)\<rparr>)"

text \<open>
  The outside world may change at any time, by a grant or a revocation of the connector or by
  anybody else. With \<open>phases\<close> set, the cache is emptied only while nobody fills it, which is
  how a single sync behaves: it waits for all workers between listing roles and reading
  grants.
\<close>

inductive pool_step :: "bool \<Rightarrow> 's client_ptr \<Rightarrow> 's pool \<Rightarrow> 's pool \<Rightarrow> bool"
  for phases :: bool and c :: "'s client_ptr" where
  call: "pool_pc p t \<in> {Ready} \<union> range ReturnUsers \<union> range ReturnRoles \<Longrightarrow>
     pc \<in> {CheckCache, CallRoles} \<Longrightarrow>
     pool_step phases c p (p\<lparr>pool_pc := (pool_pc p)(t := pc)\<rparr>)"
| work: "phases \<and> is_ClearCache (pool_pc p t) \<longrightarrow> no_fill p \<Longrightarrow>
     pool_step phases c p (pool_after c t p)"
| world: "pool_step phases c p (p\<lparr>pool_world := s'\<rparr>)"

inductive pool_run :: "bool \<Rightarrow> 's client_ptr \<Rightarrow> 's pool \<Rightarrow> bool"
  for phases :: bool and c :: "'s client_ptr" where
  init: "pool_run phases c (initial_pool s)"
| step: "pool_run phases c p \<Longrightarrow> pool_step phases c p p' \<Longrightarrow> pool_run phases c p'"

inductive_cases pool_stepE: "pool_step phases c p p'"

section \<open>The invariant\<close>

definition cache_fresh :: "'s pool \<Rightarrow> bool" where
  "cache_fresh p \<longleftrightarrow> (pool_cache p = [] \<or> pool_cache p \<in> set (since_list p)) \<and>
     (\<forall>t us. pool_pc p t = StoreUsers us \<longrightarrow> us \<in> set (since_list p))"

lemma fresh_init: "cache_fresh (initial_pool s)"
  by (simp add: cache_fresh_def initial_pool_def)

lemma worker_no_fill:
  "worker_step c pc (s, cache) = (pc', (s', cache')) \<Longrightarrow> pc \<noteq> CallUsers \<Longrightarrow> pc' = StoreUsers us \<Longrightarrow> False"
  by (cases pc) (auto split: if_splits prod.splits sum.splits)

lemma fresh_after:
  assumes "cache_fresh p" "is_ClearCache (pool_pc p t) \<longrightarrow> no_fill p"
  shows "cache_fresh (pool_after c t p)"
  using assms
  by (cases "pool_pc p t")
    (auto simp: cache_fresh_def pool_after_def recorded_def no_fill_def split: prod.splits sum.splits)

lemma fresh_step:
  assumes "pool_step True c p p'" "cache_fresh p"
  shows "cache_fresh p'"
  using assms(1)
proof (cases rule: pool_step.cases)
  case (work t)
  then show ?thesis using fresh_after [OF assms(2), of t c] by simp
qed (use assms(2) in \<open>auto simp: cache_fresh_def\<close>)

lemma fresh_run: "pool_run True c p \<Longrightarrow> cache_fresh p"
  by (induction rule: pool_run.induct) (auto intro: fresh_init fresh_step)

text \<open>What a worker is about to return from \<open>GetUsers\<close>.\<close>

definition returns_users :: "'s client_ptr \<Rightarrow> 's pool \<Rightarrow> nat \<Rightarrow> user_v2 list \<Rightarrow> bool" where
  "returns_users c p t us \<longleftrightarrow> pool_pc p t \<in> insert CheckCache (range StoreUsers) \<and>
     pool_pc (pool_after c t p) t = ReturnUsers (Inr us)"

lemma returns_fresh: "cache_fresh p \<Longrightarrow> returns_users c p t us \<Longrightarrow> us \<in> set (since_list p)"
  by (auto simp: cache_fresh_def returns_users_def pool_after_def split: if_splits)

text \<open>A filled cache answers \<open>Grants\<close> without a call.\<close>

lemma role_Grants_cached:
  assumes "cache \<noteq> []" "list_all user_text_ok cache"
  shows "role_Grants c (Some r) (s, cache) =
    (Inr (concat (map (\<lambda>u. replicate (count_list (usr_Roles u) (res_DisplayName r)) (member_grant r u)) cache)),
     (s, cache))"
proof -
  have "traverse (role_user_grants (Some r)) cache =
      Inr (map (\<lambda>u. replicate (count_list (usr_Roles u) (res_DisplayName r)) (member_grant r u)) cache)"
    using assms(2) by (intro traverse_total) (simp add: role_user_grants_ok list_all_iff map_const_filter)
  then show ?thesis
    using assms(1) by (simp add: role_Grants_def role_GetUsers_def get_cache_def io_bind_def
        io_return_def io_lift_def)
qed

section \<open>A service that lists what it stores\<close>

definition directory_api :: "user_v2 list teleport_api" where
  "directory_api = offline_api\<lparr>api_GetUsers := (\<lambda>_ s. (Inr s, s)), api_GetRoles := io_return []\<rparr>"

lemma directory_client: "with_client (client_of directory_api) f = f directory_api"
  by (simp add: client_of_def)

lemma directory_calls [simp]:
  "api_GetUsers directory_api b s = (Inr s, s)" "api_GetRoles directory_api s = (Inr [], s)"
  by (simp_all add: directory_api_def io_return_def)

lemmas pool_run_intros =
  pool_run.step [OF _ pool_step.call] pool_run.step [OF _ pool_step.work] pool_run.step [OF _ pool_step.world]

section \<open>Properties\<close>

text \<open>
  C3: The user cache under interleaved calls. However many workers ask for grants at a time and
  whatever changes on the service meanwhile: as long as the roles are not listed while some
  worker is filling the cache, the cache is empty or something the service answered after
  the roles were last listed, and so is every list of users a worker gets from \<open>GetUsers\<close>.
\<close>

theorem cache_is_fresh:
  assumes "pool_run True c p"
  shows "(pool_cache p = [] \<or> pool_cache p \<in> set (since_list p)) \<and>
    (\<forall>t us. returns_users c p t us \<longrightarrow> us \<in> set (since_list p))"
  using fresh_run [OF assms] returns_fresh [OF fresh_run [OF assms]] by (simp add: cache_fresh_def)

text \<open>One worker fills the cache of a directory with one user, and another is served from it.\<close>

definition one_filled :: "user_v2 list pool" where
  "one_filled = (let us = [sample_user ''ann'' [''dev'']] in
     \<lparr>pool_world = us, pool_cache = us,
      pool_pc = (\<lambda>_. Ready)(0 := ReturnUsers (Inr us), 1 := CheckCache), since_list = [us]\<rparr>)"

lemma one_filled_run: "pool_run True (client_of directory_api) one_filled"
proof -
  let ?us = "[sample_user ''ann'' [''dev'']]" and ?c = "client_of directory_api"
  let ?pc = "\<lambda>pc0. (\<lambda>_. Ready)(0 := pc0 :: role_pc)"
  have "pool_run True ?c \<lparr>pool_world = ?us, pool_cache = [], pool_pc = ?pc CheckCache, since_list = []\<rparr>"
    using pool_run_intros(1) [OF pool_run.init [of True ?c ?us], of 0 CheckCache]
    by (simp add: initial_pool_def)
  from pool_run_intros(2) [OF this, of 0]
  have "pool_run True ?c \<lparr>pool_world = ?us, pool_cache = [], pool_pc = ?pc CallUsers, since_list = []\<rparr>"
    by (simp add: pool_after_def recorded_def)
  from pool_run_intros(2) [OF this, of 0]
  have "pool_run True ?c \<lparr>pool_world = ?us, pool_cache = [], pool_pc = ?pc (StoreUsers ?us), since_list = [?us]\<rparr>"
    by (simp add: pool_after_def recorded_def directory_client)
  from pool_run_intros(2) [OF this, of 0]
  have "pool_run True ?c \<lparr>pool_world = ?us, pool_cache = ?us, pool_pc = ?pc (ReturnUsers (Inr ?us)), since_list = [?us]\<rparr>"
    by (simp add: pool_after_def recorded_def)
  from pool_run_intros(1) [OF this, of 1 CheckCache]
  show ?thesis by (simp add: one_filled_def Let_def)
qed

theorem cache_is_fresh_witness:
  "pool_cache one_filled \<noteq> [] \<and> pool_cache one_filled \<in> set (since_list one_filled)"
  using cache_is_fresh [OF one_filled_run] by (auto simp: one_filled_def Let_def)

text \<open>
  C29: Without that exclusion the cache goes stale. A worker asks the service for the users;
  before it stores the answer the users change and another worker lists the roles, which
  empties the cache; the answer is then stored. Everybody is done and the roles were listed
  after the change, yet the grants that are reported are those of the old users, without
  another call.
\<close>

theorem stale_fill_race:
  assumes "old \<noteq> []" "list_all user_text_ok old"
  shows "\<exists>p. pool_run False (client_of directory_api) p \<and> no_fill p \<and> since_list p = [] \<and>
    pool_pc p 1 = ReturnRoles (Inr []) \<and> pool_world p = new \<and>
    role_Grants (client_of directory_api) (Some r) (pool_world p, pool_cache p) =
      (Inr (concat (map (\<lambda>u. replicate (count_list (usr_Roles u) (res_DisplayName r)) (member_grant r u)) old)),
       (new, old))"
proof -
  let ?c = "client_of directory_api"
  let ?p = "\<lambda>s cache pc us. \<lparr>pool_world = s, pool_cache = cache, pool_pc = pc, since_list = us\<rparr>"
  let ?one = "\<lambda>pc0. (\<lambda>_. Ready)(0 := pc0 :: role_pc)"
  let ?two = "\<lambda>pc0 pc1. (\<lambda>_. Ready)(0 := pc0 :: role_pc, 1 := pc1)"
  have "pool_run False ?c (?p old [] (?one CheckCache) [])"
    using pool_run_intros(1) [OF pool_run.init [of False ?c old], of 0 CheckCache]
    by (simp add: initial_pool_def)
  from pool_run_intros(2) [OF this, of 0]
  have "pool_run False ?c (?p old [] (?one CallUsers) [])"
    by (simp add: pool_after_def recorded_def)
  from pool_run_intros(2) [OF this, of 0]
  have "pool_run False ?c (?p old [] (?one (StoreUsers old)) [old])"
    by (simp add: pool_after_def recorded_def directory_client)
  from pool_run_intros(3) [OF this, of new]
  have "pool_run False ?c (?p new [] (?one (StoreUsers old)) [old])" by simp
  from pool_run_intros(1) [OF this, of 1 CallRoles]
  have "pool_run False ?c (?p new [] (?two (StoreUsers old) CallRoles) [old])" by simp
  from pool_run_intros(2) [OF this, of 1]
  have "pool_run False ?c (?p new [] (?two (StoreUsers old) (ClearCache [])) [old])"
    by (simp add: pool_after_def recorded_def directory_client)
  from pool_run_intros(2) [OF this, of 1]
  have "pool_run False ?c (?p new [] (?two (StoreUsers old) (ReturnRoles (Inr []))) [])"
    by (simp add: pool_after_def recorded_def)
  from pool_run_intros(2) [OF this, of 0]
  have run: "pool_run False ?c (?p new old
      ((\<lambda>_. Ready)(1 := ReturnRoles (Inr []), 0 := ReturnUsers (Inr old))) [])"
    by (simp add: pool_after_def recorded_def fun_upd_twist)
  show ?thesis
    by (rule exI, intro conjI, rule run)
      (simp_all add: no_fill_def role_Grants_cached [OF assms])
qed

theorem stale_fill_race_witness:
  "\<exists>p. pool_run False (client_of directory_api) p \<and> pool_world p = [sample_user ''ann'' []] \<and>
    fst (role_Grants (client_of directory_api) (Some (role_ref ''dev'')) (pool_world p, pool_cache p)) =
      Inr [member_grant (role_ref ''dev'') (sample_user ''ann'' [''dev''])]"
proof -
  have "valid_utf8 ''ann''" by code_simp
  then have "list_all user_text_ok [sample_user ''ann'' [''dev'']]" by (simp add: sample_user_text)
  from stale_fill_race [OF _ this, of "[sample_user ''ann'' []]" "role_ref ''dev''"]
  obtain p where p: "pool_run False (client_of directory_api) p" "pool_world p = [sample_user ''ann'' []]"
    and g: "role_Grants (client_of directory_api) (Some (role_ref ''dev'')) (pool_world p, pool_cache p) =
      (Inr [member_grant (role_ref ''dev'') (sample_user ''ann'' [''dev''])],
       ([sample_user ''ann'' []], [sample_user ''ann'' [''dev'']]))"
    by (auto simp: sample_user_def role_ref_def)
  show ?thesis by (intro exI [of _ p] conjI p) (simp only: g fst_conv)
qed

end
