(* ===== verification/Go_Json.thy ===== *)
theory Go_Json
  imports Go_Strings
begin

text \<open>
  The part of \<open>encoding/json\<close> the event cursor uses: \<open>json.Marshal\<close> of a flat struct of strings
  (HTML escaping on, as \<open>Marshal\<close> has it) and the syntax accepted by \<open>json.Unmarshal\<close>. The parser
  recurses on fuel; \<open>json_value_fuel\<close> shows that twice the length of the input is always enough, so
  fuel never decides a result. The main result is \<open>json_value_object\<close>: the members of an encoded
  object are read back.
\<close>

abbreviation quote :: char where
  "quote \<equiv> CHR 0x22"

abbreviation backslash :: char where
  "backslash \<equiv> CHR 0x5C"

section \<open>Encoding\<close>

definition hex_digit :: "nat \<Rightarrow> char" where
  "hex_digit n = (if n < 10 then char_of (48 + n) else char_of (97 + (n - 10)))"

text \<open>Bytes below 0x80 that are written as they are: all but controls, quote, backslash, <, > and &.\<close>

definition html_safe :: "char \<Rightarrow> bool" where
  "html_safe c \<longleftrightarrow>
     0x20 \<le> byte c \<and> c \<noteq> quote \<and> c \<noteq> backslash \<and> c \<noteq> CHR ''<'' \<and> c \<noteq> CHR ''>'' \<and> c \<noteq> CHR ''&''"

definition escape_ascii :: "char \<Rightarrow> string" where
  "escape_ascii c =
     (if html_safe c then [c]
      else if c = quote \<or> c = backslash then [backslash, c]
      else if byte c = 8 then [backslash, CHR ''b'']
      else if byte c = 12 then [backslash, CHR ''f'']
      else if byte c = 10 then [backslash, CHR ''n'']
      else if byte c = 13 then [backslash, CHR ''r'']
      else if byte c = 9 then [backslash, CHR ''t'']
      else [backslash, CHR ''u'', CHR ''0'', CHR ''0'',
            hex_digit (byte c div 16), hex_digit (byte c mod 16)])"

fun json_escape :: "string \<Rightarrow> string" where
  "json_escape [] = []"
| "json_escape (c # cs) =
     (if byte c < 0x80 then escape_ascii c @ json_escape cs
      else if \<not> valid_front (c # cs) then backslash # ''ufffd'' @ json_escape cs
      else (let r = fst (decode_rune (c # cs)); n = snd (decode_rune (c # cs)) in
        if r = 0x2028 \<or> r = 0x2029
        then backslash # ''u202'' @ [hex_digit (r mod 16)] @ json_escape (drop (n - 1) cs)
        else take n (c # cs) @ json_escape (drop (n - 1) cs)))"

declare json_escape.simps(2) [simp del]

definition json_quote :: "string \<Rightarrow> string" where
  "json_quote s = quote # json_escape s @ [quote]"

definition json_member :: "string \<times> string \<Rightarrow> string" where
  "json_member kv = json_quote (fst kv) @ CHR '':'' # json_quote (snd kv)"

fun json_members_text :: "(string \<times> string) list \<Rightarrow> string" where
  "json_members_text [] = []"
| "json_members_text [kv] = json_member kv"
| "json_members_text (kv # kvs) = json_member kv @ CHR '','' # json_members_text kvs"

text \<open>A struct whose (non-empty) fields are the given strings.\<close>

definition json_object :: "(string \<times> string) list \<Rightarrow> string" where
  "json_object kvs = CHR ''{'' # json_members_text kvs @ [CHR ''}'']"

section \<open>Scanning strings\<close>

definition hex_val :: "char \<Rightarrow> nat option" where
  "hex_val c =
     (let b = byte c in
      if 48 \<le> b \<and> b \<le> 57 then Some (b - 48)
      else if 97 \<le> b \<and> b \<le> 102 then Some (b - 97 + 10)
      else if 65 \<le> b \<and> b \<le> 70 then Some (b - 65 + 10) else None)"

definition hex4 :: "string \<Rightarrow> nat option" where
  "hex4 s =
     (case s of
        a # b # c # d # _ \<Rightarrow>
          (case (hex_val a, hex_val b, hex_val c, hex_val d) of
             (Some w, Some x, Some y, Some z) \<Rightarrow> Some (((w * 16 + x) * 16 + y) * 16 + z)
           | _ \<Rightarrow> None)
      | _ \<Rightarrow> None)"

definition simple_escape :: "char \<Rightarrow> char option" where
  "simple_escape e =
     (if e = quote \<or> e = backslash \<or> e = CHR ''/'' then Some e
      else if e = CHR ''b'' then Some (char_of (8 :: nat))
      else if e = CHR ''f'' then Some (char_of (12 :: nat))
      else if e = CHR ''n'' then Some (char_of (10 :: nat))
      else if e = CHR ''r'' then Some (char_of (13 :: nat))
      else if e = CHR ''t'' then Some (char_of (9 :: nat)) else None)"

text \<open>\<open>utf16.DecodeRune\<close> of a surrogate and the escape that follows it, if they are a pair.\<close>

definition surrogate_pair :: "nat \<Rightarrow> string \<Rightarrow> nat option" where
  "surrogate_pair r s =
     (case s of
        b # u # rest \<Rightarrow>
          if b = backslash \<and> u = CHR ''u'' \<and> r < 0xDC00 then
            (case hex4 rest of
               Some r2 \<Rightarrow>
                 if 0xDC00 \<le> r2 \<and> r2 < 0xE000
                 then Some ((r - 0xD800) * 1024 + (r2 - 0xDC00) + 0x10000) else None
             | None \<Rightarrow> None)
          else None
      | _ \<Rightarrow> None)"

definition prepend :: "string \<Rightarrow> (string \<times> string) option \<Rightarrow> (string \<times> string) option" where
  "prepend p r = map_option (\<lambda>(s, rest). (p @ s, rest)) r"

text \<open>The value of a string literal, read after its opening quote, and the input after its closing quote.\<close>

fun scan_string :: "string \<Rightarrow> (string \<times> string) option" where
  "scan_string [] = None"
| "scan_string (c # cs) =
     (if c = quote then Some ([], cs)
      else if c = backslash then
        (case cs of
           [] \<Rightarrow> None
         | e # rest \<Rightarrow>
             if e = CHR ''u'' then
               (case hex4 rest of
                  None \<Rightarrow> None
                | Some r \<Rightarrow>
                    if 0xD800 \<le> r \<and> r < 0xE000 then
                      (case surrogate_pair r (drop 4 rest) of
                         Some r2 \<Rightarrow> prepend (encode_rune r2) (scan_string (drop 10 rest))
                       | None \<Rightarrow> prepend (encode_rune rune_error) (scan_string (drop 4 rest)))
                    else prepend (encode_rune r) (scan_string (drop 4 rest)))
             else
               (case simple_escape e of
                  None \<Rightarrow> None
                | Some ch \<Rightarrow> prepend [ch] (scan_string rest)))
      else if byte c < 0x20 then None
      else if byte c < 0x80 then prepend [c] (scan_string cs)
      else if valid_front (c # cs)
      then prepend (take (snd (decode_rune (c # cs))) (c # cs))
             (scan_string (drop (snd (decode_rune (c # cs)) - 1) cs))
      else prepend (encode_rune rune_error) (scan_string cs))"

declare scan_string.simps(2) [simp del]

lemma prepend_Some [simp]: "prepend p (Some (s, rest)) = Some (p @ s, rest)"
  by (simp add: prepend_def)

lemma prepend_eq_Some:
  "prepend p r = Some (s, rest) \<longleftrightarrow> (\<exists>s'. r = Some (s', rest) \<and> s = p @ s')"
  by (auto simp: prepend_def)

lemma scan_string_shorter: "scan_string s = Some (v, rest) \<Longrightarrow> length rest < length s"
proof (induction s arbitrary: v rest rule: length_induct)
  case (1 s)
  show ?case
  proof (cases s)
    case (Cons c cs)
    have IH: "length X < length s \<longrightarrow> length r < length X" if "scan_string X = Some (u, r)" for X u r
      using "1.IH" that by blast
    note R = "1.prems" [unfolded Cons, unfolded scan_string.simps(2) [of c cs]]
    show ?thesis
    proof (cases "c = backslash")
      case True
      then obtain e tl where cs: "cs = e # tl" using R by (cases cs) auto
      show ?thesis
        using R True IH [of "drop 4 tl"] IH [of "drop 10 tl"] IH [of tl]
        by (auto simp: Cons cs prepend_eq_Some split: if_splits option.splits)
    next
      case False
      then show ?thesis
        using R IH [of cs] IH [of "drop (snd (decode_rune (c # cs)) - 1) cs"]
        by (auto simp: Cons prepend_eq_Some split: if_splits)
    qed
  qed (use "1.prems" in simp)
qed

section \<open>Values\<close>

datatype json =
  JNull | JBool bool | JNumber | JString string | JArray "json list" | JObject "(string \<times> json) list"

definition is_ws :: "char \<Rightarrow> bool" where
  "is_ws c \<longleftrightarrow> byte c = 32 \<or> byte c = 9 \<or> byte c = 10 \<or> byte c = 13"

definition skip_ws :: "string \<Rightarrow> string" where
  "skip_ws s = dropWhile is_ws s"

definition dec_digit :: "char \<Rightarrow> bool" where
  "dec_digit c \<longleftrightarrow> 48 \<le> byte c \<and> byte c \<le> 57"

text \<open>One or more digits.\<close>

definition scan_digits :: "string \<Rightarrow> string option" where
  "scan_digits s =
     (case s of c # cs \<Rightarrow> if dec_digit c then Some (dropWhile dec_digit cs) else None | [] \<Rightarrow> None)"

definition scan_frac :: "string \<Rightarrow> string option" where
  "scan_frac s = (case s of c # cs \<Rightarrow> if c = CHR ''.'' then scan_digits cs else Some s | [] \<Rightarrow> Some s)"

definition scan_exp :: "string \<Rightarrow> string option" where
  "scan_exp s =
     (case s of
        c # cs \<Rightarrow>
          if c = CHR ''e'' \<or> c = CHR ''E''
          then scan_digits (case cs of d # ds \<Rightarrow> if d = CHR ''+'' \<or> d = CHR ''-'' then ds else cs | [] \<Rightarrow> cs)
          else Some s
      | [] \<Rightarrow> Some s)"

definition scan_number :: "string \<Rightarrow> string option" where
  "scan_number s =
     (let s1 = (case s of c # cs \<Rightarrow> if c = CHR ''-'' then cs else s | [] \<Rightarrow> s) in
      Option.bind
        (case s1 of
           c # cs \<Rightarrow> if c = CHR ''0'' then Some cs else scan_digits s1
         | [] \<Rightarrow> None)
        (\<lambda>s2. Option.bind (scan_frac s2) scan_exp))"

lemma scan_digits_shorter: "scan_digits s = Some r \<Longrightarrow> length r < length s"
  by (auto simp: scan_digits_def less_Suc_eq_le length_dropWhile_le split: list.splits if_splits)

lemma scan_frac_le: "scan_frac s = Some r \<Longrightarrow> length r \<le> length s"
  using scan_digits_shorter by (fastforce simp: scan_frac_def split: list.splits if_splits)

lemma scan_exp_le: "scan_exp s = Some r \<Longrightarrow> length r \<le> length s"
  using scan_digits_shorter by (fastforce simp: scan_exp_def split: list.splits if_splits)

lemma scan_number_shorter:
  assumes "scan_number s = Some r"
  shows "length r < length s"
proof -
  define s1 where "s1 = (case s of c # cs \<Rightarrow> if c = CHR ''-'' then cs else s | [] \<Rightarrow> s)"
  have 1: "length s1 \<le> length s" by (auto simp: s1_def split: list.splits)
  obtain s2 s3 where
    2: "(case s1 of c # cs \<Rightarrow> if c = CHR ''0'' then Some cs else scan_digits s1 | [] \<Rightarrow> None) = Some s2"
    and 3: "scan_frac s2 = Some s3" and 4: "scan_exp s3 = Some r"
    using assms [unfolded scan_number_def Let_def, folded s1_def]
    by (auto simp: bind_eq_Some_conv)
  have "length s2 < length s1"
    using 2 scan_digits_shorter [of s1 s2] by (cases s1) (auto split: if_splits)
  then show ?thesis using 1 scan_frac_le [OF 3] scan_exp_le [OF 4] by linarith
qed

lemma skip_ws_le: "length (skip_ws s) \<le> length s"
  by (simp add: skip_ws_def length_dropWhile_le)

text \<open>
  \<open>json_value n d s\<close> reads one value from \<open>s\<close> with fuel \<open>n\<close> and \<open>d\<close> levels of nesting left (the
  library allows 10000), and returns it with the rest of the input.
\<close>

fun json_value :: "nat \<Rightarrow> nat \<Rightarrow> string \<Rightarrow> (json \<times> string) option"
  and json_members :: "nat \<Rightarrow> nat \<Rightarrow> string \<Rightarrow> ((string \<times> json) list \<times> string) option"
  and json_elements :: "nat \<Rightarrow> nat \<Rightarrow> string \<Rightarrow> (json list \<times> string) option" where
  "json_value 0 d s = None"
| "json_value (Suc n) d s =
     (case skip_ws s of
        [] \<Rightarrow> None
      | c # cs \<Rightarrow>
          if c = quote then map_option (\<lambda>(v, r). (JString v, r)) (scan_string cs)
          else if c = CHR ''{'' then
            (if d = 0 then None
             else (case skip_ws cs of
                     [] \<Rightarrow> None
                   | e # es \<Rightarrow>
                       if e = CHR ''}'' then Some (JObject [], es)
                       else map_option (\<lambda>(ms, r). (JObject ms, r)) (json_members n (d - 1) (e # es))))
          else if c = CHR ''['' then
            (if d = 0 then None
             else (case skip_ws cs of
                     [] \<Rightarrow> None
                   | e # es \<Rightarrow>
                       if e = CHR '']'' then Some (JArray [], es)
                       else map_option (\<lambda>(vs, r). (JArray vs, r)) (json_elements n (d - 1) (e # es))))
          else if HasPrefix (c # cs) ''true'' then Some (JBool True, drop 4 (c # cs))
          else if HasPrefix (c # cs) ''false'' then Some (JBool False, drop 5 (c # cs))
          else if HasPrefix (c # cs) ''null'' then Some (JNull, drop 4 (c # cs))
          else map_option (\<lambda>r. (JNumber, r)) (scan_number (c # cs)))"
| "json_members 0 d s = None"
| "json_members (Suc n) d s =
     (case skip_ws s of
        [] \<Rightarrow> None
      | q # cs \<Rightarrow>
          if q \<noteq> quote then None
          else (case scan_string cs of
                  None \<Rightarrow> None
                | Some (k, r1) \<Rightarrow>
                    (case skip_ws r1 of
                       [] \<Rightarrow> None
                     | e # r2 \<Rightarrow>
                         if e \<noteq> CHR '':'' then None
                         else (case json_value n d r2 of
                                 None \<Rightarrow> None
                               | Some (v, r3) \<Rightarrow>
                                   (case skip_ws r3 of
                                      [] \<Rightarrow> None
                                    | f # r4 \<Rightarrow>
                                        if f = CHR '','' then
                                          map_option (\<lambda>(ms, r). ((k, v) # ms, r)) (json_members n d r4)
                                        else if f = CHR ''}'' then Some ([(k, v)], r4)
                                        else None)))))"
| "json_elements 0 d s = None"
| "json_elements (Suc n) d s =
     (case json_value n d s of
        None \<Rightarrow> None
      | Some (v, r3) \<Rightarrow>
          (case skip_ws r3 of
             [] \<Rightarrow> None
           | f # r4 \<Rightarrow>
               if f = CHR '','' then map_option (\<lambda>(vs, r). (v # vs, r)) (json_elements n d r4)
               else if f = CHR '']'' then Some ([v], r4)
               else None))"

definition max_nesting_depth :: nat where
  "max_nesting_depth = 10000"

text \<open>The whole input is one value with white space around it (\<open>checkValid\<close> and the decoder's reading).\<close>

definition json_parse :: "string \<Rightarrow> json result" where
  "json_parse s =
     (case json_value (2 * length s + 1) max_nesting_depth s of
        Some (v, r) \<Rightarrow> if skip_ws r = [] then Inr v else Inl (Errorf ''invalid character after top-level value'')
      | None \<Rightarrow> Inl (Errorf ''invalid JSON input''))"

subsection \<open>Fuel is never what decides\<close>

lemma skip_ws_Cons_length: "skip_ws s = c # cs \<Longrightarrow> length cs < length s"
  using skip_ws_le [of s] by simp

lemma json_shorter:
  "json_value n d s = Some (v, r) \<Longrightarrow> length r < length s"
  "json_members n d s = Some (ms, r) \<Longrightarrow> length r < length s"
  "json_elements n d s = Some (vs, r) \<Longrightarrow> length r < length s"
proof (induction n d s and n d s and n d s arbitrary: v r and ms r and vs r
    rule: json_value_json_members_json_elements.induct)
  case (2 n d s)
  obtain c cs where s: "skip_ws s = c # cs" using "2.prems" by (auto split: list.splits)
  note len = skip_ws_Cons_length [OF s]
  consider "c = quote" | "c = CHR ''{''" | "c = CHR ''[''"
    | "c \<noteq> quote" "c \<noteq> CHR ''{''" "c \<noteq> CHR ''[''" by blast
  then show ?case
  proof cases
    case 1
    then show ?thesis using "2.prems" s len scan_string_shorter by fastforce
  next
    case 2
    with "2.prems" s obtain e es where e: "skip_ws cs = e # es" by (auto split: if_splits list.splits)
    show ?thesis
      using "2.prems" s 2 e skip_ws_Cons_length [OF e] len "2.IH"(1) [OF s _ 2 _ e]
      by (fastforce split: if_splits)
  next
    case 3
    with "2.prems" s obtain e es where e: "skip_ws cs = e # es" by (auto split: if_splits list.splits)
    show ?thesis
      using "2.prems" s 3 e skip_ws_Cons_length [OF e] len "2.IH"(2) [OF s _ _ 3 _ e]
      by (fastforce split: if_splits)
  next
    case 4
    then show ?thesis
      using "2.prems" s len scan_number_shorter [of "c # cs"] by (auto split: if_splits)
  qed
next
  case (4 n d s)
  obtain q cs where s: "skip_ws s = q # cs" using "4.prems" by (auto split: list.splits)
  with "4.prems" have q: "q = quote" by (auto split: if_splits)
  with "4.prems" s obtain k r1 where k: "scan_string cs = Some (k, r1)"
    by (auto split: option.splits)
  with "4.prems" s q obtain e r2 where e: "skip_ws r1 = e # r2" by (auto split: list.splits)
  with "4.prems" s q k have e': "e = CHR '':''" by (auto split: if_splits)
  with "4.prems" s q k e obtain v r3 where v: "json_value n d r2 = Some (v, r3)"
    by (auto split: option.splits)
  with "4.prems" s q k e e' obtain f r4 where f: "skip_ws r3 = f # r4" by (auto split: list.splits)
  have len: "length r4 < length s"
    using skip_ws_Cons_length [OF s] scan_string_shorter [OF k] skip_ws_Cons_length [OF e]
      "4.IH"(1) [OF s _ k _ e _ v] skip_ws_Cons_length [OF f] q e' by simp
  show ?case
    using "4.prems" s q k e e' v f len "4.IH"(2) [OF s _ k _ e _ v _ f]
    by (fastforce split: if_splits)
next
  case (6 n d s)
  obtain v r3 where v: "json_value n d s = Some (v, r3)" using "6.prems" by (auto split: option.splits)
  with "6.prems" obtain f r4 where f: "skip_ws r3 = f # r4" by (auto split: list.splits)
  have len: "length r4 < length s"
    using "6.IH"(1) [OF v] skip_ws_Cons_length [OF f] by simp
  show ?case
    using "6.prems" v f len "6.IH"(2) [OF v _ f] by (fastforce split: if_splits)
qed simp_all

lemma json_fuel_Suc:
  "(2 * length s < n \<longrightarrow> json_value (Suc n) d s = json_value n d s)
   \<and> (2 * length s < n \<longrightarrow> json_members (Suc n) d s = json_members n d s)
   \<and> (2 * length s + 1 < n \<longrightarrow> json_elements (Suc n) d s = json_elements n d s)"
proof (induction n arbitrary: d s)
  case (Suc n)
  have V: "json_value (Suc n) d s = json_value n d s" if "2 * length s < n" for d s
    using Suc.IH that by blast
  have M: "json_members (Suc n) d s = json_members n d s" if "2 * length s < n" for d s
    using Suc.IH that by blast
  have E: "json_elements (Suc n) d s = json_elements n d s" if "2 * length s + 1 < n" for d s
    using Suc.IH that by blast
  have "json_value (Suc (Suc n)) d s = json_value (Suc n) d s" if len: "2 * length s < Suc n"
  proof (cases "skip_ws s")
    case (Cons c cs)
    show ?thesis
    proof (cases "skip_ws cs")
      case Nil
      with Cons show ?thesis by simp
    next
      case (Cons e es)
      have "2 * length (e # es) + 1 < n"
        using len skip_ws_Cons_length [OF \<open>skip_ws s = c # cs\<close>] skip_ws_le [of cs] Cons by simp
      then show ?thesis
        using \<open>skip_ws s = c # cs\<close> Cons M [of "e # es" "d - 1"] E [of "e # es" "d - 1"] by simp
    qed
  qed simp
  moreover have "json_members (Suc (Suc n)) d s = json_members (Suc n) d s"
    if len: "2 * length s < Suc n"
  proof (cases "skip_ws s")
    case s: (Cons q cs)
    show ?thesis
    proof (cases "scan_string cs")
      case (Some kr)
      obtain k r1 where k: "scan_string cs = Some (k, r1)" using Some by (cases kr) simp
      show ?thesis
      proof (cases "skip_ws r1")
        case e: (Cons e r2)
        have l2: "length r2 + 2 < length s"
          using skip_ws_Cons_length [OF s] scan_string_shorter [OF k] skip_ws_Cons_length [OF e] by simp
        then have v: "json_value (Suc n) d r2 = json_value n d r2" using V len by simp
        show ?thesis
        proof (cases "json_value n d r2")
          case (Some vr)
          obtain v' r3 where v': "json_value n d r2 = Some (v', r3)" using Some by (cases vr) simp
          show ?thesis
          proof (cases "skip_ws r3")
            case f: (Cons f r4)
            have "2 * length r4 < n"
              using skip_ws_Cons_length [OF f] json_shorter(1) [OF v'] l2 len by simp
            then have "json_members (Suc n) d r4 = json_members n d r4" by (rule M)
            then show ?thesis using s k e v v' f by simp
          qed (use s k e v v' in simp)
        qed (use s k e v in simp)
      qed (use s k in simp)
    qed (use s in simp)
  qed simp
  moreover have "json_elements (Suc (Suc n)) d s = json_elements (Suc n) d s"
    if len: "2 * length s + 1 < Suc n"
  proof -
    have v: "json_value (Suc n) d s = json_value n d s" using V len by simp
    show ?thesis
    proof (cases "json_value n d s")
      case (Some vr)
      obtain v' r3 where v': "json_value n d s = Some (v', r3)" using Some by (cases vr) simp
      show ?thesis
      proof (cases "skip_ws r3")
        case f: (Cons f r4)
        have "2 * length r4 + 1 < n"
          using skip_ws_Cons_length [OF f] json_shorter(1) [OF v'] len by simp
        then have "json_elements (Suc n) d r4 = json_elements n d r4" by (rule E)
        then show ?thesis using v v' f by simp
      qed (use v v' in simp)
    qed (use v in simp)
  qed
  ultimately show ?case by blast
qed simp

text \<open>Any fuel above twice the length gives the same result.\<close>

theorem json_value_fuel:
  assumes "2 * length s < n"
  shows "json_value n d s = json_value (2 * length s + 1) d s"
proof -
  have "json_value (2 * length s + 1 + k) d s = json_value (2 * length s + 1) d s" for k
    using json_fuel_Suc by (induction k) auto
  from this [of "n - (2 * length s + 1)"] show ?thesis using assms by simp
qed

section \<open>Round trip\<close>

lemma hex_val_digit [simp]: "n < 16 \<Longrightarrow> hex_val (hex_digit n) = Some n"
  by (auto simp: hex_val_def hex_digit_def Let_def)

lemma hex_val_0 [simp]: "hex_val (CHR ''0'') = Some 0"
  by code_simp

lemma hex_val_2 [simp]: "hex_val (CHR ''2'') = Some 2"
  by code_simp

lemma encode_rune_ascii [simp]: "r < 128 \<Longrightarrow> encode_rune r = [char_of r]"
  by (simp add: encode_rune_def)

lemma scan_string_plain:
  "html_safe c \<Longrightarrow> byte c < 0x80 \<Longrightarrow> scan_string (c # t) = prepend [c] (scan_string t)"
  by (simp add: scan_string.simps html_safe_def)

lemma scan_string_simple:
  assumes "simple_escape e = Some ch"
  shows "scan_string (backslash # e # t) = prepend [ch] (scan_string t)"
proof -
  have "simple_escape (CHR ''u'') = None" by code_simp
  then have "e \<noteq> CHR ''u''" using assms by auto
  then show ?thesis using assms by (simp add: scan_string.simps(2) [of backslash])
qed

lemma scan_string_u:
  assumes "hex4 [a, b, c, d] = Some r" "r < 0xD800 \<or> 0xE000 \<le> r"
  shows "scan_string (backslash # CHR ''u'' # a # b # c # d # t) = prepend (encode_rune r) (scan_string t)"
  using assms by (auto simp: scan_string.simps(2) [of backslash] hex4_def)

lemma scan_string_end [simp]: "scan_string (quote # t) = Some ([], t)"
  by (simp add: scan_string.simps)

lemma byte_eq_char: "byte c = n \<Longrightarrow> c = char_of n"
  by auto

lemma scan_escape_ascii:
  assumes "byte c < 0x80"
  shows "scan_string (escape_ascii c @ t) = prepend [c] (scan_string t)"
proof -
  consider "html_safe c" | "\<not> html_safe c" "c = quote \<or> c = backslash"
    | "\<not> html_safe c" "c \<noteq> quote" "c \<noteq> backslash" "byte c \<in> {8, 12, 10, 13, 9}"
    | "\<not> html_safe c" "c \<noteq> quote" "c \<noteq> backslash" "byte c \<notin> {8, 12, 10, 13, 9}"
    by blast
  then show ?thesis
  proof cases
    case 1
    then show ?thesis using scan_string_plain assms by (simp add: escape_ascii_def)
  next
    case 2
    have "simple_escape quote = Some quote" "simple_escape backslash = Some backslash"
      by (simp_all add: simple_escape_def)
    with 2 show ?thesis by (auto simp: escape_ascii_def scan_string_simple)
  next
    case 3
    have "simple_escape (CHR ''b'') = Some (char_of (8::nat))"
      "simple_escape (CHR ''f'') = Some (char_of (12::nat))"
      "simple_escape (CHR ''n'') = Some (char_of (10::nat))"
      "simple_escape (CHR ''r'') = Some (char_of (13::nat))"
      "simple_escape (CHR ''t'') = Some (char_of (9::nat))" by code_simp+
    note E = this [THEN scan_string_simple]
    show ?thesis
      using 3 E by (auto simp: escape_ascii_def dest!: byte_eq_char)
  next
    case 4
    have "byte c div 16 < 16" "byte c mod 16 < 16" using assms by simp_all
    then have "hex4 [CHR ''0'', CHR ''0'', hex_digit (byte c div 16), hex_digit (byte c mod 16)]
        = Some (byte c)" by (simp add: hex4_def)
    from scan_string_u [OF this, of t] 4 assms show ?thesis by (simp add: escape_ascii_def)
  qed
qed

lemma scan_escape:
  "valid_utf8 s \<Longrightarrow> scan_string (json_escape s @ quote # t) = Some (s, t)"
proof (induction s rule: valid_utf8.induct)
  case (2 c cs)
  define r n where "r = fst (decode_rune (c # cs))" and "n = snd (decode_rune (c # cs))"
  have v: "valid_front (c # cs)" "valid_utf8 (drop (n - 1) cs)"
    using "2.prems" by (simp_all add: valid_utf8.simps n_def)
  note IH = "2.IH" [folded n_def, OF v(2)]
  have split: "take n (c # cs) @ drop (n - 1) cs = c # cs"
    using decode_rune_width [of "c # cs"] by (cases n) (simp_all add: n_def)
  show ?case
  proof (cases "byte c < 0x80")
    case True
    then have "n = 1" by (simp add: n_def decode_rune_ascii)
    then show ?thesis using IH True scan_escape_ascii by (simp add: json_escape.simps)
  next
    case False
    show ?thesis
    proof (cases "r = 0x2028 \<or> r = 0x2029")
      case True
      have "hex4 [CHR ''2'', CHR ''0'', CHR ''2'', hex_digit (r mod 16)] = Some r"
        using True by (auto simp: hex4_def)
      from scan_string_u [OF this] True
      have "scan_string (backslash # ''u202'' @ [hex_digit (r mod 16)] @ X) = prepend (encode_rune r) (scan_string X)" for X
        by auto
      moreover have "encode_rune r = take n (c # cs)"
        using encode_decode_rune [OF v(1)] by (simp add: r_def n_def)
      ultimately show ?thesis
        using False v(1) True IH split by (simp add: json_escape.simps Let_def flip: r_def n_def)
    next
      case r: False
      have "1 < n" using v(1) False by (simp add: valid_front_def n_def)
      then obtain tl where tl: "take n (c # cs) = c # tl" by (cases n) auto
      define X where "X = json_escape (drop (n - 1) cs) @ quote # t"
      have d: "decode_rune (c # tl @ X) = (r, n)"
        using decode_rune_take [OF v(1), of X] by (simp add: r_def n_def tl [unfolded n_def])
      have len: "length tl = n - 1"
        using arg_cong [OF tl, of length] decode_rune_width [of "c # cs"] by (simp add: n_def)
      have vf: "valid_front (c # tl @ X)" using d \<open>1 < n\<close> by (simp add: valid_front_def)
      have "c \<noteq> quote" "c \<noteq> backslash" "\<not> byte c < 0x20" using False by auto
      then have "scan_string (c # tl @ X) = prepend (c # tl) (scan_string X)"
        using False vf d len \<open>1 < n\<close> by (cases n) (simp_all add: scan_string.simps(2) [of c])
      then show ?thesis
        using False v(1) r IH split tl
        by (simp add: json_escape.simps Let_def X_def flip: r_def n_def)
    qed
  qed
qed simp

lemma skip_ws_non_ws: "\<not> is_ws c \<Longrightarrow> skip_ws (c # cs) = c # cs"
  by (simp add: skip_ws_def)

lemma not_ws [simp]:
  "\<not> is_ws quote" "\<not> is_ws (CHR '':'')" "\<not> is_ws (CHR '','')" "\<not> is_ws (CHR ''{'')" "\<not> is_ws (CHR ''}'')"
  by code_simp+

lemma json_value_string:
  "valid_utf8 v \<Longrightarrow> json_value (Suc n) d (json_quote v @ t) = Some (JString v, t)"
  by (simp add: json_quote_def skip_ws_non_ws scan_escape)

lemma json_members_step:
  assumes "valid_utf8 k" "valid_utf8 v" "\<not> is_ws f"
  shows "json_members (Suc (Suc n)) d (json_member (k, v) @ f # t)
    = (if f = CHR '','' then map_option (\<lambda>(ms, r). ((k, JString v) # ms, r)) (json_members (Suc n) d t)
       else if f = CHR ''}'' then Some ([(k, JString v)], t) else None)"
proof -
  have m: "json_member (k, v) @ f # t = quote # json_escape k @ quote # CHR '':'' # json_quote v @ f # t"
    by (simp add: json_member_def json_quote_def)
  show ?thesis
    unfolding m using assms
    by (simp only: json_members.simps skip_ws_non_ws not_ws not_False_eq_True list.case scan_escape
        option.case prod.case json_value_string if_False if_True refl simp_thms)
qed

definition string_members :: "(string \<times> string) list \<Rightarrow> (string \<times> json) list" where
  "string_members kvs = map (\<lambda>(k, v). (k, JString v)) kvs"

lemma json_members_text_read:
  assumes "kvs \<noteq> []" "\<forall>(k, v) \<in> set kvs. valid_utf8 k \<and> valid_utf8 v" "length kvs < n"
  shows "json_members n d (json_members_text kvs @ CHR ''}'' # t) = Some (string_members kvs, t)"
  using assms
proof (induction kvs arbitrary: n rule: json_members_text.induct)
  case (2 kv)
  then obtain m where n: "n = Suc (Suc m)" by (metis Suc_lessE length_Cons less_imp_Suc_add add_Suc_right)
  then show ?case
    using 2 json_members_step [of "fst kv" "snd kv" "CHR ''}''" m d t]
    by (simp add: string_members_def split: prod.splits)
next
  case (3 kv kv2 kvs)
  then obtain m where n: "n = Suc (Suc m)" by (metis Suc_lessE length_Cons less_imp_Suc_add add_Suc_right)
  have "json_members (Suc m) d (json_members_text (kv2 # kvs) @ CHR ''}'' # t)
      = Some (string_members (kv2 # kvs), t)"
    using "3.IH" [of "Suc m"] "3.prems" n by simp
  then show ?case
    using "3.prems" n
      json_members_step [of "fst kv" "snd kv" "CHR '',''" m d "json_members_text (kv2 # kvs) @ CHR ''}'' # t"]
    by (simp add: string_members_def split: prod.splits)
qed simp

lemma json_members_text_front:
  "kvs \<noteq> [] \<Longrightarrow> \<exists>tl. json_members_text kvs = quote # tl"
  by (cases kvs rule: json_members_text.cases) (simp_all add: json_member_def json_quote_def)

theorem json_value_object:
  assumes "\<forall>(k, v) \<in> set kvs. valid_utf8 k \<and> valid_utf8 v" "length kvs + 1 < n" "0 < d"
  shows "json_value n d (json_object kvs @ t) = Some (JObject (string_members kvs), t)"
proof -
  obtain m where n: "n = Suc m" using assms(2) by (cases n) auto
  show ?thesis
  proof (cases "kvs = []")
    case True
    then show ?thesis
      using assms(3) n by (simp add: json_object_def skip_ws_non_ws string_members_def)
  next
    case False
    obtain tl where tl: "json_members_text kvs = quote # tl"
      using json_members_text_front [OF False] by blast
    have "json_members m (d - 1) (quote # tl @ CHR ''}'' # t) = Some (string_members kvs, t)"
      using json_members_text_read [OF False assms(1), of m "d - 1" t] assms(2) n tl by simp
    then show ?thesis
      using assms(3) n tl by (simp add: json_object_def skip_ws_non_ws)
  qed
qed

lemma length_json_object: "length kvs + 2 \<le> length (json_object kvs)"
proof -
  have "length kvs \<le> length (json_members_text kvs)"
    by (induction kvs rule: json_members_text.induct) (simp_all add: json_member_def json_quote_def)
  then show ?thesis by (simp add: json_object_def)
qed

theorem json_parse_object:
  assumes "\<forall>(k, v) \<in> set kvs. valid_utf8 k \<and> valid_utf8 v"
  shows "json_parse (json_object kvs) = Inr (JObject (string_members kvs))"
proof -
  have "length kvs + 1 < 2 * length (json_object kvs) + 1"
    using length_json_object [of kvs] by linarith
  from json_value_object [OF assms this, of max_nesting_depth "[]"]
  show ?thesis by (simp add: json_parse_def max_nesting_depth_def skip_ws_def)
qed

section \<open>Matching keys to fields\<close>

text \<open>
  \<open>foldName\<close>: ASCII letters in upper case; of the other runes only the long s (U+017F) and the Kelvin
  sign (U+212A) fold to ASCII, so the rest can be left as they are: no field name contains them.
\<close>

fun fold_name :: "string \<Rightarrow> string" where
  "fold_name [] = []"
| "fold_name (c # cs) =
     (if byte c < 0x80
      then (if 97 \<le> byte c \<and> byte c \<le> 122 then char_of (byte c - 32) else c) # fold_name cs
      else (let r = fst (decode_rune (c # cs)); n = snd (decode_rune (c # cs)) in
        (if r = 0x17F then ''S'' else if r = 0x212A then ''K'' else take n (c # cs))
          @ fold_name (drop (n - 1) cs)))"

text \<open>A key selects the field with that name, exactly or after folding both.\<close>

definition key_matches :: "string \<Rightarrow> string \<Rightarrow> bool" where
  "key_matches key name \<longleftrightarrow> fold_name key = fold_name name"

end
