(* ===== verification/Go_Base64.thy ===== *)
theory Go_Base64
  imports Go_Strings
begin

text \<open>
  \<open>base64.StdEncoding\<close>: \<open>EncodeToString\<close> and \<open>DecodeString\<close> as the Go library has them (padding
  required, line breaks skipped, trailing bits of the last quantum ignored). Decoding what was
  encoded gives the bytes back (\<open>b64_decode_encode\<close>), and the encoding is made of
  alphabet characters only.
\<close>

definition b64_char :: "nat \<Rightarrow> char" where
  "b64_char d =
     (if d < 26 then char_of (65 + d)
      else if d < 52 then char_of (97 + (d - 26))
      else if d < 62 then char_of (48 + (d - 52))
      else if d = 62 then CHR ''+'' else CHR ''/'')"

definition b64_val :: "char \<Rightarrow> nat option" where
  "b64_val c =
     (let b = byte c in
      if 65 \<le> b \<and> b \<le> 90 then Some (b - 65)
      else if 97 \<le> b \<and> b \<le> 122 then Some (b - 97 + 26)
      else if 48 \<le> b \<and> b \<le> 57 then Some (b - 48 + 52)
      else if c = CHR ''+'' then Some 62
      else if c = CHR ''/'' then Some 63 else None)"

fun b64_encode :: "string \<Rightarrow> string" where
  "b64_encode [] = []"
| "b64_encode [x] =
     [b64_char (byte x div 4), b64_char (byte x mod 4 * 16), CHR ''='', CHR ''='']"
| "b64_encode [x, y] =
     [b64_char (byte x div 4), b64_char (byte x mod 4 * 16 + byte y div 16),
      b64_char (byte y mod 16 * 4), CHR ''='']"
| "b64_encode (x # y # z # rest) =
     b64_char (byte x div 4) # b64_char (byte x mod 4 * 16 + byte y div 16)
     # b64_char (byte y mod 16 * 4 + byte z div 64) # b64_char (byte z mod 64) # b64_encode rest"

definition is_newline :: "char \<Rightarrow> bool" where
  "is_newline c \<longleftrightarrow> byte c = 10 \<or> byte c = 13"

definition corrupt_input :: error where
  "corrupt_input = Errorf ''illegal base64 data''"

text \<open>The bytes of the six bit digits of one quantum.\<close>

definition b64_byte1 :: "nat \<Rightarrow> nat \<Rightarrow> char" where
  "b64_byte1 a b = char_of (a * 4 + b div 16)"

definition b64_byte2 :: "nat \<Rightarrow> nat \<Rightarrow> char" where
  "b64_byte2 b c = char_of (b mod 16 * 16 + c div 4)"

definition b64_byte3 :: "nat \<Rightarrow> nat \<Rightarrow> char" where
  "b64_byte3 c d = char_of (c mod 4 * 64 + d)"

text \<open>Quanta of an input without line breaks; padding is accepted in the last quantum only.\<close>

fun b64_quanta :: "string \<Rightarrow> string result" where
  "b64_quanta [] = Inr []"
| "b64_quanta (p # q # r # s # rest) =
     (case (b64_val p, b64_val q) of
        (Some a, Some b) \<Rightarrow>
          (case b64_val r of
             Some c \<Rightarrow>
               (case b64_val s of
                  Some d \<Rightarrow>
                    res_bind (b64_quanta rest)
                      (\<lambda>bs. Inr (b64_byte1 a b # b64_byte2 b c # b64_byte3 c d # bs))
                | None \<Rightarrow>
                    if s = CHR ''='' \<and> rest = [] then Inr [b64_byte1 a b, b64_byte2 b c]
                    else Inl corrupt_input)
           | None \<Rightarrow>
               if r = CHR ''='' \<and> s = CHR ''='' \<and> rest = [] then Inr [b64_byte1 a b]
               else Inl corrupt_input)
      | _ \<Rightarrow> Inl corrupt_input)"
| "b64_quanta _ = Inl corrupt_input"

definition b64_decode :: "string \<Rightarrow> string result" where
  "b64_decode s = b64_quanta (filter (\<lambda>c. \<not> is_newline c) s)"

lemma b64_val_char [simp]: "d < 64 \<Longrightarrow> b64_val (b64_char d) = Some d"
proof -
  assume "d < 64"
  then consider "d < 26" | "26 \<le> d" "d < 52" | "52 \<le> d" "d < 62" | "d = 62" | "d = 63"
    by linarith
  then show ?thesis
    by cases (auto simp: b64_char_def b64_val_def Let_def)
qed

lemma b64_char_not_newline [simp]: "d < 64 \<Longrightarrow> \<not> is_newline (b64_char d)"
  by (auto simp: b64_char_def is_newline_def)

lemma b64_val_pad [simp]: "b64_val (CHR ''='') = None"
  by code_simp

lemma pad_not_newline [simp]: "\<not> is_newline (CHR ''='')"
  by code_simp

text \<open>The digits of a quantum are below 64 and give the three bytes back.\<close>

lemma b64_digit_bounds [simp]:
  "byte x div 4 < 64" "byte x mod 4 * 16 < 64" "byte x mod 16 * 4 < 64" "byte x mod 64 < 64"
  "byte x mod 4 * 16 + byte y div 16 < 64" "byte x mod 16 * 4 + byte y div 64 < 64"
proof -
  have x: "byte x < 256" and y: "byte y < 256" by simp_all
  show "byte x div 4 < 64" using x by linarith
  show "byte x mod 64 < 64" by simp
  have "byte x mod 4 < 4" "byte x mod 16 < 16" by simp_all
  then show "byte x mod 4 * 16 < 64" "byte x mod 16 * 4 < 64"
    "byte x mod 4 * 16 + byte y div 16 < 64" "byte x mod 16 * 4 + byte y div 64 < 64"
    using y by linarith+
qed

lemma b64_byte1_eq [simp]:
  "k < 16 \<Longrightarrow> b64_byte1 (byte x div 4) (byte x mod 4 * 16 + k) = x"
  by (simp add: b64_byte1_def mult.commute [of _ 4])

lemma b64_byte1_eq0 [simp]: "b64_byte1 (byte x div 4) (byte x mod 4 * 16) = x"
  using b64_byte1_eq [of 0 x] by simp

lemma b64_byte2_eq [simp]:
  "k < 4 \<Longrightarrow> b64_byte2 (m * 16 + byte y div 16) (byte y mod 16 * 4 + k) = y"
proof -
  assume k: "k < 4"
  have "byte y < 256" by simp
  then have "byte y div 16 < 16" by linarith
  then have "(m * 16 + byte y div 16) mod 16 = byte y div 16" by simp
  moreover have "(byte y mod 16 * 4 + k) div 4 = byte y mod 16" using k by simp
  ultimately show ?thesis by (simp add: b64_byte2_def mult.commute [of _ 16])
qed

lemma b64_byte2_eq0 [simp]:
  "b64_byte2 (m * 16 + byte y div 16) (byte y mod 16 * 4) = y"
  using b64_byte2_eq [of 0 m y] by simp

lemma b64_byte3_eq [simp]: "b64_byte3 (m * 4 + byte z div 64) (byte z mod 64) = z"
proof -
  have "byte z < 256" by simp
  then have "byte z div 64 < 4" by linarith
  then have "(m * 4 + byte z div 64) mod 4 = byte z div 64" by simp
  then show ?thesis by (simp add: b64_byte3_def mult.commute [of _ 64])
qed

lemma div16_less [simp]: "byte y div 16 < 16"
proof -
  have "byte y < 256" by simp
  then show ?thesis by linarith
qed

lemma div64_less [simp]: "byte y div 64 < 4"
proof -
  have "byte y < 256" by simp
  then show ?thesis by linarith
qed

lemma b64_encode_no_newline: "filter (\<lambda>c. \<not> is_newline c) (b64_encode s) = b64_encode s"
  by (induction s rule: b64_encode.induct) simp_all

lemma b64_quanta_encode: "b64_quanta (b64_encode s) = Inr s"
  by (induction s rule: b64_encode.induct) simp_all

theorem b64_decode_encode: "b64_decode (b64_encode s) = Inr s"
  by (simp add: b64_decode_def b64_encode_no_newline b64_quanta_encode)

lemma b64_encode_nonempty: "s \<noteq> [] \<Longrightarrow> b64_encode s \<noteq> []"
  by (induction s rule: b64_encode.induct) simp_all

text \<open>Encoded text is ASCII, so it travels unchanged as a UTF-8 string.\<close>

lemma b64_char_ascii: "d < 64 \<Longrightarrow> byte (b64_char d) < 128"
  by (auto simp: b64_char_def)

lemma b64_encode_ascii: "c \<in> set (b64_encode s) \<Longrightarrow> byte c < 128"
  by (induction s rule: b64_encode.induct) (auto simp: b64_char_ascii)

interpretation base64: codec b64_encode b64_decode "\<lambda>_. True"
  by unfold_locales (rule b64_decode_encode)

end
