(* ===== verification/Cursor.thy ===== *)
theory Cursor
  imports Baton_Sdk Teleport_Api Go_Json Go_Base64
begin

text \<open>
  \<open>pkg/connector/event_pagination.go\<close>: the pagination cursor both event feeds keep in the
  opaque token. The second half gives its meaning: a cursor is the text form of a time
  window (lower bound, latest event seen, continuation key), and the code's updates on the
  text are the updates of the window.
\<close>

section \<open>The cursor\<close>

record event_page_cursor =
  StartAt :: string
  LatestEventSeen :: string
  LastKey :: string

definition empty_cursor :: event_page_cursor where
  [go_defs]: "empty_cursor = \<lparr>StartAt = [], LatestEventSeen = [], LastKey = []\<rparr>"

text \<open>The struct tags: field names in declaration order, all \<open>omitempty\<close>.\<close>

definition cursor_members :: "event_page_cursor \<Rightarrow> (string \<times> string) list" where
  [go_defs]: "cursor_members c = filter (\<lambda>kv. snd kv \<noteq> [])
     [(''start_at'', StartAt c), (''latest_event_seen'', LatestEventSeen c),
      (''last_key'', LastKey c)]"

definition json_Marshal :: "event_page_cursor \<Rightarrow> string" where
  [go_defs]: "json_Marshal c = json_object (cursor_members c)"

text \<open>
  \<open>json.Unmarshal\<close> into the struct: \<open>null\<close> leaves a field alone, another type than string
  is an error (reported after the whole input is read), unknown keys are skipped, and a
  later key wins.
\<close>

fun set_string ::
    "json \<Rightarrow> (string \<Rightarrow> event_page_cursor \<Rightarrow> event_page_cursor) \<Rightarrow>
     event_page_cursor \<times> bool \<Rightarrow> event_page_cursor \<times> bool" where
  "set_string (JString s) upd (c, bad) = (upd s c, bad)"
| "set_string JNull upd (c, bad) = (c, bad)"
| "set_string _ upd (c, bad) = (c, True)"

definition store_member ::
    "string \<times> json \<Rightarrow> event_page_cursor \<times> bool \<Rightarrow> event_page_cursor \<times> bool" where
  [go_defs]: "store_member kv cb =
     (if key_matches (fst kv) ''start_at''
        then set_string (snd kv) (\<lambda>s c. c\<lparr>StartAt := s\<rparr>) cb
      else if key_matches (fst kv) ''latest_event_seen''
        then set_string (snd kv) (\<lambda>s c. c\<lparr>LatestEventSeen := s\<rparr>) cb
      else if key_matches (fst kv) ''last_key''
        then set_string (snd kv) (\<lambda>s c. c\<lparr>LastKey := s\<rparr>) cb
      else cb)"

definition json_Unmarshal :: "string \<Rightarrow> event_page_cursor result" where
  [go_defs]: "json_Unmarshal data =
     res_bind (json_parse data) (\<lambda>v. case v of
       JObject ms \<Rightarrow>
         (let (c, bad) = fold store_member ms (empty_cursor, False)
          in if bad then Inl (Errorf ''json: cannot unmarshal into string field'') else Inr c)
     | JNull \<Rightarrow> Inr empty_cursor
     | _ \<Rightarrow> Inl (Errorf ''json: cannot unmarshal into eventPageCursor''))"

section \<open>Operations\<close>

definition decode_cursor :: "string \<Rightarrow> event_page_cursor result" where
  [go_defs]: "decode_cursor s =
     res_bind (res_wrap ''baton-teleport: failed to decode page cursor'' (b64_decode s))
       (\<lambda>data. res_wrap ''baton-teleport: failed to unmarshal page cursor'' (json_Unmarshal data))"

definition unmarshalEventPageCursor ::
    "'s clock \<Rightarrow> stream_token option \<Rightarrow> timestamp option \<Rightarrow> ('s, event_page_cursor) io" where
  "unmarshalEventPageCursor clk pToken defaultStart =
     io_bind (io_lift (case pToken of
         Some t \<Rightarrow> if st_Cursor t \<noteq> [] then decode_cursor (st_Cursor t) else Inr empty_cursor
       | None \<Rightarrow> Inr empty_cursor)) (\<lambda>c.
     io_bind
       (if StartAt c = [] then
          io_bind (case defaultStart of
              Some d \<Rightarrow> io_return (AsTime d)
            | None \<Rightarrow> io_bind (now clk) (\<lambda>t. io_return (t + (- 24) * hour_nanos)))
            (\<lambda>start. io_return (c\<lparr>StartAt := go_format start\<rparr>))
        else io_return c) (\<lambda>c.
     io_return (if LatestEventSeen c = [] then c\<lparr>LatestEventSeen := StartAt c\<rparr> else c)))"

definition marshal :: "event_page_cursor \<Rightarrow> string result" where
  [go_defs]: "marshal c = Inr (b64_encode (json_Marshal c))"

definition updateLatestEvent :: "time \<Rightarrow> event_page_cursor \<Rightarrow> event_page_cursor" where
  [go_defs]: "updateLatestEvent t c =
     (if time_IsZero t then c
      else case go_parse (LatestEventSeen c) of
        Inl _ \<Rightarrow> c\<lparr>LatestEventSeen := go_format t\<rparr>
      | Inr latest \<Rightarrow>
          if time_After t latest then c\<lparr>LatestEventSeen := go_format t\<rparr> else c)"

definition prepareNextSync :: "event_page_cursor \<Rightarrow> event_page_cursor" where
  [go_defs]: "prepareNextSync c = c\<lparr>StartAt := LatestEventSeen c, LatestEventSeen := [], LastKey := []\<rparr>"

text \<open>The end of both \<open>ListEvents\<close> methods: finish the cycle or remember the continuation key.\<close>

definition advance_cursor :: "string \<Rightarrow> event_page_cursor \<Rightarrow> event_page_cursor" where
  [go_defs]: "advance_cursor lastKey c =
     (if lastKey = [] then prepareNextSync c else c\<lparr>LastKey := lastKey\<rparr>)"

section \<open>The token codec\<close>

definition cursor_valid :: "event_page_cursor \<Rightarrow> bool" where
  [go_defs]: "cursor_valid c \<longleftrightarrow>
     valid_utf8 (StartAt c) \<and> valid_utf8 (LatestEventSeen c) \<and> valid_utf8 (LastKey c)"

lemma field_keys [simp]:
  "key_matches ''start_at'' ''start_at''"
  "\<not> key_matches ''latest_event_seen'' ''start_at''"
  "key_matches ''latest_event_seen'' ''latest_event_seen''"
  "\<not> key_matches ''last_key'' ''start_at''"
  "\<not> key_matches ''last_key'' ''latest_event_seen''"
  "key_matches ''last_key'' ''last_key''"
  by code_simp+

lemma field_names_utf8 [simp]:
  "valid_utf8 ''start_at''" "valid_utf8 ''latest_event_seen''" "valid_utf8 ''last_key''"
  by code_simp+

lemma Unmarshal_Marshal: "cursor_valid c \<Longrightarrow> json_Unmarshal (json_Marshal c) = Inr c"
proof -
  assume "cursor_valid c"
  then have "\<forall>(k, v) \<in> set (cursor_members c). valid_utf8 k \<and> valid_utf8 v"
    by (auto simp: cursor_members_def cursor_valid_def)
  moreover have "fold store_member (string_members (cursor_members c)) (empty_cursor, False)
      = (c, False)"
    by (cases c) (auto simp: cursor_members_def string_members_def store_member_def
        empty_cursor_def)
  ultimately show ?thesis
    by (simp add: json_Unmarshal_def json_Marshal_def json_parse_object)
qed

interpretation cursor_json: codec json_Marshal json_Unmarshal cursor_valid
  by unfold_locales (rule Unmarshal_Marshal)

interpretation cursor_token:
  codec_chain json_Marshal json_Unmarshal cursor_valid b64_encode b64_decode "\<lambda>_. True"
  by unfold_locales simp

lemma decode_cursor_encode:
  assumes "cursor_valid c"
  shows "decode_cursor (b64_encode (json_Marshal c)) = Inr c"
proof -
  from cursor_token.dec_enc_chain [OF assms]
  obtain d where "b64_decode (b64_encode (json_Marshal c)) = Inr d" "json_Unmarshal d = Inr c"
    by (auto simp: res_bind_Inr_iff)
  then show ?thesis by (simp add: decode_cursor_def)
qed

lemma encode_cursor_nonempty: "b64_encode (json_Marshal c) \<noteq> []"
  by (rule b64_encode_nonempty) (simp add: json_Marshal_def json_object_def)

section \<open>Formatted instants are text\<close>

lemma ascii_digit: "is_digit c \<Longrightarrow> byte c < 0x80"
  by (simp add: is_digit_def)

lemma dec_digits_ascii: "c \<in> set (dec_digits n) \<Longrightarrow> byte c < 0x80"
proof (induction n rule: dec_digits.induct)
  case (1 n)
  then show ?case
    using dec_digits.simps [of n] by (auto simp: ascii_digit split: if_splits)
qed

lemma append_int_ascii: "c \<in> set (append_int x w) \<Longrightarrow> byte c < 0x80"
  by (auto simp: append_int_def Let_def dec_digits_ascii split: if_splits)

lemma append_nano_ascii: "c \<in> set (append_nano n) \<Longrightarrow> byte c < 0x80"
  by (auto simp: append_nano_def strip_zeros_def ascii_digit dest!: set_dropWhileD pad_digits_digits
      split: if_splits)

lemma go_format_utf8 [simp]: "valid_utf8 (go_format t)"
  by (rule valid_utf8_ascii_string)
    (auto simp: go_format_def Let_def append_int_ascii append_nano_ascii split: prod.splits)

lemma go_format_nonempty [simp]: "go_format t \<noteq> []"
  by (simp add: go_format_def Let_def split: prod.splits)

section \<open>The window a cursor stands for\<close>

text \<open>
  The abstract state of a feed: events are requested from \<open>start\<close> on, \<open>seen\<close> is the latest
  event time of the running cycle, \<open>key\<close> the continuation key inside it (empty at the start
  of a cycle).
\<close>

record window =
  start :: time
  seen :: time
  key :: string

definition window_ok :: "window \<Rightarrow> bool" where
  [go_defs]: "window_ok w \<longleftrightarrow> time_in_range (start w) \<and> time_in_range (seen w) \<and> valid_utf8 (key w)"

definition cursor_of :: "window \<Rightarrow> event_page_cursor" where
  [go_defs]: "cursor_of w = \<lparr>StartAt = go_format (start w), LatestEventSeen = go_format (seen w),
     LastKey = key w\<rparr>"

text \<open>Zero times are ignored, as in the code.\<close>

definition see :: "time \<Rightarrow> time \<Rightarrow> time" where
  [go_defs]: "see t latest = (if t = zero_time then latest else max latest t)"

text \<open>What one page does to the window: its event times and the continuation key it returned.\<close>

definition page_step :: "time list \<Rightarrow> string \<Rightarrow> window \<Rightarrow> window" where
  [go_defs]: "page_step ts lastKey w =
     (let s = fold see ts (seen w)
      in if lastKey = [] then \<lparr>start = s, seen = s, key = []\<rparr>
         else w\<lparr>seen := s, key := lastKey\<rparr>)"

text \<open>A token stands for a window when the feed reads it back as the cursor of that window.\<close>

definition token_window :: "string \<Rightarrow> window \<Rightarrow> bool" where
  "token_window tok w \<longleftrightarrow> tok \<noteq> [] \<and> window_ok w \<and>
     (\<exists>c. cursor_valid c \<and> tok = b64_encode (json_Marshal c) \<and>
        StartAt c = go_format (start w) \<and> LastKey c = key w \<and>
        (LatestEventSeen c = go_format (seen w) \<or> LatestEventSeen c = [] \<and> seen w = start w))"

lemma cursor_of_sel [simp]:
  "StartAt (cursor_of w) = go_format (start w)"
  "LatestEventSeen (cursor_of w) = go_format (seen w)"
  "LastKey (cursor_of w) = key w"
  by (simp_all add: cursor_of_def)

lemma token_windowI:
  assumes "window_ok w" "valid_utf8 (LastKey c)" "StartAt c = go_format (start w)"
    "LastKey c = key w"
    "LatestEventSeen c = go_format (seen w) \<or> LatestEventSeen c = [] \<and> seen w = start w"
  shows "token_window (b64_encode (json_Marshal c)) w"
proof -
  have "cursor_valid c"
    using assms(2,3,5) by (auto simp: cursor_valid_def)
  with assms show ?thesis
    unfolding token_window_def using encode_cursor_nonempty by blast
qed

lemma unmarshal_token:
  assumes "token_window (st_Cursor t) w"
  shows "unmarshalEventPageCursor clk (Some t) d s = (Inr (cursor_of w), s)"
proof -
  obtain c where c: "cursor_valid c" "st_Cursor t = b64_encode (json_Marshal c)"
    "StartAt c = go_format (start w)" "LastKey c = key w"
    "LatestEventSeen c = go_format (seen w) \<or> LatestEventSeen c = [] \<and> seen w = start w"
    using assms by (auto simp: token_window_def)
  have e: "(if LatestEventSeen c = [] then c\<lparr>LatestEventSeen := StartAt c\<rparr> else c) = cursor_of w"
    using c(3-5) by (cases c) (auto simp: cursor_of_def)
  have "unmarshalEventPageCursor clk (Some t) d = io_return (cursor_of w)"
    using c(1-3) encode_cursor_nonempty [of c] decode_cursor_encode [OF c(1)]
    by (simp add: unmarshalEventPageCursor_def e del: io_return_def)
  then show ?thesis
    by (simp add: io_return_def)
qed

text \<open>A feed that has no token yet starts at the given instant, or 24 hours ago.\<close>

lemma unmarshal_fresh:
  assumes "case pToken of None \<Rightarrow> True | Some tok \<Rightarrow> st_Cursor tok = []"
  shows "unmarshalEventPageCursor clk pToken d =
    io_bind (case d of Some ts \<Rightarrow> io_return (AsTime ts)
        | None \<Rightarrow> io_bind (now clk) (\<lambda>t. io_return (t + (- 24) * hour_nanos)))
      (\<lambda>t. io_return (cursor_of \<lparr>start = t, seen = t, key = []\<rparr>))"
proof -
  have "(case pToken of Some t \<Rightarrow> if st_Cursor t \<noteq> [] then decode_cursor (st_Cursor t) else Inr empty_cursor
       | None \<Rightarrow> Inr empty_cursor) = Inr empty_cursor"
    using assms by (cases pToken) simp_all
  then show ?thesis
    unfolding unmarshalEventPageCursor_def
    by (simp add: io_bind_assoc empty_cursor_def cursor_of_def)
qed

lemma updateLatestEvent_window:
  assumes "time_in_range (seen w)"
  shows "updateLatestEvent t (cursor_of w) = cursor_of (w\<lparr>seen := see t (seen w)\<rparr>)"
  using rfc3339.dec_enc [OF assms]
  by (simp add: updateLatestEvent_def see_def time_IsZero_def time_After_def cursor_of_def max_def)

lemma see_in_range: "time_in_range l \<Longrightarrow> time_in_range t \<Longrightarrow> time_in_range (see t l)"
  by (simp add: see_def max_def)

lemma fold_see_in_range:
  "time_in_range l \<Longrightarrow> list_all time_in_range ts \<Longrightarrow> time_in_range (fold see ts l)"
  by (induction ts arbitrary: l) (simp_all add: see_in_range)

lemma fold_updateLatestEvent:
  "time_in_range (seen w) \<Longrightarrow> list_all time_in_range ts \<Longrightarrow>
   fold updateLatestEvent ts (cursor_of w) = cursor_of (w\<lparr>seen := fold see ts (seen w)\<rparr>)"
proof (induction ts arbitrary: w)
  case (Cons t ts)
  then show ?case
    using Cons.IH [of "w\<lparr>seen := see t (seen w)\<rparr>"]
    by (simp add: updateLatestEvent_window see_in_range)
qed simp

lemma fold_see_ge: "l \<le> fold see ts l"
  by (induction ts arbitrary: l) (auto simp: see_def max_def intro: order_trans)

lemma fold_see_Max: "fold see ts l = Max (insert l (set ts - {zero_time}))"
proof (induction ts arbitrary: l)
  case (Cons t ts)
  have "Max (insert (see t l) (set ts - {zero_time})) = Max (insert l (set (t # ts) - {zero_time}))"
  proof (cases "t = zero_time")
    case True
    then show ?thesis by (simp add: see_def)
  next
    case False
    then have "insert l (set (t # ts) - {zero_time}) = insert l (insert t (set ts - {zero_time}))"
      by auto
    moreover have "Max (insert (max l t) A) = Max (insert l (insert t A))" if "finite A" for A
      using that by (cases "A = {}") (simp_all add: max.assoc)
    ultimately show ?thesis
      using False by (simp only: see_def if_False) simp
  qed
  with Cons show ?case by simp
qed simp

lemma page_step_ok:
  assumes "window_ok w" "list_all time_in_range ts" "valid_utf8 lastKey"
  shows "window_ok (page_step ts lastKey w)"
  using assms by (simp add: window_ok_def page_step_def Let_def fold_see_in_range)

text \<open>The refinement: the code's updates of the text cursor are \<open>page_step\<close> on its window.\<close>

lemma advance_window:
  assumes "window_ok w" "list_all time_in_range ts" "valid_utf8 lastKey"
  obtains tok where "marshal (advance_cursor lastKey (fold updateLatestEvent ts (cursor_of w))) = Inr tok"
    "token_window tok (page_step ts lastKey w)"
proof
  let ?c = "advance_cursor lastKey (fold updateLatestEvent ts (cursor_of w))"
  show "marshal ?c = Inr (b64_encode (json_Marshal ?c))"
    by (simp add: marshal_def)
  have "fold updateLatestEvent ts (cursor_of w) = cursor_of (w\<lparr>seen := fold see ts (seen w)\<rparr>)"
    using assms by (simp add: fold_updateLatestEvent window_ok_def)
  then show "token_window (b64_encode (json_Marshal ?c)) (page_step ts lastKey w)"
    by (intro token_windowI page_step_ok assms)
      (use assms in \<open>auto simp: advance_cursor_def prepareNextSync_def page_step_def Let_def\<close>)
qed

section \<open>Properties\<close>

lemma fold_update_latest:
  assumes "go_parse (LatestEventSeen c) = Inr l" "list_all time_in_range ts"
  shows "fold updateLatestEvent ts c =
    (if fold see ts l = l then c else c\<lparr>LatestEventSeen := go_format (fold see ts l)\<rparr>)"
  using assms
proof (induction ts arbitrary: c l)
  case (Cons t ts)
  have fmt: "go_parse (go_format t) = Inr t"
    using Cons.prems(2) by (intro rfc3339.dec_enc) simp
  show ?case
  proof (cases "t \<noteq> zero_time \<and> l < t")
    case True
    then have up: "updateLatestEvent t c = c\<lparr>LatestEventSeen := go_format t\<rparr>" and se: "see t l = t"
      using Cons.prems(1) by (simp_all add: updateLatestEvent_def time_IsZero_def time_After_def see_def)
    have "fold see ts t \<noteq> l" using fold_see_ge [of t ts] True by simp
    then show ?thesis
      using Cons.IH [of "c\<lparr>LatestEventSeen := go_format t\<rparr>" t] Cons.prems(2) fmt
      by (simp add: up se)
  next
    case False
    then have "updateLatestEvent t c = c" "see t l = l"
      using Cons.prems(1)
      by (auto simp: updateLatestEvent_def time_IsZero_def time_After_def see_def)
    then show ?thesis using Cons.IH [of c l] Cons.prems by simp
  qed
qed simp

text \<open>
  C13: A cursor that both feeds have filled in survives the trip through the opaque token: the
  token that \<open>marshal\<close> returns is read back by \<open>unmarshalEventPageCursor\<close> as the same cursor,
  without looking at the clock or at the default start. Continuation keys with any
  characters that JSON escapes are included.
\<close>

theorem cursor_token_roundtrip:
  assumes "cursor_valid c" "StartAt c \<noteq> []" "LatestEventSeen c \<noteq> []" "marshal c = Inr m"
  shows "unmarshalEventPageCursor clk (Some \<lparr>st_Size = n, st_Cursor = m\<rparr>) d s = (Inr c, s)"
proof -
  have m: "m = b64_encode (json_Marshal c)" using assms(4) by (simp add: marshal_def)
  show ?thesis
    using assms(2,3) encode_cursor_nonempty [of c] decode_cursor_encode [OF assms(1)]
    by (simp add: unmarshalEventPageCursor_def m) (simp add: io_return_def)
qed

definition sample_cursor :: event_page_cursor where
  "sample_cursor = \<lparr>StartAt = ''2026-02-27T10:00:00Z'', LatestEventSeen = ''2026-02-27T10:00:05.5Z'',
     LastKey = ''a/<&>'' @ [CHR 0x22, CHR 0xC3, CHR 0xA9]\<rparr>"

theorem cursor_token_roundtrip_witness:
  "unmarshalEventPageCursor (\<lambda>s :: nat. (0, s))
     (Some \<lparr>st_Size = 100, st_Cursor = b64_encode (json_Marshal sample_cursor)\<rparr>) None 7
     = (Inr sample_cursor, 7)"
proof -
  have "cursor_valid sample_cursor" by code_simp
  then show ?thesis
    by (rule cursor_token_roundtrip) (simp_all add: sample_cursor_def marshal_def)
qed

text \<open>
  Without a cursor a feed starts at the instant the request names, to the nanosecond, or
  24 hours before now when it names none, and the latest event seen starts there too. The
  clock is read only in the second case.
\<close>

lemma fresh_cursor_window:
  assumes "case pToken of None \<Rightarrow> True | Some tok \<Rightarrow> st_Cursor tok = []"
  shows "unmarshalEventPageCursor clk pToken (Some d) s =
      (Inr \<lparr>StartAt = go_format (AsTime d), LatestEventSeen = go_format (AsTime d), LastKey = []\<rparr>, s)
    \<and> unmarshalEventPageCursor clk pToken None s =
      (let t = fst (clk s) - 24 * hour_nanos in
       (Inr \<lparr>StartAt = go_format t, LatestEventSeen = go_format t, LastKey = []\<rparr>, snd (clk s)))"
proof (intro conjI)
  show "unmarshalEventPageCursor clk pToken (Some d) s =
      (Inr \<lparr>StartAt = go_format (AsTime d), LatestEventSeen = go_format (AsTime d), LastKey = []\<rparr>, s)"
    by (simp add: unmarshal_fresh [OF assms]) (simp add: io_return_def cursor_of_def)
  show "unmarshalEventPageCursor clk pToken None s =
      (let t = fst (clk s) - 24 * hour_nanos in
       (Inr \<lparr>StartAt = go_format t, LatestEventSeen = go_format t, LastKey = []\<rparr>, snd (clk s)))"
    by (simp add: unmarshal_fresh [OF assms] io_bind_assoc)
      (simp add: io_bind_def now_def io_return_def cursor_of_def Let_def split_beta)
qed

lemma fresh_cursor_window_witness:
  "fst (unmarshalEventPageCursor (\<lambda>s :: nat. (0, Suc s)) None (Some (Timestamp 1 5)) 0) =
     Inr \<lparr>StartAt = go_format 1000000005, LatestEventSeen = go_format 1000000005, LastKey = []\<rparr>"
  using fresh_cursor_window [of None "\<lambda>s :: nat. (0, Suc s)" "Timestamp 1 5" 0]
  by (simp add: AsTime_def nanos_per_sec_def)

text \<open>
  After a page, \<open>LatestEventSeen\<close> is the maximum of what it was and of the event times,
  zero times left out, whatever the order of the events; when no event is later the text is
  not touched.
\<close>

lemma latest_seen_is_max:
  assumes "go_parse (LatestEventSeen c) = Inr l" "list_all time_in_range ts"
  shows "fold updateLatestEvent ts c =
    (let m = Max (insert l (set ts - {zero_time}))
     in if m = l then c else c\<lparr>LatestEventSeen := go_format m\<rparr>)"
  using fold_update_latest [OF assms] by (simp add: fold_see_Max Let_def)

lemma latest_seen_is_max_witness:
  "fold updateLatestEvent [3000, zero_time, 9000, 4000] (cursor_of \<lparr>start = 0, seen = 0, key = []\<rparr>)
     = cursor_of \<lparr>start = 0, seen = 9000, key = []\<rparr>"
proof -
  have r: "time_in_range 0" "list_all time_in_range [3000, zero_time, 9000, 4000]"
    by (simp_all add: time_in_range_def zero_time_def nanos_per_sec_def)
  have p: "go_parse (LatestEventSeen (cursor_of \<lparr>start = 0, seen = 0, key = []\<rparr>)) = Inr 0"
    using rfc3339.dec_enc [OF r(1)] by (simp add: cursor_of_def)
  have "set [3000, zero_time, 9000, 4000] - {zero_time} = {3000, 9000, 4000}"
    by (auto simp: zero_time_def nanos_per_sec_def)
  then have m: "Max (insert 0 (set [3000, zero_time, 9000, 4000] - {zero_time})) = 9000"
    by (simp only:) simp
  show ?thesis
    unfolding latest_seen_is_max [OF p r(2)] m by (simp add: cursor_of_def)
qed

text \<open>
  C11: The cursor refines the time window: reading back the token a page ends with gives the
  cursor of the window after \<open>page_step\<close>. A page with a continuation key keeps the lower
  bound and stores the key; the last page of a cycle moves the lower bound to the latest
  event seen and clears the key.
\<close>

theorem cursor_refines_window:
  assumes "window_ok w" "list_all time_in_range ts" "valid_utf8 lastKey"
    and "marshal (advance_cursor lastKey (fold updateLatestEvent ts (cursor_of w))) = Inr m"
  shows "unmarshalEventPageCursor clk (Some \<lparr>st_Size = n, st_Cursor = m\<rparr>) d s =
    (Inr (cursor_of (page_step ts lastKey w)), s)"
proof -
  have "token_window m (page_step ts lastKey w)"
    by (rule advance_window [OF assms(1-3)]) (use assms(4) in auto)
  then show ?thesis by (simp add: unmarshal_token)
qed

theorem cursor_refines_window_witness:
  "unmarshalEventPageCursor (\<lambda>s :: nat. (0, s))
     (Some \<lparr>st_Size = 1, st_Cursor = b64_encode (json_Marshal
        (advance_cursor [] (fold updateLatestEvent [5, 3] (cursor_of \<lparr>start = 1, seen = 2, key = ''k''\<rparr>))))\<rparr>)
     None 0 = (Inr (cursor_of \<lparr>start = 5, seen = 5, key = []\<rparr>), 0)"
proof -
  let ?w = "\<lparr>start = 1, seen = 2, key = ''k''\<rparr>"
  have w: "window_ok ?w" "list_all time_in_range [5, 3]" "valid_utf8 []"
    by (simp_all add: window_ok_def time_in_range_def nanos_per_sec_def) code_simp
  have m: "marshal (advance_cursor [] (fold updateLatestEvent [5, 3] (cursor_of ?w))) =
      Inr (b64_encode (json_Marshal (advance_cursor [] (fold updateLatestEvent [5, 3] (cursor_of ?w)))))"
    by (simp add: marshal_def)
  have "page_step [5, 3] [] ?w = \<lparr>start = 5, seen = 5, key = []\<rparr>"
    by (simp add: page_step_def see_def zero_time_def nanos_per_sec_def)
  then show ?thesis
    using cursor_refines_window [OF w m] by simp
qed

end
