(* ===== verification/Event_Page.thy ===== *)
theory Event_Page
  imports Cursor Helpers
begin

text \<open>
  What one call of \<open>ListEvents\<close> is, for both event feeds: read the cursor, search one page of
  audit events, convert it, and return the new cursor. The contract is the locale
  \<open>paged_feed\<close>; the lemmas about pages are proved once in it. The theories \<open>Usage_Feed\<close> and
  \<open>Audit_Feed\<close> interpret it on the two methods as the code has them.
\<close>

definition eventsPageSize :: int where
  [go_defs]: "eventsPageSize = 100"

section \<open>The three parts of a page\<close>

text \<open>The cursor and the bounds of the search: \<open>StartAt\<close> parsed, and the present.\<close>

definition open_page ::
    "'s clock \<Rightarrow> string \<Rightarrow> stream_token option \<Rightarrow> timestamp option
      \<Rightarrow> ('s, event_page_cursor \<times> time \<times> time) io" where
  "open_page clk parse_msg pToken earliest =
     io_bind (unmarshalEventPageCursor clk pToken earliest) (\<lambda>cursor.
     io_bind (io_lift (res_wrap parse_msg (go_parse (StartAt cursor)))) (\<lambda>t.
     io_bind (now clk) (\<lambda>u. io_return (cursor, t, u))))"

definition page_request :: "string list \<Rightarrow> time \<Rightarrow> time \<Rightarrow> string \<Rightarrow> search_request" where
  [go_defs]: "page_request types t u k =
     \<lparr>sr_From = t, sr_To = u, sr_Namespace = Namespace, sr_EventTypes = types,
      sr_Limit = eventsPageSize, sr_Order = EventOrderAscending, sr_StartKey = k, sr_Search = []\<rparr>"

definition close_page ::
    "string \<Rightarrow> event list \<Rightarrow> event_page_cursor \<Rightarrow> (event list \<times> stream_state) result" where
  "close_page lastKey evs cursor =
     res_bind (marshal (advance_cursor lastKey cursor)) (\<lambda>m.
       Inr (evs, \<lparr>ss_Cursor = m, ss_HasMore = (lastKey \<noteq> [])\<rparr>))"

text \<open>
  A token opens a window when it is a cursor token of that window, or when there is no token
  yet and the window starts at the instant the request names.
\<close>

definition opens :: "stream_token option \<Rightarrow> timestamp option \<Rightarrow> window \<Rightarrow> bool" where
  "opens pToken earliest w \<longleftrightarrow> window_ok w \<and>
     ((\<exists>tok. pToken = Some tok \<and> token_window (st_Cursor tok) w)
      \<or> (case pToken of None \<Rightarrow> True | Some tok \<Rightarrow> st_Cursor tok = []) \<and>
        (\<exists>ts. earliest = Some ts \<and> w = \<lparr>start = AsTime ts, seen = AsTime ts, key = []\<rparr>))"

lemma opens_cursor:
  "opens pToken earliest w \<Longrightarrow> unmarshalEventPageCursor clk pToken earliest s = (Inr (cursor_of w), s)"
  by (auto simp: opens_def unmarshal_token unmarshal_fresh) (simp add: io_return_def)

lemma open_page_window:
  assumes "opens pToken earliest w" "clk s = (u, s')"
  shows "open_page clk msg pToken earliest s = (Inr (cursor_of w, start w, u), s')"
proof -
  have "go_parse (go_format (start w)) = Inr (start w)"
    using assms(1) by (intro rfc3339.dec_enc) (simp add: opens_def window_ok_def)
  then show ?thesis
    using assms(2) opens_cursor [OF assms(1), of clk s]
    by (simp add: open_page_def io_bind_def io_lift_def now_def io_return_def)
qed

section \<open>The contract of a feed\<close>

locale paged_feed =
  fixes list_events ::
      "'s clock \<Rightarrow> 's client_ptr \<Rightarrow> timestamp option \<Rightarrow> stream_token option
        \<Rightarrow> ('s, event list \<times> stream_state) io"
    and parse_msg search_msg :: string
    and types :: "string list"
    and event_time :: "audit_event \<Rightarrow> time"
    and convert :: "'s client_ptr \<Rightarrow> audit_event list \<Rightarrow> ('s, event list) io"
  assumes list_events_page:
    "list_events clk c earliest pToken =
       io_bind (open_page clk parse_msg pToken earliest) (\<lambda>(cursor, t, u).
       io_bind (io_wrap search_msg (with_client c (\<lambda>api.
         api_SearchEvents api (page_request types t u (LastKey cursor))))) (\<lambda>(aes, lastKey).
       io_bind (convert c aes) (\<lambda>evs.
       io_lift (close_page lastKey evs (fold updateLatestEvent (map event_time aes) cursor)))))"
begin

text \<open>A page that succeeds: the events are the converted ones and the token moves by \<open>page_step\<close>.\<close>

lemma page_result:
  assumes "opens pToken earliest w" "clk s = (u, s1)"
    and c: "c = Some tc" "tc_Client tc = Some api"
    and search: "api_SearchEvents api (page_request types (start w) u (key w)) s1 = (Inr (aes, lastKey), s2)"
    and conv: "convert c aes s2 = (Inr evs, s3)"
    and times: "list_all time_in_range (map event_time aes)" "valid_utf8 lastKey"
  obtains tok where
    "list_events clk c earliest pToken s =
       (Inr (evs, \<lparr>ss_Cursor = tok, ss_HasMore = (lastKey \<noteq> [])\<rparr>), s3)"
    "token_window tok (page_step (map event_time aes) lastKey w)"
proof -
  have "window_ok w" using assms(1) by (simp add: opens_def)
  from advance_window [OF this times]
  obtain tok where tok: "marshal (advance_cursor lastKey (fold updateLatestEvent (map event_time aes)
      (cursor_of w))) = Inr tok" "token_window tok (page_step (map event_time aes) lastKey w)" .
  have "list_events clk c earliest pToken s =
      (Inr (evs, \<lparr>ss_Cursor = tok, ss_HasMore = (lastKey \<noteq> [])\<rparr>), s3)"
    using open_page_window [where clk = clk and s = s and msg = parse_msg, OF assms(1,2)] search conv c tok(1)
    by (simp add: list_events_page io_bind_def io_wrap_def io_lift_def close_page_def)
  then show thesis using tok(2) by (rule that)
qed

text \<open>Every successful call came from a successful search and conversion; \<open>HasMore\<close> is the key's.\<close>

lemma page_successE:
  assumes "list_events clk c earliest pToken s = (Inr (evs, st), s')"
  obtains cursor t u s1 tc api aes lastKey s2 where
    "open_page clk parse_msg pToken earliest s = (Inr (cursor, t, u), s1)"
    "c = Some tc" "tc_Client tc = Some api"
    "api_SearchEvents api (page_request types t u (LastKey cursor)) s1 = (Inr (aes, lastKey), s2)"
    "convert c aes s2 = (Inr evs, s')"
    "ss_HasMore st \<longleftrightarrow> lastKey \<noteq> []"
proof -
  from assms [unfolded list_events_page]
  obtain cursor t u s1 where o1: "open_page clk parse_msg pToken earliest s = (Inr (cursor, t, u), s1)"
    and rest: "io_bind (io_wrap search_msg (with_client c (\<lambda>api.
         api_SearchEvents api (page_request types t u (LastKey cursor))))) (\<lambda>(aes, lastKey).
       io_bind (convert c aes) (\<lambda>evs.
       io_lift (close_page lastKey evs (fold updateLatestEvent (map event_time aes) cursor)))) s1
     = (Inr (evs, st), s')"
    by (rule io_bind_InrE) auto
  from rest obtain aes lastKey s2 where o2': "io_wrap search_msg (with_client c (\<lambda>api.
         api_SearchEvents api (page_request types t u (LastKey cursor)))) s1 = (Inr (aes, lastKey), s2)"
    and rest2: "io_bind (convert c aes) (\<lambda>evs. io_lift (close_page lastKey evs
         (fold updateLatestEvent (map event_time aes) cursor))) s2 = (Inr (evs, st), s')"
    by (rule io_bind_InrE) auto
  from o2' have o2: "with_client c (\<lambda>api.
         api_SearchEvents api (page_request types t u (LastKey cursor))) s1 = (Inr (aes, lastKey), s2)"
    by (rule io_wrap_InrE)
  from rest2 obtain evs' s3 where cv: "convert c aes s2 = (Inr evs', s3)"
    and rest3: "io_lift (close_page lastKey evs'
         (fold updateLatestEvent (map event_time aes) cursor)) s3 = (Inr (evs, st), s')"
    by (rule io_bind_InrE)
  then have o3: "convert c aes s2 = (Inr evs, s')" "ss_HasMore st \<longleftrightarrow> lastKey \<noteq> []"
    by (auto simp: io_lift_def close_page_def res_bind_Inr_iff)
  from o2 obtain tc api where "c = Some tc" "tc_Client tc = Some api"
    "api_SearchEvents api (page_request types t u (LastKey cursor)) s1 = (Inr (aes, lastKey), s2)"
    by (cases c) (auto simp: io_fail_def split: option.splits)
  with o1 o3 show thesis using that by blast
qed

text \<open>A search that fails fails the call, with its message, and no event is returned.\<close>

lemma page_search_error:
  assumes "opens pToken earliest w" "clk s = (u, s1)"
    and "c = Some tc" "tc_Client tc = Some api"
    and "api_SearchEvents api (page_request types (start w) u (key w)) s1 = (Inl e, s2)"
  shows "list_events clk c earliest pToken s = (Inl (wrap_error search_msg e), s2)"
  using open_page_window [where clk = clk and s = s and msg = parse_msg, OF assms(1,2)] assms(3-5)
  by (simp add: list_events_page io_bind_def io_wrap_def)

text \<open>A conversion that fails fails the call.\<close>

lemma page_convert_error:
  assumes "opens pToken earliest w" "clk s = (u, s1)"
    and "c = Some tc" "tc_Client tc = Some api"
    and "api_SearchEvents api (page_request types (start w) u (key w)) s1 = (Inr (aes, lastKey), s2)"
    and "convert c aes s2 = (Inl e, s3)"
  shows "list_events clk c earliest pToken s = (Inl e, s3)"
  using open_page_window [where clk = clk and s = s and msg = parse_msg, OF assms(1,2)] assms(3-6)
  by (simp add: list_events_page io_bind_def io_wrap_def)

end

section \<open>Feeds with typed events\<close>

text \<open>
  What the log is relied on for: times the four digit year of the cursor can write, and
  continuation keys that are UTF-8 (a gRPC string always is).
\<close>

definition event_in_range :: "audit_event \<Rightarrow> bool" where
  [go_defs]: "event_in_range a \<longleftrightarrow> time_in_range (em_Time (EventMeta a))"

definition log_ok :: "'s client_ptr \<Rightarrow> bool" where
  "log_ok c \<longleftrightarrow> (\<forall>tc api req s aes k s'. c = Some tc \<longrightarrow> tc_Client tc = Some api \<longrightarrow>
     api_SearchEvents api req s = (Inr (aes, k), s') \<longrightarrow>
     list_all event_in_range aes \<and> valid_utf8 k)"

lemma zero_time_in_range [simp]: "time_in_range zero_time"
  by (simp add: time_in_range_def zero_time_def nanos_per_sec_def)

lemma open_page_windowE:
  assumes "opens pToken earliest w" "open_page clk msg pToken earliest s = (Inr (cursor, t, u), s')"
  shows "cursor = cursor_of w" "t = start w" "clk s = (u, s')"
proof -
  obtain u' s'' where c: "clk s = (u', s'')" by (cases "clk s")
  show "cursor = cursor_of w" "t = start w" "clk s = (u, s')"
    using open_page_window [where clk = clk and s = s and msg = msg, OF assms(1) c] assms(2) c
    by simp_all
qed

locale typed_feed = paged_feed list_events parse_msg search_msg types event_time convert
  for list_events :: "'s clock \<Rightarrow> 's client_ptr \<Rightarrow> timestamp option \<Rightarrow> stream_token option
        \<Rightarrow> ('s, event list \<times> stream_state) io"
    and parse_msg search_msg types event_time convert +
  fixes supported :: "event_type list"
  assumes convert_kinds:
      "convert c aes s = (Inr evs, s') \<Longrightarrow> e \<in> set evs \<Longrightarrow> payload_type (ev_Event e) \<in> set supported"
    and convert_times:
      "convert c aes s = (Inr evs, s') \<Longrightarrow> e \<in> set evs \<Longrightarrow>
         AsTime (ev_OccurredAt e) \<in> event_time ` set aes"
    and event_time_range: "event_in_range a \<Longrightarrow> time_in_range (event_time a)"
begin

lemma emitted_kinds:
  assumes "list_events clk c earliest pToken s = (Inr (evs, st), s')" "e \<in> set evs"
  shows "payload_type (ev_Event e) \<in> set supported"
  using assms(1) by (rule page_successE) (blast intro: convert_kinds assms(2))

text \<open>Every successful call on an open window is a \<open>page_step\<close> of it.\<close>

lemma page_moves:
  assumes "opens pToken earliest w" "log_ok c"
    and "list_events clk c earliest pToken s = (Inr (evs, st), s')"
  obtains ts lastKey where
    "token_window (ss_Cursor st) (page_step ts lastKey w)"
    "ss_HasMore st \<longleftrightarrow> lastKey \<noteq> []"
    "list_all time_in_range ts"
    "\<forall>e \<in> set evs. AsTime (ev_OccurredAt e) \<in> set ts"
  using assms(3)
proof (rule page_successE)
  fix cursor t u s1 tc api aes lastKey s2
  assume o: "open_page clk parse_msg pToken earliest s = (Inr (cursor, t, u), s1)"
    and c: "c = Some tc" "tc_Client tc = Some api"
    and search: "api_SearchEvents api (page_request types t u (LastKey cursor)) s1
      = (Inr (aes, lastKey), s2)"
    and conv: "convert c aes s2 = (Inr evs, s')"
    and more: "ss_HasMore st \<longleftrightarrow> lastKey \<noteq> []"
  note oe = open_page_windowE [OF assms(1) o]
  have "list_all event_in_range aes \<and> valid_utf8 lastKey"
    by (rule assms(2) [unfolded log_ok_def, rule_format, OF c search])
  then have ok: "list_all event_in_range aes" "valid_utf8 lastKey" by simp_all
  then have times: "list_all time_in_range (map event_time aes)"
    by (auto simp: list_all_iff event_time_range)
  have search': "api_SearchEvents api (page_request types (start w) u (key w)) s1
      = (Inr (aes, lastKey), s2)"
    using search oe(1,2) by simp
  from page_result [where clk = clk and s = s, OF assms(1) oe(3) c search' conv times ok(2)]
  obtain tok where "list_events clk c earliest pToken s =
      (Inr (evs, \<lparr>ss_Cursor = tok, ss_HasMore = (lastKey \<noteq> [])\<rparr>), s')"
    "token_window tok (page_step (map event_time aes) lastKey w)" .
  then have "token_window (ss_Cursor st) (page_step (map event_time aes) lastKey w)"
    using assms(3) by simp
  moreover have "\<forall>e \<in> set evs. AsTime (ev_OccurredAt e) \<in> set (map event_time aes)"
    using convert_times [OF conv] by simp
  ultimately show thesis using more times by (blast intro: that)
qed

end

end
