(* ===== verification/Usage_Feed.thy ===== *)
theory Usage_Feed
  imports Event_Page
begin

text \<open>
  \<open>pkg/connector/usage_event_feed.go\<close>: the feed of logins. Its \<open>ListEvents\<close> is the method's
  code; \<open>usage_feed\<close> shows that it keeps the contract of \<open>Event_Page\<close>.
\<close>

definition usageEventFeedID :: string where [go_defs]: "usageEventFeedID = ''teleport_usage_events''"
definition userLoginEventType :: string where [go_defs]: "userLoginEventType = ''user.login''"
definition teleportClusterResource :: string where
  [go_defs]: "teleportClusterResource = ''teleport_cluster''"

definition usage_EventFeedMetadata :: event_feed_metadata where
  [go_defs]: "usage_EventFeedMetadata =
     \<lparr>efm_Id = usageEventFeedID, efm_SupportedEventTypes = [EVENT_TYPE_USAGE]\<rparr>"

definition named_resource :: "string \<Rightarrow> string \<Rightarrow> resource" where
  [go_defs]: "named_resource resourceType name =
     \<lparr>res_Id = Some \<lparr>rid_ResourceType = resourceType, rid_Resource = name\<rparr>,
      res_ParentResourceId = None, res_DisplayName = name, res_Annotations = []\<rparr>"

fun convertToUsageEvent :: "audit_event \<Rightarrow> event option \<times> time" where
  "convertToUsageEvent (UserLogin m user success) =
     (let eventTime = em_Time m in
      if \<not> success then (None, eventTime)
      else
        let clusterName = (if em_ClusterName m = [] then ''teleport'' else em_ClusterName m)
        in (Some \<lparr>ev_Id = em_ID m, ev_OccurredAt = timestamp_New eventTime,
              ev_Event = UsageEvent (named_resource teleportClusterResource clusterName)
                (named_resource (rty_Id userResourceType) user)\<rparr>, eventTime))"
| "convertToUsageEvent _ = (None, zero_time)"

text \<open>The loop body, and the method.\<close>

definition usage_step ::
    "audit_event \<Rightarrow> event list \<times> event_page_cursor \<Rightarrow> event list \<times> event_page_cursor" where
  [go_defs]: "usage_step auditEvent rc =
     (let (evt, eventTime) = convertToUsageEvent auditEvent;
          cursor = updateLatestEvent eventTime (snd rc)
      in (case evt of Some e \<Rightarrow> fst rc @ [e] | None \<Rightarrow> fst rc, cursor))"

definition usage_ListEvents ::
    "'s clock \<Rightarrow> 's client_ptr \<Rightarrow> timestamp option \<Rightarrow> stream_token option
      \<Rightarrow> ('s, event list \<times> stream_state) io" where
  "usage_ListEvents clk c earliestEvent pToken =
     io_bind (unmarshalEventPageCursor clk pToken earliestEvent) (\<lambda>cursor.
     io_bind (io_lift (res_wrap ''baton-teleport: failed to parse start_at''
       (go_parse (StartAt cursor)))) (\<lambda>t.
     io_bind (now clk) (\<lambda>u.
     io_bind (io_wrap ''baton-teleport: failed to search usage events''
       (with_client c (\<lambda>api. api_SearchEvents api
         \<lparr>sr_From = t, sr_To = u, sr_Namespace = Namespace, sr_EventTypes = [userLoginEventType],
          sr_Limit = eventsPageSize, sr_Order = EventOrderAscending,
          sr_StartKey = LastKey cursor, sr_Search = []\<rparr>))) (\<lambda>(auditEvents, lastKey).
     let (result, cursor) = fold usage_step auditEvents ([], cursor);
         cursor = (if lastKey = [] then prepareNextSync cursor else cursor\<lparr>LastKey := lastKey\<rparr>)
     in io_lift (res_bind (marshal cursor) (\<lambda>marshalledToken.
          Inr (result, \<lparr>ss_Cursor = marshalledToken, ss_HasMore = (lastKey \<noteq> [])\<rparr>)))))))"

section \<open>The conversion\<close>

definition usage_events :: "audit_event list \<Rightarrow> event list" where
  "usage_events aes = List.map_filter (\<lambda>a. fst (convertToUsageEvent a)) aes"

lemma usage_events_simps [simp]:
  "usage_events [] = []"
  "usage_events (a # as) =
     (case fst (convertToUsageEvent a) of None \<Rightarrow> [] | Some e \<Rightarrow> [e]) @ usage_events as"
  by (simp_all add: usage_events_def List.map_filter_simps split: option.splits)

lemma fold_usage_step:
  "fold usage_step aes (res, c) =
     (res @ usage_events aes, fold updateLatestEvent (map (snd \<circ> convertToUsageEvent) aes) c)"
  by (induction aes arbitrary: res c)
    (simp_all add: usage_step_def split_beta Let_def split: option.splits)

lemma usage_event_type:
  "e \<in> set (usage_events aes) \<Longrightarrow> payload_type (ev_Event e) = EVENT_TYPE_USAGE"
proof (induction aes)
  case (Cons a aes)
  then show ?case by (cases a) (auto simp: Let_def split: if_splits)
qed simp

lemma usage_time_in_range:
  "convertToUsageEvent a = (evt, t) \<Longrightarrow> t = zero_time \<or> t = em_Time (EventMeta a)"
  by (cases a) (auto simp: Let_def split: if_splits)

interpretation usage_feed: paged_feed usage_ListEvents
  "''baton-teleport: failed to parse start_at''" "''baton-teleport: failed to search usage events''"
  "[userLoginEventType]" "snd \<circ> convertToUsageEvent" "\<lambda>_ aes. io_return (usage_events aes)"
proof
  show "usage_ListEvents clk c earliest pToken =
      io_bind (open_page clk ''baton-teleport: failed to parse start_at'' pToken earliest)
        (\<lambda>(cursor, t, u).
       io_bind (io_wrap ''baton-teleport: failed to search usage events'' (with_client c (\<lambda>api.
         api_SearchEvents api (page_request [userLoginEventType] t u (LastKey cursor)))))
        (\<lambda>(aes, lastKey).
       io_bind (io_return (usage_events aes)) (\<lambda>evs.
       io_lift (close_page lastKey evs
         (fold updateLatestEvent (map (snd \<circ> convertToUsageEvent) aes) cursor)))))"
    for clk :: "'a clock" and c earliest pToken
    by (simp add: usage_ListEvents_def open_page_def io_bind_assoc page_request_def
        close_page_def advance_cursor_def fold_usage_step Let_def split_beta cong del: if_weak_cong)
qed

lemma usage_event_occurred:
  "e \<in> set (usage_events aes) \<Longrightarrow>
     AsTime (ev_OccurredAt e) \<in> (snd \<circ> convertToUsageEvent) ` set aes"
proof (induction aes)
  case (Cons a aes)
  then show ?case by (cases a) (auto simp: Let_def split: if_splits)
qed simp

interpretation usage_feed: typed_feed usage_ListEvents
  "''baton-teleport: failed to parse start_at''" "''baton-teleport: failed to search usage events''"
  "[userLoginEventType]" "snd \<circ> convertToUsageEvent" "\<lambda>_ aes. io_return (usage_events aes)"
  "efm_SupportedEventTypes usage_EventFeedMetadata"
proof unfold_locales
  fix a :: audit_event
  show "event_in_range a \<Longrightarrow> time_in_range ((snd \<circ> convertToUsageEvent) a)"
    by (cases a) (auto simp: event_in_range_def Let_def)
qed (auto simp: io_return_def usage_EventFeedMetadata_def usage_event_type
      dest: usage_event_occurred [simplified])

section \<open>Properties\<close>

text \<open>The specification: one usage event per successful login, in the order of the log.\<close>

definition login_events :: "audit_event list \<Rightarrow> event list" where
  "login_events aes = concat (map (\<lambda>a. case a of
     UserLogin m user success \<Rightarrow>
       if success then
         [\<lparr>ev_Id = em_ID m, ev_OccurredAt = timestamp_New (em_Time m),
           ev_Event = UsageEvent
             (named_resource ''teleport_cluster''
               (if em_ClusterName m = [] then ''teleport'' else em_ClusterName m))
             (named_resource ''user'' user)\<rparr>]
       else []
   | _ \<Rightarrow> []) aes)"

definition login_time :: "audit_event \<Rightarrow> time" where
  "login_time a = (case a of UserLogin m user success \<Rightarrow> em_Time m | _ \<Rightarrow> zero_time)"

lemma login_events_eq: "usage_events aes = login_events aes"
proof (induction aes)
  case (Cons a aes)
  then show ?case
    by (cases a) (simp_all add: login_events_def Let_def teleportClusterResource_def)
qed (simp add: login_events_def)

lemma login_time_eq: "snd \<circ> convertToUsageEvent = login_time"
proof
  show "(snd \<circ> convertToUsageEvent) a = login_time a" for a
    by (cases a) (simp_all add: login_time_def Let_def)
qed

text \<open>
  C18: One call of the usage feed. It searches the logins from the lower bound of the window
  to now, in ascending order, at most 100, from the continuation key; it returns one usage
  event per successful login (the cluster as target, named teleport when the log leaves it
  out, the user as actor), in the order of the log; failed logins produce no event but move
  the window. The returned token stands for the window after the page, and \<open>HasMore\<close> tells
  whether the search left a continuation key.
\<close>

theorem usage_page:
  assumes "opens pToken earliest w" "clk s = (u, s1)" "c = Some tc" "tc_Client tc = Some api"
    and "api_SearchEvents api \<lparr>sr_From = start w, sr_To = u, sr_Namespace = ''default'',
        sr_EventTypes = [''user.login''], sr_Limit = 100, sr_Order = EventOrderAscending,
        sr_StartKey = key w, sr_Search = []\<rparr> s1 = (Inr (aes, lastKey), s2)"
    and "list_all time_in_range (map login_time aes)" "valid_utf8 lastKey"
  shows "\<exists>tok. usage_ListEvents clk c earliest pToken s =
      (Inr (login_events aes, \<lparr>ss_Cursor = tok, ss_HasMore = (lastKey \<noteq> [])\<rparr>), s2)
    \<and> token_window tok (page_step (map login_time aes) lastKey w)"
proof -
  have search: "api_SearchEvents api (page_request [userLoginEventType] (start w) u (key w)) s1
      = (Inr (aes, lastKey), s2)"
    using assms(5) by (simp add: page_request_def Namespace_def userLoginEventType_def eventsPageSize_def)
  have conv: "io_return (usage_events aes) s2 = (Inr (login_events aes), s2)"
    by (simp add: io_return_def login_events_eq)
  show ?thesis
    by (rule usage_feed.page_result [where clk = clk and s = s, OF assms(1-4) search conv])
      (use assms(6,7) in \<open>auto simp: login_time_eq\<close>)
qed

definition login_api :: "nat teleport_api" where
  "login_api = offline_api\<lparr>api_SearchEvents := (\<lambda>r. io_return
     ([UserLogin \<lparr>em_ID = ''1'', em_Time = 20, em_ClusterName = [], em_Type = []\<rparr> ''alice'' True,
       UserLogin \<lparr>em_ID = ''2'', em_Time = 30, em_ClusterName = ''prod'', em_Type = []\<rparr> ''bob'' False], ''next''))\<rparr>"

theorem usage_page_witness:
  "\<exists>tok. usage_ListEvents (\<lambda>s. (40, Suc s)) (client_of login_api) (Some (Timestamp 0 5)) None 0 =
      (Inr ([\<lparr>ev_Id = ''1'', ev_OccurredAt = Timestamp 0 20,
         ev_Event = UsageEvent (named_resource ''teleport_cluster'' ''teleport'')
           (named_resource ''user'' ''alice'')\<rparr>],
       \<lparr>ss_Cursor = tok, ss_HasMore = True\<rparr>), 1)
    \<and> token_window tok \<lparr>start = 5, seen = 30, key = ''next''\<rparr>"
proof -
  let ?w = "\<lparr>start = 5, seen = 5, key = []\<rparr>"
  let ?aes = "[UserLogin \<lparr>em_ID = ''1'', em_Time = 20, em_ClusterName = [], em_Type = []\<rparr> ''alice'' True,
       UserLogin \<lparr>em_ID = ''2'', em_Time = 30, em_ClusterName = ''prod'', em_Type = []\<rparr> ''bob'' False]"
  have r: "time_in_range 5" "list_all time_in_range (map login_time ?aes)" "valid_utf8 ''next''"
    by (simp_all add: login_time_def time_in_range_def nanos_per_sec_def) code_simp
  have "opens None (Some (Timestamp 0 5)) ?w"
    using r(1) by (simp add: opens_def window_ok_def AsTime_def nanos_per_sec_def)
  from usage_page [OF this, of "\<lambda>s. (40, Suc s)" 0 40 1 "client_of login_api" _ login_api ?aes "''next''" 1]
  have "\<exists>tok. usage_ListEvents (\<lambda>s. (40, Suc s)) (client_of login_api) (Some (Timestamp 0 5)) None 0 =
      (Inr (login_events ?aes, \<lparr>ss_Cursor = tok, ss_HasMore = True\<rparr>), 1)
    \<and> token_window tok (page_step (map login_time ?aes) ''next'' ?w)"
    using r by (simp add: client_of_def login_api_def io_return_def)
  moreover have "page_step (map login_time ?aes) ''next'' ?w = \<lparr>start = 5, seen = 30, key = ''next''\<rparr>"
    by (simp add: page_step_def see_def login_time_def zero_time_def nanos_per_sec_def)
  ultimately show ?thesis
    by (simp add: login_events_def timestamp_New_def nanos_per_sec_def)
qed

end
