(* ===== verification/Audit_Feed.thy ===== *)
theory Audit_Feed
  imports Event_Page
begin

text \<open>
  \<open>pkg/connector/audit_event_feed.go\<close>: the feed of resource changes, grants and revokes. The
  definitions follow the file; \<open>audit_feed\<close> shows that \<open>ListEvents\<close>, whose loop resolves
  access requests against the service while it updates the cursor, keeps the contract of
  \<open>Event_Page\<close>.
\<close>

section \<open>Constants\<close>

definition auditEventFeedID :: string where [go_defs]: "auditEventFeedID = ''teleport_audit_events''"

definition userCreateEventType :: string where [go_defs]: "userCreateEventType = ''user.create''"
definition userUpdateEventType :: string where [go_defs]: "userUpdateEventType = ''user.update''"
definition roleCreateEventType :: string where [go_defs]: "roleCreateEventType = ''role.created''"
definition roleUpdateEventType :: string where [go_defs]: "roleUpdateEventType = ''role.updated''"
definition accessRequestReviewEventType :: string where
  [go_defs]: "accessRequestReviewEventType = ''access_request.review''"
definition accessRequestUpdateEventType :: string where
  [go_defs]: "accessRequestUpdateEventType = ''access_request.update''"
definition accessRequestExpireEventType :: string where
  [go_defs]: "accessRequestExpireEventType = ''access_request.expire''"
definition lockCreateEventType :: string where [go_defs]: "lockCreateEventType = ''lock.created''"
definition lockDeleteEventType :: string where [go_defs]: "lockDeleteEventType = ''lock.deleted''"

definition resourceChangeEventTypes :: "string list" where
  [go_defs]: "resourceChangeEventTypes =
     [userCreateEventType, userUpdateEventType, roleCreateEventType, roleUpdateEventType,
      accessRequestReviewEventType, accessRequestUpdateEventType, accessRequestExpireEventType,
      lockCreateEventType, lockDeleteEventType]"

definition audit_EventFeedMetadata :: event_feed_metadata where
  [go_defs]: "audit_EventFeedMetadata =
     \<lparr>efm_Id = auditEventFeedID,
      efm_SupportedEventTypes =
        [EVENT_TYPE_RESOURCE_CHANGE, EVENT_TYPE_CREATE_GRANT, EVENT_TYPE_CREATE_REVOKE]\<rparr>"

section \<open>Constructors of events\<close>

definition makeResourceChangeEvent :: "string \<Rightarrow> time \<Rightarrow> string \<Rightarrow> string \<Rightarrow> event" where
  [go_defs]: "makeResourceChangeEvent eid t resourceType resourceName =
     \<lparr>ev_Id = eid, ev_OccurredAt = timestamp_New t,
      ev_Event = ResourceChangeEvent
        \<lparr>rid_ResourceType = resourceType, rid_Resource = resourceName\<rparr>\<rparr>"

definition roleMembershipEntitlementAndPrincipal ::
    "string \<Rightarrow> string \<Rightarrow> entitlement \<times> resource" where
  [go_defs]: "roleMembershipEntitlementAndPrincipal roleName userName =
     (let roleResource =
        \<lparr>res_Id = Some \<lparr>rid_ResourceType = rty_Id roleResourceType, rid_Resource = roleName\<rparr>,
         res_ParentResourceId = None, res_DisplayName = roleName, res_Annotations = []\<rparr>
      in (NewAssignmentEntitlement roleResource roleMembership [],
          \<lparr>res_Id = Some \<lparr>rid_ResourceType = rty_Id userResourceType, rid_Resource = userName\<rparr>,
           res_ParentResourceId = None, res_DisplayName = userName, res_Annotations = []\<rparr>))"

definition makeCreateGrantEvent :: "string \<Rightarrow> time \<Rightarrow> string \<Rightarrow> string \<Rightarrow> event" where
  [go_defs]: "makeCreateGrantEvent eid t roleName userName =
     (let (entitlement, pr) = roleMembershipEntitlementAndPrincipal roleName userName
      in \<lparr>ev_Id = eid, ev_OccurredAt = timestamp_New t, ev_Event = CreateGrantEvent entitlement pr\<rparr>)"

definition makeCreateRevokeEvent :: "string \<Rightarrow> time \<Rightarrow> string \<Rightarrow> string \<Rightarrow> event" where
  [go_defs]: "makeCreateRevokeEvent eid t roleName userName =
     (let (entitlement, pr) = roleMembershipEntitlementAndPrincipal roleName userName
      in \<lparr>ev_Id = eid, ev_OccurredAt = timestamp_New t, ev_Event = CreateRevokeEvent entitlement pr\<rparr>)"

text \<open>
  The loop both the user events and the access requests run: one event per named role, with
  the id \<open>fmt.Sprintf("%s:role:%s", id, roleName)\<close>.
\<close>

definition role_event_id :: "string \<Rightarrow> string \<Rightarrow> string" where
  [go_defs]: "role_event_id eid roleName = eid @ '':role:'' @ roleName"

fun role_events ::
    "(string \<Rightarrow> time \<Rightarrow> string \<Rightarrow> string \<Rightarrow> event) \<Rightarrow> string \<Rightarrow> time \<Rightarrow> string \<Rightarrow> string list
      \<Rightarrow> event list" where
  "role_events mk eid t userName [] = []"
| "role_events mk eid t userName (roleName # roles) =
     (if roleName = [] then role_events mk eid t userName roles
      else mk (role_event_id eid roleName) t roleName userName
             # role_events mk eid t userName roles)"

section \<open>Conversion of one audit event\<close>

definition convertUserEvent ::
    "string \<Rightarrow> time \<Rightarrow> string \<Rightarrow> string list \<Rightarrow> event list \<times> time" where
  [go_defs]: "convertUserEvent eid t userName roles =
     (if userName = [] then ([], zero_time)
      else (makeResourceChangeEvent eid t (rty_Id userResourceType) userName
              # role_events makeCreateGrantEvent eid t userName roles, t))"

definition singleResourceChange ::
    "string \<Rightarrow> time \<Rightarrow> string \<Rightarrow> string \<Rightarrow> event list \<times> time" where
  [go_defs]: "singleResourceChange eid t resourceType resourceName =
     (if resourceName = [] then ([], zero_time)
      else ([makeResourceChangeEvent eid t resourceType resourceName], t))"

definition convertLockEvent :: "string \<Rightarrow> time \<Rightarrow> lock_target \<Rightarrow> event list \<times> time" where
  [go_defs]: "convertLockEvent eid t target =
     (if lt_User target = [] then ([], zero_time)
      else ([makeResourceChangeEvent eid t (rty_Id userResourceType) (lt_User target)], t))"

fun convertAuditEvent :: "audit_event \<Rightarrow> event list \<times> time" where
  "convertAuditEvent (UserCreate m name roles) = convertUserEvent (em_ID m) (em_Time m) name roles"
| "convertAuditEvent (UserUpdate m name roles) = convertUserEvent (em_ID m) (em_Time m) name roles"
| "convertAuditEvent (RoleCreate m name) =
     singleResourceChange (em_ID m) (em_Time m) (rty_Id roleResourceType) name"
| "convertAuditEvent (RoleUpdate m name) =
     singleResourceChange (em_ID m) (em_Time m) (rty_Id roleResourceType) name"
| "convertAuditEvent (LockCreate m target) = convertLockEvent (em_ID m) (em_Time m) target"
| "convertAuditEvent (LockDelete m target) = convertLockEvent (em_ID m) (em_Time m) target"
| "convertAuditEvent _ = ([], zero_time)"

text \<open>
  The state of an access request decides what it grants or revokes; \<open>None\<close> as client is the
  nil check of the code. The result is \<open>(events, time, handled)\<close>.
\<close>

definition request_events :: "string \<Rightarrow> string \<Rightarrow> time \<Rightarrow> string \<Rightarrow> string list \<Rightarrow> event list" where
  [go_defs]: "request_events state eid t userName roles =
     (if state = ''APPROVED'' then role_events makeCreateGrantEvent eid t userName roles
      else if state = ''EXPIRED'' then role_events makeCreateRevokeEvent eid t userName roles
      else [])"

fun tryConvertAccessRequestStateChange ::
    "'s client_ptr \<Rightarrow> audit_event \<Rightarrow> ('s, event list \<times> time \<times> bool) io" where
  "tryConvertAccessRequestStateChange c (AccessRequestCreate m user roles0 requestID state) =
     (if user \<noteq> [] then io_return ([], zero_time, False)
      else if requestID = [] then io_return ([], em_Time m, True)
      else if c = None then io_return ([], em_Time m, True)
      else io_bind (io_wrap (''baton-teleport: failed to resolve access request '' @ requestID)
             (with_client c (\<lambda>api. api_GetAccessRequests api requestID))) (\<lambda>requests.
        case requests of
          [] \<Rightarrow> io_return ([], em_Time m, True)
        | req # _ \<Rightarrow>
            if ar_User req = [] then io_return ([], em_Time m, True)
            else io_return
              (request_events state (em_ID m) (em_Time m) (ar_User req) (ar_Roles req),
               em_Time m, True)))"
| "tryConvertAccessRequestStateChange c _ = io_return ([], zero_time, False)"

section \<open>\<open>ListEvents\<close>\<close>

fun audit_loop ::
    "'s client_ptr \<Rightarrow> audit_event list \<Rightarrow> event list \<times> event_page_cursor
      \<Rightarrow> ('s, event list \<times> event_page_cursor) io" where
  "audit_loop c [] (result, cursor) = io_return (result, cursor)"
| "audit_loop c (auditEvent # rest) (result, cursor) =
     io_bind (tryConvertAccessRequestStateChange c auditEvent) (\<lambda>(derived, eventTime, ok).
       if ok then audit_loop c rest (result @ derived, updateLatestEvent eventTime cursor)
       else let (derived, eventTime) = convertAuditEvent auditEvent
            in audit_loop c rest (result @ derived, updateLatestEvent eventTime cursor))"

definition audit_ListEvents ::
    "'s clock \<Rightarrow> 's client_ptr \<Rightarrow> timestamp option \<Rightarrow> stream_token option
      \<Rightarrow> ('s, event list \<times> stream_state) io" where
  "audit_ListEvents clk c earliestEvent pToken =
     io_bind (unmarshalEventPageCursor clk pToken earliestEvent) (\<lambda>cursor.
     io_bind (io_lift (res_wrap ''baton-teleport: failed to parse audit start_at''
       (go_parse (StartAt cursor)))) (\<lambda>t.
     io_bind (now clk) (\<lambda>u.
     io_bind (io_wrap ''baton-teleport: failed to search audit events''
       (with_client c (\<lambda>api. api_SearchEvents api
         \<lparr>sr_From = t, sr_To = u, sr_Namespace = Namespace,
          sr_EventTypes = resourceChangeEventTypes, sr_Limit = eventsPageSize,
          sr_Order = EventOrderAscending, sr_StartKey = LastKey cursor,
          sr_Search = []\<rparr>))) (\<lambda>(auditEvents, lastKey).
     io_bind (audit_loop c auditEvents ([], cursor)) (\<lambda>(result, cursor).
     let cursor = (if lastKey = [] then prepareNextSync cursor else cursor\<lparr>LastKey := lastKey\<rparr>)
     in io_lift (res_bind (marshal cursor) (\<lambda>marshalledCursor.
          Inr (result, \<lparr>ss_Cursor = marshalledCursor, ss_HasMore = (lastKey \<noteq> [])\<rparr>))))))))"

section \<open>The loop as a conversion of the page\<close>

text \<open>The time an event moves the cursor to does not depend on what the lookups return.\<close>

fun audit_event_time :: "audit_event \<Rightarrow> time" where
  "audit_event_time (AccessRequestCreate m user roles0 requestID state) =
     (if user = [] then em_Time m else zero_time)"
| "audit_event_time a = snd (convertAuditEvent a)"

definition audit_convert :: "'s client_ptr \<Rightarrow> audit_event \<Rightarrow> ('s, event list) io" where
  [go_defs]: "audit_convert c a = io_bind (tryConvertAccessRequestStateChange c a)
     (\<lambda>(derived, eventTime, ok). io_return (if ok then derived else fst (convertAuditEvent a)))"

definition audit_page :: "'s client_ptr \<Rightarrow> audit_event list \<Rightarrow> ('s, event list) io" where
  "audit_page c aes = io_bind (io_traverse (audit_convert c) aes) (\<lambda>evss. io_return (concat evss))"

lemma tryConvert_time:
  assumes "tryConvertAccessRequestStateChange c a s = (Inr (derived, t, ok), s')"
  shows "(if ok then t else snd (convertAuditEvent a)) = audit_event_time a"
  using assms
  by (cases a) (auto simp: io_return_def elim!: io_bind_InrE split: if_splits list.splits)

lemma audit_loop_page:
  "audit_loop c aes (res, cur) =
     io_bind (audit_page c aes) (\<lambda>evs.
       io_return (res @ evs, fold updateLatestEvent (map audit_event_time aes) cur))"
proof (induction aes arbitrary: res cur)
  case Nil
  then show ?case by (simp add: audit_page_def)
next
  case (Cons a aes)
  let ?T = "tryConvertAccessRequestStateChange c a"
  have "audit_loop c (a # aes) (res, cur) = io_bind ?T (\<lambda>(derived, t, ok).
      io_bind (audit_page c aes) (\<lambda>evs. io_return
        (res @ (if ok then derived else fst (convertAuditEvent a)) @ evs,
         fold updateLatestEvent (map audit_event_time aes)
           (updateLatestEvent (if ok then t else snd (convertAuditEvent a)) cur))))"
    by (simp add: Cons.IH split_beta Let_def cong: if_cong)
      (rule arg_cong [where f = "io_bind ?T"]; auto simp: fun_eq_iff)
  also have "\<dots> = io_bind ?T (\<lambda>(derived, t, ok).
      io_bind (audit_page c aes) (\<lambda>evs. io_return
        (res @ (if ok then derived else fst (convertAuditEvent a)) @ evs,
         fold updateLatestEvent (map audit_event_time (a # aes)) cur)))"
    by (rule ext, rule io_bind_cong_on) (auto dest!: tryConvert_time)
  also have "\<dots> = io_bind (audit_page c (a # aes)) (\<lambda>evs.
       io_return (res @ evs, fold updateLatestEvent (map audit_event_time (a # aes)) cur))"
    by (simp add: audit_page_def audit_convert_def io_bind_assoc case_prod_unfold)
  finally show ?case .
qed

interpretation audit_feed: paged_feed audit_ListEvents
  "''baton-teleport: failed to parse audit start_at''"
  "''baton-teleport: failed to search audit events''"
  resourceChangeEventTypes audit_event_time audit_page
proof
  show "audit_ListEvents clk c earliest pToken =
      io_bind (open_page clk ''baton-teleport: failed to parse audit start_at'' pToken earliest)
        (\<lambda>(cursor, t, u).
       io_bind (io_wrap ''baton-teleport: failed to search audit events'' (with_client c (\<lambda>api.
         api_SearchEvents api (page_request resourceChangeEventTypes t u (LastKey cursor)))))
        (\<lambda>(aes, lastKey).
       io_bind (audit_page c aes) (\<lambda>evs.
       io_lift (close_page lastKey evs
         (fold updateLatestEvent (map audit_event_time aes) cursor)))))"
    for clk :: "'a clock" and c earliest pToken
    by (simp add: audit_ListEvents_def open_page_def io_bind_assoc page_request_def
        close_page_def advance_cursor_def audit_loop_page Let_def split_beta cong del: if_weak_cong)
qed

section \<open>The events of a page\<close>

lemma role_events_map:
  "role_events mk eid t user roles =
     map (\<lambda>r. mk (role_event_id eid r) t r user) (filter (\<lambda>r. r \<noteq> []) roles)"
  by (induction roles) simp_all

lemma occurred_at [simp]:
  "ev_OccurredAt (makeResourceChangeEvent eid t rt n) = timestamp_New t"
  "ev_OccurredAt (makeCreateGrantEvent eid t r u) = timestamp_New t"
  "ev_OccurredAt (makeCreateRevokeEvent eid t r u) = timestamp_New t"
  by (simp_all add: makeResourceChangeEvent_def makeCreateGrantEvent_def
      makeCreateRevokeEvent_def split_beta Let_def)

lemma event_kind [simp]:
  "payload_type (ev_Event (makeResourceChangeEvent eid t rt n)) = EVENT_TYPE_RESOURCE_CHANGE"
  "payload_type (ev_Event (makeCreateGrantEvent eid t r u)) = EVENT_TYPE_CREATE_GRANT"
  "payload_type (ev_Event (makeCreateRevokeEvent eid t r u)) = EVENT_TYPE_CREATE_REVOKE"
  by (simp_all add: makeResourceChangeEvent_def makeCreateGrantEvent_def
      makeCreateRevokeEvent_def split_beta Let_def)

lemma event_id [simp]:
  "ev_Id (makeResourceChangeEvent eid t rt n) = eid"
  "ev_Id (makeCreateGrantEvent eid t r u) = eid"
  "ev_Id (makeCreateRevokeEvent eid t r u) = eid"
  by (simp_all add: makeResourceChangeEvent_def makeCreateGrantEvent_def
      makeCreateRevokeEvent_def split_beta Let_def)

lemmas convert_one_defs = convertUserEvent_def singleResourceChange_def convertLockEvent_def
  role_events_map request_events_def

lemma convertAuditEvent_kinds:
  "e \<in> set (fst (convertAuditEvent a)) \<Longrightarrow>
     payload_type (ev_Event e) \<in> {EVENT_TYPE_RESOURCE_CHANGE, EVENT_TYPE_CREATE_GRANT}"
  by (cases a) (auto simp: convert_one_defs split: if_splits)

lemma convertAuditEvent_occurred:
  "e \<in> set (fst (convertAuditEvent a)) \<Longrightarrow>
     ev_OccurredAt e = timestamp_New (snd (convertAuditEvent a))"
  by (cases a) (auto simp: convert_one_defs split: if_splits)

lemma convertAuditEvent_time:
  "snd (convertAuditEvent a) = zero_time \<or>
     snd (convertAuditEvent a) = em_Time (EventMeta a)"
  by (cases a) (auto simp: convert_one_defs)

lemma tryConvert_events:
  assumes "tryConvertAccessRequestStateChange c a s = (Inr (derived, t, ok), s')" "e \<in> set derived"
  shows "payload_type (ev_Event e) \<in> {EVENT_TYPE_CREATE_GRANT, EVENT_TYPE_CREATE_REVOKE} \<and>
    ev_OccurredAt e = timestamp_New t \<and> ok"
  using assms
  by (cases a)
    (auto simp: io_return_def convert_one_defs elim!: io_bind_InrE split: if_splits list.splits)

lemma audit_convert_events:
  assumes "audit_convert c a s = (Inr evs, s')" "e \<in> set evs"
  shows "payload_type (ev_Event e) \<in> set (efm_SupportedEventTypes audit_EventFeedMetadata)"
    and "AsTime (ev_OccurredAt e) = audit_event_time a"
proof -
  from assms(1) obtain derived t ok where
    T: "tryConvertAccessRequestStateChange c a s = (Inr (derived, t, ok), s')"
    and evs: "evs = (if ok then derived else fst (convertAuditEvent a))"
    by (auto simp: audit_convert_def io_return_def elim!: io_bind_InrE)
  note time = tryConvert_time [OF T, symmetric]
  show "payload_type (ev_Event e) \<in> set (efm_SupportedEventTypes audit_EventFeedMetadata)"
    using tryConvert_events [OF T] convertAuditEvent_kinds [of e a] assms(2) evs
    by (auto simp: audit_EventFeedMetadata_def split: if_splits)
  show "AsTime (ev_OccurredAt e) = audit_event_time a"
    using tryConvert_events [OF T] convertAuditEvent_occurred [of e a] assms(2) evs
    by (auto simp: time split: if_splits)
qed

lemma audit_page_event:
  assumes "audit_page c aes s = (Inr evs, s')" "e \<in> set evs"
  obtains a s1 s2 evs' where "a \<in> set aes" "audit_convert c a s1 = (Inr evs', s2)" "e \<in> set evs'"
proof -
  from assms(1) [unfolded audit_page_def]
  obtain evss where tr: "io_traverse (audit_convert c) aes s = (Inr evss, s')" and "evs = concat evss"
    by (rule io_bind_InrE) (simp add: io_return_def)
  with assms(2) obtain evs' where "evs' \<in> set evss" "e \<in> set evs'" by auto
  from tr this(1) show thesis
    by (rule io_traverse_InrE) (rule that [OF _ _ \<open>e \<in> set evs'\<close>])
qed

interpretation audit_feed: typed_feed audit_ListEvents
  "''baton-teleport: failed to parse audit start_at''"
  "''baton-teleport: failed to search audit events''"
  resourceChangeEventTypes audit_event_time audit_page
  "efm_SupportedEventTypes audit_EventFeedMetadata"
proof unfold_locales
  fix c :: "'a client_ptr" and aes s evs s' e
  assume *: "audit_page c aes s = (Inr evs, s')" "e \<in> set evs"
  show "payload_type (ev_Event e) \<in> set (efm_SupportedEventTypes audit_EventFeedMetadata)"
    by (rule audit_page_event [OF *]) (rule audit_convert_events)
  show "AsTime (ev_OccurredAt e) \<in> audit_event_time ` set aes"
    by (rule audit_page_event [OF *]) (auto dest: audit_convert_events(2))
next
  fix a :: audit_event
  assume "event_in_range a"
  then show "time_in_range (audit_event_time a)"
    using convertAuditEvent_time [of a]
    by (cases a) (auto simp: event_in_range_def)
qed

section \<open>Properties\<close>

text \<open>
  The specification of the feed on one audit event, for a service on which looking up an
  access request by id has the result \<open>look\<close>.
\<close>

definition membership_entitlement :: "string \<Rightarrow> entitlement" where
  "membership_entitlement r =
     \<lparr>ent_Resource = Some (\<lparr>res_Id = Some \<lparr>rid_ResourceType = ''role'', rid_Resource = r\<rparr>,
        res_ParentResourceId = None, res_DisplayName = r, res_Annotations = []\<rparr>),
      ent_Id = ''role:'' @ r @ '':member'', ent_DisplayName = ''member'', ent_Description = [],
      ent_GrantableTo = [], ent_Purpose = PURPOSE_VALUE_ASSIGNMENT, ent_Slug = ''member''\<rparr>"

definition user_principal :: "string \<Rightarrow> resource" where
  "user_principal u = \<lparr>res_Id = Some \<lparr>rid_ResourceType = ''user'', rid_Resource = u\<rparr>,
     res_ParentResourceId = None, res_DisplayName = u, res_Annotations = []\<rparr>"

definition change_spec :: "event_metadata \<Rightarrow> string \<Rightarrow> string \<Rightarrow> event list" where
  "change_spec m rt n = (if n = [] then [] else
     [\<lparr>ev_Id = em_ID m, ev_OccurredAt = timestamp_New (em_Time m),
       ev_Event = ResourceChangeEvent \<lparr>rid_ResourceType = rt, rid_Resource = n\<rparr>\<rparr>])"

definition roles_spec ::
    "(entitlement \<Rightarrow> resource \<Rightarrow> event_payload) \<Rightarrow> event_metadata \<Rightarrow> string \<Rightarrow> string list \<Rightarrow> event list" where
  "roles_spec payload m u roles = (if u = [] then [] else
     map (\<lambda>r. \<lparr>ev_Id = em_ID m @ '':role:'' @ r, ev_OccurredAt = timestamp_New (em_Time m),
         ev_Event = payload (membership_entitlement r) (user_principal u)\<rparr>)
       (filter (\<lambda>r. r \<noteq> []) roles))"

fun audit_spec :: "(string \<Rightarrow> access_request list) \<Rightarrow> audit_event \<Rightarrow> event list" where
  "audit_spec look (UserCreate m n roles) = change_spec m ''user'' n @ roles_spec CreateGrantEvent m n roles"
| "audit_spec look (UserUpdate m n roles) = change_spec m ''user'' n @ roles_spec CreateGrantEvent m n roles"
| "audit_spec look (RoleCreate m n) = change_spec m ''role'' n"
| "audit_spec look (RoleUpdate m n) = change_spec m ''role'' n"
| "audit_spec look (LockCreate m l) = change_spec m ''user'' (lt_User l)"
| "audit_spec look (LockDelete m l) = change_spec m ''user'' (lt_User l)"
| "audit_spec look (AccessRequestCreate m user rs rid state) =
     (if user \<noteq> [] \<or> rid = [] \<or> look rid = [] then []
      else let req = hd (look rid) in
        if state = ''APPROVED'' then roles_spec CreateGrantEvent m (ar_User req) (ar_Roles req)
        else if state = ''EXPIRED'' then roles_spec CreateRevokeEvent m (ar_User req) (ar_Roles req)
        else [])"
| "audit_spec look _ = []"

text \<open>The instant an event moves the window to: none for an event that names nothing.\<close>

fun audit_time_spec :: "audit_event \<Rightarrow> time" where
  "audit_time_spec (UserCreate m n roles) = (if n = [] then zero_time else em_Time m)"
| "audit_time_spec (UserUpdate m n roles) = (if n = [] then zero_time else em_Time m)"
| "audit_time_spec (RoleCreate m n) = (if n = [] then zero_time else em_Time m)"
| "audit_time_spec (RoleUpdate m n) = (if n = [] then zero_time else em_Time m)"
| "audit_time_spec (LockCreate m l) = (if lt_User l = [] then zero_time else em_Time m)"
| "audit_time_spec (LockDelete m l) = (if lt_User l = [] then zero_time else em_Time m)"
| "audit_time_spec (AccessRequestCreate m user rs rid state) =
     (if user = [] then em_Time m else zero_time)"
| "audit_time_spec _ = zero_time"

lemma audit_time_spec_eq: "audit_event_time a = audit_time_spec a"
  by (cases a) (simp_all add: convert_one_defs)

lemma make_spec:
  "makeCreateGrantEvent eid t r u = \<lparr>ev_Id = eid, ev_OccurredAt = timestamp_New t,
     ev_Event = CreateGrantEvent (membership_entitlement r) (user_principal u)\<rparr>"
  "makeCreateRevokeEvent eid t r u = \<lparr>ev_Id = eid, ev_OccurredAt = timestamp_New t,
     ev_Event = CreateRevokeEvent (membership_entitlement r) (user_principal u)\<rparr>"
  by (simp_all add: makeCreateGrantEvent_def makeCreateRevokeEvent_def Let_def
      roleMembershipEntitlementAndPrincipal_def membership_entitlement_def user_principal_def
      NewAssignmentEntitlement_def NewEntitlementID_def roleMembership_def)

lemma role_events_spec:
  "u \<noteq> [] \<Longrightarrow> role_events makeCreateGrantEvent (em_ID m) (em_Time m) u roles =
     roles_spec CreateGrantEvent m u roles"
  "u \<noteq> [] \<Longrightarrow> role_events makeCreateRevokeEvent (em_ID m) (em_Time m) u roles =
     roles_spec CreateRevokeEvent m u roles"
  by (simp_all add: role_events_map roles_spec_def make_spec role_event_id_def)

lemma convertAuditEvent_spec:
  "(\<And>m u rs rid st. a \<noteq> AccessRequestCreate m u rs rid st) \<Longrightarrow>
     fst (convertAuditEvent a) = audit_spec look a"
  by (cases a; simp add: convertUserEvent_def singleResourceChange_def convertLockEvent_def
      change_spec_def makeResourceChangeEvent_def role_events_spec)
    (simp_all add: roles_spec_def)

definition lookups :: "'s teleport_api \<Rightarrow> (string \<Rightarrow> access_request list) \<Rightarrow> bool" where
  "lookups api look \<longleftrightarrow> (\<forall>rid s. api_GetAccessRequests api rid s = (Inr (look rid), s))"

lemma audit_convert_spec:
  assumes "c = Some tc" "tc_Client tc = Some api" "lookups api look"
  shows "audit_convert c a s = (Inr (audit_spec look a), s)"
proof (cases a)
  case (AccessRequestCreate m u rs rid st)
  have w: "io_wrap msg (with_client c (\<lambda>api. api_GetAccessRequests api rid)) = io_return (look rid)" for msg
    using assms by (simp add: io_wrap_def io_return_def lookups_def fun_eq_iff)
  have c: "c \<noteq> None" using assms(1) by simp
  show ?thesis
    using c
    by (auto simp: AccessRequestCreate audit_convert_def w request_events_def role_events_spec
        io_return_def roles_spec_def Let_def neq_Nil_conv io_bind_return [unfolded io_return_def]
        split: list.splits)
qed (use convertAuditEvent_spec [of a look] in
    \<open>simp_all add: audit_convert_def io_return_def io_bind_def\<close>)

lemma audit_page_spec:
  assumes "c = Some tc" "tc_Client tc = Some api" "lookups api look"
  shows "audit_page c aes s = (Inr (concat (map (audit_spec look) aes)), s)"
proof -
  have "io_traverse (audit_convert c) aes s = (Inr (map (audit_spec look) aes), s)"
    by (rule io_traverse_total) (rule audit_convert_spec [OF assms])
  then show ?thesis by (simp add: audit_page_def io_bind_def io_return_def)
qed

text \<open>
  C2: One call of the audit feed, on a service whose access request lookups return \<open>look\<close>. It
  searches the nine event types from the lower bound of the window to now, in ascending
  order, at most 100, from the continuation key, and returns what \<open>audit_spec\<close> says of each
  event, in order: a resource change per named user, role or locked user, a grant per named
  role of a created or updated user and of an approved request, a revoke per named role of an
  expired one. The token stands for the window after the page, moved by \<open>audit_time_spec\<close>.
\<close>

theorem audit_page_meets_spec:
  assumes "opens pToken earliest w" "clk s = (u, s1)" "c = Some tc" "tc_Client tc = Some api"
    and "lookups api look"
    and "api_SearchEvents api \<lparr>sr_From = start w, sr_To = u, sr_Namespace = ''default'',
        sr_EventTypes = resourceChangeEventTypes, sr_Limit = 100, sr_Order = EventOrderAscending,
        sr_StartKey = key w, sr_Search = []\<rparr> s1 = (Inr (aes, lastKey), s2)"
    and "list_all event_in_range aes" "valid_utf8 lastKey"
  shows "\<exists>tok. audit_ListEvents clk c earliest pToken s =
      (Inr (concat (map (audit_spec look) aes), \<lparr>ss_Cursor = tok, ss_HasMore = (lastKey \<noteq> [])\<rparr>), s2)
    \<and> token_window tok (page_step (map audit_time_spec aes) lastKey w)"
proof -
  have search: "api_SearchEvents api (page_request resourceChangeEventTypes (start w) u (key w)) s1
      = (Inr (aes, lastKey), s2)"
    using assms(6) by (simp add: page_request_def Namespace_def eventsPageSize_def)
  have times: "map audit_event_time aes = map audit_time_spec aes"
    by (simp add: audit_time_spec_eq)
  have range: "list_all time_in_range (map audit_event_time aes)"
    using assms(7) by (auto simp: list_all_iff intro: audit_feed.event_time_range)
  show ?thesis
    by (rule audit_feed.page_result [where clk = clk and s = s,
          OF assms(1-4) search audit_page_spec [OF assms(3-5)] range assms(8)])
      (auto simp: times)
qed

definition audit_api :: "nat teleport_api" where
  "audit_api = offline_api\<lparr>
     api_SearchEvents := (\<lambda>r. io_return
       ([UserCreate \<lparr>em_ID = ''1'', em_Time = 20, em_ClusterName = [], em_Type = []\<rparr> ''al'' [''dev'', []],
         AccessRequestCreate \<lparr>em_ID = ''2'', em_Time = 30, em_ClusterName = [], em_Type = []\<rparr> [] [] ''q'' ''EXPIRED''], [])),
     api_GetAccessRequests := (\<lambda>rid. io_return [\<lparr>ar_User = ''bo'', ar_Roles = [''ops'']\<rparr>])\<rparr>"

theorem audit_page_meets_spec_witness:
  "\<exists>tok. audit_ListEvents (\<lambda>s. (40, Suc s)) (client_of audit_api) (Some (Timestamp 0 5)) None 0 =
      (Inr ([\<lparr>ev_Id = ''1'', ev_OccurredAt = Timestamp 0 20,
               ev_Event = ResourceChangeEvent \<lparr>rid_ResourceType = ''user'', rid_Resource = ''al''\<rparr>\<rparr>,
             \<lparr>ev_Id = ''1:role:dev'', ev_OccurredAt = Timestamp 0 20,
               ev_Event = CreateGrantEvent (membership_entitlement ''dev'') (user_principal ''al'')\<rparr>,
             \<lparr>ev_Id = ''2:role:ops'', ev_OccurredAt = Timestamp 0 30,
               ev_Event = CreateRevokeEvent (membership_entitlement ''ops'') (user_principal ''bo'')\<rparr>],
         \<lparr>ss_Cursor = tok, ss_HasMore = False\<rparr>), 1)
    \<and> token_window tok \<lparr>start = 30, seen = 30, key = []\<rparr>"
proof -
  let ?w = "\<lparr>start = 5, seen = 5, key = []\<rparr>"
  let ?aes = "[UserCreate \<lparr>em_ID = ''1'', em_Time = 20, em_ClusterName = [], em_Type = []\<rparr> ''al'' [''dev'', []],
         AccessRequestCreate \<lparr>em_ID = ''2'', em_Time = 30, em_ClusterName = [], em_Type = []\<rparr> [] [] ''q'' ''EXPIRED'']"
  let ?look = "\<lambda>_. [\<lparr>ar_User = ''bo'', ar_Roles = [''ops'']\<rparr>]"
  have r: "time_in_range 5" "list_all event_in_range ?aes" "valid_utf8 []"
    by (simp_all add: event_in_range_def time_in_range_def nanos_per_sec_def)
  have "opens None (Some (Timestamp 0 5)) ?w"
    using r(1) by (simp add: opens_def window_ok_def AsTime_def nanos_per_sec_def)
  from audit_page_meets_spec [OF this, of "\<lambda>s. (40, Suc s)" 0 40 1 "client_of audit_api" _ audit_api ?look ?aes "[]" 1]
  have "\<exists>tok. audit_ListEvents (\<lambda>s. (40, Suc s)) (client_of audit_api) (Some (Timestamp 0 5)) None 0 =
      (Inr (concat (map (audit_spec ?look) ?aes), \<lparr>ss_Cursor = tok, ss_HasMore = False\<rparr>), 1)
    \<and> token_window tok (page_step (map audit_time_spec ?aes) [] ?w)"
    using r by (simp add: client_of_def audit_api_def io_return_def lookups_def)
  moreover have "page_step (map audit_time_spec ?aes) [] ?w = \<lparr>start = 30, seen = 30, key = []\<rparr>"
    by (simp add: page_step_def see_def zero_time_def nanos_per_sec_def)
  moreover have "concat (map (audit_spec ?look) ?aes) =
     [\<lparr>ev_Id = ''1'', ev_OccurredAt = Timestamp 0 20,
        ev_Event = ResourceChangeEvent \<lparr>rid_ResourceType = ''user'', rid_Resource = ''al''\<rparr>\<rparr>,
      \<lparr>ev_Id = ''1:role:dev'', ev_OccurredAt = Timestamp 0 20,
        ev_Event = CreateGrantEvent (membership_entitlement ''dev'') (user_principal ''al'')\<rparr>,
      \<lparr>ev_Id = ''2:role:ops'', ev_OccurredAt = Timestamp 0 30,
        ev_Event = CreateRevokeEvent (membership_entitlement ''ops'') (user_principal ''bo'')\<rparr>]"
    by (simp add: change_spec_def roles_spec_def timestamp_New_def nanos_per_sec_def)
  ultimately show ?thesis by simp
qed


text \<open>A service that finds the first request it is asked for and fails from then on.\<close>

definition flaky_api :: "nat teleport_api" where
  "flaky_api = audit_api\<lparr>
     api_SearchEvents := (\<lambda>r. io_return
       ([AccessRequestCreate \<lparr>em_ID = ''1'', em_Time = 20, em_ClusterName = [], em_Type = []\<rparr> [] [] ''p'' ''APPROVED'',
         AccessRequestCreate \<lparr>em_ID = ''2'', em_Time = 30, em_ClusterName = [], em_Type = []\<rparr> [] [] ''q'' ''EXPIRED''], [])),
     api_GetAccessRequests := (\<lambda>rid s. (if s = 1 then Inr [\<lparr>ar_User = ''bo'', ar_Roles = [''ops'']\<rparr>]
        else Inl (Errorf ''timeout''), s + 10))\<rparr>"


text \<open>
  The events derived from one user event have distinct ids exactly when the named roles are
  distinct: the change event carries the audit event's own id, and each grant appends its
  role. A user without a name yields nothing.
\<close>

lemma user_event_ids:
  assumes "userName \<noteq> []"
  shows "(distinct (map ev_Id (fst (convertUserEvent eid t userName roles))) \<longleftrightarrow>
      distinct (filter (\<lambda>r. r \<noteq> []) roles))
    \<and> length (fst (convertUserEvent eid t userName roles)) = Suc (length (filter (\<lambda>r. r \<noteq> []) roles))"
  using assms
  by (auto simp: convertUserEvent_def role_events_map role_event_id_def comp_def distinct_map
      inj_on_def)

lemma user_event_ids_witness:
  "distinct (map ev_Id (fst (convertUserEvent ''id'' 5 ''alice'' [''a'', [], ''b'']))) \<and>
   length (fst (convertUserEvent ''id'' 5 ''alice'' [''a'', [], ''b''])) = 3"
  using user_event_ids [of "''alice''" "''id''" 5 "[''a'', [], ''b'']"] by simp

text \<open>
  C32: Expiry undoes approval. When the service knows the access request that an audit event
  names, the event of the state APPROVED becomes one grant of the role's membership to the
  requesting user per named role of the request, and the event of the state EXPIRED one revoke
  of the same membership from the same user per role, in the same order; an event of any other
  state becomes nothing. Either way the event counts as handled and its time moves the cursor.
\<close>

theorem expiry_revokes_what_approval_granted:
  assumes "c = Some tc" "tc_Client tc = Some api" "rid \<noteq> []"
    and "api_GetAccessRequests api rid s = (Inr (req # reqs), s')" "ar_User req \<noteq> []"
  shows "(\<exists>gs. tryConvertAccessRequestStateChange c (AccessRequestCreate m [] roles0 rid ''APPROVED'') s =
      (Inr (gs, em_Time m, True), s') \<and>
    map ev_Event gs = map (\<lambda>r. CreateGrantEvent (membership_entitlement r) (user_principal (ar_User req)))
      (filter (\<lambda>r. r \<noteq> []) (ar_Roles req)) \<and>
    (\<exists>rs. tryConvertAccessRequestStateChange c (AccessRequestCreate m' [] roles1 rid ''EXPIRED'') s =
        (Inr (rs, em_Time m', True), s') \<and>
      map ev_Event rs = map (\<lambda>e. CreateRevokeEvent (EventEntitlement (ev_Event e)) (EventPrincipal (ev_Event e))) gs)) \<and>
    (\<forall>st. st \<notin> {''APPROVED'', ''EXPIRED''} \<longrightarrow>
      tryConvertAccessRequestStateChange c (AccessRequestCreate m [] roles0 rid st) s =
        (Inr ([], em_Time m, True), s'))"
proof -
  have run: "tryConvertAccessRequestStateChange c (AccessRequestCreate n [] roles rid st) s =
      (Inr (request_events st (em_ID n) (em_Time n) (ar_User req) (ar_Roles req), em_Time n, True), s')"
    for n roles st
    using assms by (simp add: io_bind_def io_wrap_def io_return_def)
  show ?thesis
    unfolding run by (simp add: request_events_def role_events_map make_spec comp_def)
qed

theorem expiry_revokes_what_approval_granted_witness:
  "\<exists>gs. tryConvertAccessRequestStateChange (client_of audit_api)
      (AccessRequestCreate \<lparr>em_ID = ''1'', em_Time = 20, em_ClusterName = [], em_Type = []\<rparr> [] [] ''q'' ''APPROVED'') 7 =
      (Inr (gs, 20, True), 7) \<and>
    map ev_Event gs = [CreateGrantEvent (membership_entitlement ''ops'') (user_principal ''bo'')] \<and>
    (\<exists>rs. tryConvertAccessRequestStateChange (client_of audit_api)
        (AccessRequestCreate \<lparr>em_ID = ''2'', em_Time = 30, em_ClusterName = [], em_Type = []\<rparr> [] [] ''q'' ''EXPIRED'') 7 =
        (Inr (rs, 30, True), 7) \<and>
      map ev_Event rs = map (\<lambda>e. CreateRevokeEvent (EventEntitlement (ev_Event e)) (EventPrincipal (ev_Event e))) gs)"
proof -
  let ?m = "\<lparr>em_ID = ''1'', em_Time = 20, em_ClusterName = [], em_Type = []\<rparr>"
  let ?m' = "\<lparr>em_ID = ''2'', em_Time = 30, em_ClusterName = [], em_Type = []\<rparr>"
  have look: "api_GetAccessRequests audit_api ''q'' 7 = (Inr [\<lparr>ar_User = ''bo'', ar_Roles = [''ops'']\<rparr>], 7)"
    "''q'' \<noteq> []" "ar_User \<lparr>ar_User = ''bo'', ar_Roles = [''ops'']\<rparr> \<noteq> []"
    by (simp_all add: audit_api_def io_return_def)
  show ?thesis
    using conjunct1 [OF expiry_revokes_what_approval_granted [OF client_of_def tc_client_eq look(2,1,3),
          of ?m "[]" ?m' "[]"]]
    by (simp del: tryConvertAccessRequestStateChange.simps)
qed

text \<open>The events that carry nothing for the feed.\<close>

fun ignored_event :: "audit_event \<Rightarrow> bool" where
  "ignored_event (AccessRequestCreate m user rs rid st) \<longleftrightarrow> user \<noteq> []"
| "ignored_event (UserCreate m n rs) \<longleftrightarrow> n = []"
| "ignored_event (UserUpdate m n rs) \<longleftrightarrow> n = []"
| "ignored_event (RoleCreate m n) \<longleftrightarrow> n = []"
| "ignored_event (RoleUpdate m n) \<longleftrightarrow> n = []"
| "ignored_event (LockCreate m l) \<longleftrightarrow> lt_User l = []"
| "ignored_event (LockDelete m l) \<longleftrightarrow> lt_User l = []"
| "ignored_event _ \<longleftrightarrow> True"

text \<open>
  A submitted access request (its user is set) is dropped: no event, no lookup, and the
  cursor does not move. The same holds for every deletion, for applications and databases,
  and for every type the feed does not know.
\<close>

lemma ignored_is_dropped:
  assumes "ignored_event a"
  shows "audit_loop c (a # rest) (res, cur) = audit_loop c rest (res, cur)"
  using assms by (cases a) (simp_all add: updateLatestEvent_def time_IsZero_def convert_one_defs)

lemma ignored_is_dropped_witness:
  "audit_loop (client_of flaky_api)
     [AccessRequestCreate \<lparr>em_ID = ''2'', em_Time = 30, em_ClusterName = [], em_Type = []\<rparr> ''al'' [''dev''] ''q'' ''PENDING'']
     ([], empty_cursor) 3 = (Inr ([], empty_cursor), 3)"
  by (subst ignored_is_dropped) (simp_all add: io_return_def)

end
