(* ===== verification/Event_Feeds.thy ===== *)
theory Event_Feeds
  imports Usage_Feed Audit_Feed
begin

text \<open>
  The two feeds together: \<open>Connector.EventFeeds\<close>, their registration and dispatch in the SDK
  (\<open>connectorbuilder/events.go\<close>), and runs of a feed: sequences of successful calls, each
  with the cursor the previous one returned, with anything happening to the service in
  between.
\<close>

section \<open>Registration and dispatch\<close>

record 's event_feed =
  ef_Metadata :: event_feed_metadata
  ef_ListEvents :: "timestamp option \<Rightarrow> stream_token option \<Rightarrow> ('s, event list \<times> stream_state) io"

definition newUsageEventFeed :: "'s clock \<Rightarrow> 's client_ptr \<Rightarrow> 's event_feed" where
  [go_defs]: "newUsageEventFeed clk c =
     \<lparr>ef_Metadata = usage_EventFeedMetadata, ef_ListEvents = usage_ListEvents clk c\<rparr>"

definition newAuditEventFeed :: "'s clock \<Rightarrow> 's client_ptr \<Rightarrow> 's event_feed" where
  [go_defs]: "newAuditEventFeed clk c =
     \<lparr>ef_Metadata = audit_EventFeedMetadata, ef_ListEvents = audit_ListEvents clk c\<rparr>"

definition EventFeeds :: "'s clock \<Rightarrow> 's client_ptr \<Rightarrow> 's event_feed list" where
  [go_defs]: "EventFeeds clk c = [newUsageEventFeed clk c, newAuditEventFeed clk c]"

text \<open>The generated \<open>EventFeedMetadata.Validate\<close>; every event type here is a defined one.\<close>

definition validate_metadata :: "event_feed_metadata \<Rightarrow> unit result" where
  [go_defs]: "validate_metadata md =
     (if length (efm_Id md) < 1 \<or> 1024 < length (efm_Id md)
        then Inl (Errorf ''value length must be between 1 and 1024 bytes, inclusive'')
      else if \<not> distinct (efm_SupportedEventTypes md)
        then Inl (Errorf ''repeated value must contain unique items'')
      else Inr ())"

fun addEventFeeds ::
    "'s event_feed list \<Rightarrow> (string \<times> 's event_feed) list \<Rightarrow> (string \<times> 's event_feed) list result" where
  "addEventFeeds [] feeds = Inr feeds"
| "addEventFeeds (ef # efs) feeds =
     (let feedData = ef_Metadata ef in
      res_bind (res_wrap (''error: event feed metadata for '' @ efm_Id feedData @ '' is invalid'')
        (validate_metadata feedData)) (\<lambda>_.
      if map_of feeds (efm_Id feedData) \<noteq> None
      then Inl (Errorf (''error: duplicate event feed id found: '' @ efm_Id feedData))
      else addEventFeeds efs ((efm_Id feedData, ef) # feeds)))"

definition LegacyBatonFeedId :: string where [go_defs]: "LegacyBatonFeedId = ''baton_feed_event''"

record list_events_response =
  ler_Events :: "event list"
  ler_Cursor :: string
  ler_HasMore :: bool

definition sdk_ListEvents ::
    "(string \<times> 's event_feed) list \<Rightarrow> string \<Rightarrow> timestamp option \<Rightarrow> int \<Rightarrow> string
      \<Rightarrow> ('s, list_events_response) io" where
  "sdk_ListEvents feeds feedId startAt pageSize cursor =
     (case map_of feeds (if feedId = [] then LegacyBatonFeedId else feedId) of
        None \<Rightarrow> io_fail (Errorf ''error: event feed not found'')
      | Some feed \<Rightarrow>
          io_bind (io_wrap ''error: listing events failed''
            (ef_ListEvents feed startAt (Some \<lparr>st_Size = pageSize, st_Cursor = cursor\<rparr>)))
            (\<lambda>(evs, st). io_return
               \<lparr>ler_Events = evs, ler_Cursor = ss_Cursor st, ler_HasMore = ss_HasMore st\<rparr>))"

lemma feed_ids [simp]:
  "efm_Id usage_EventFeedMetadata = ''teleport_usage_events''"
  "efm_Id audit_EventFeedMetadata = ''teleport_audit_events''"
  by (simp_all add: usage_EventFeedMetadata_def audit_EventFeedMetadata_def
      usageEventFeedID_def auditEventFeedID_def)

lemma metadata_valid:
  "validate_metadata usage_EventFeedMetadata = Inr ()"
  "validate_metadata audit_EventFeedMetadata = Inr ()"
  by (simp_all add: validate_metadata_def)
    (simp_all add: usage_EventFeedMetadata_def audit_EventFeedMetadata_def)

lemma connector_feeds:
  "addEventFeeds (EventFeeds clk c) [] =
     Inr [(''teleport_audit_events'', newAuditEventFeed clk c),
          (''teleport_usage_events'', newUsageEventFeed clk c)]"
  by (simp add: EventFeeds_def newUsageEventFeed_def newAuditEventFeed_def metadata_valid)

section \<open>Runs of a feed\<close>

text \<open>
  The pages of a run with their \<open>HasMore\<close> flags. Each page is read in some state of the
  world: whatever happens between two calls is covered.
\<close>

inductive feed_run ::
    "(stream_token option \<Rightarrow> ('s, event list \<times> stream_state) io) \<Rightarrow>
     string \<Rightarrow> (event list \<times> bool) list \<Rightarrow> string \<Rightarrow> bool"
  for list_page where
  feed_done: "feed_run list_page tok [] tok"
| feed_page: "feed_run list_page tok ((evs, ss_HasMore st) # pages) tok'"
    if "list_page (Some \<lparr>st_Size = n, st_Cursor = tok\<rparr>) s = (Inr (evs, st), s')"
      and "feed_run list_page (ss_Cursor st) pages tok'"

inductive_simps feed_run_Nil [simp]: "feed_run list_page tok [] tok'"
inductive_cases feed_run_ConsE: "feed_run list_page tok (page # pages) tok'"

lemma token_opens:
  "token_window tok w \<Longrightarrow> opens (Some \<lparr>st_Size = n, st_Cursor = tok\<rparr>) earliest w"
  by (simp add: opens_def) (simp add: token_window_def)

definition emitted :: "(event list \<times> bool) list \<Rightarrow> event list" where
  "emitted pages = concat (map fst pages)"

lemma page_step_seen:
  "seen (page_step ts k w) = fold see ts (seen w)"
  "start (page_step ts k w) = (if k = [] then fold see ts (seen w) else start w)"
  "key (page_step ts k w) = k"
  by (simp_all add: page_step_def Let_def)

lemma seen_bound: "t \<in> set ts \<Longrightarrow> t \<le> fold see ts l \<or> t = zero_time"
  by (auto simp: fold_see_Max intro!: Max_ge)

context typed_feed
begin

text \<open>
  Along a run the window never moves back; it keeps its lower bound until a cycle is
  complete, and then starts where everything emitted lies behind it.
\<close>

lemma run_window:
  assumes "feed_run (list_events clk c earliest) tok pages tok'"
    and "token_window tok w" "log_ok c" "start w \<le> seen w"
  obtains w' where "token_window tok' w'" "start w \<le> start w'" "seen w \<le> seen w'"
    "start w' \<le> seen w'"
    "\<forall>e \<in> set (emitted pages). AsTime (ev_OccurredAt e) \<le> seen w' \<or> AsTime (ev_OccurredAt e) = zero_time"
    "list_all snd pages \<Longrightarrow> start w' = start w"
    "pages \<noteq> [] \<Longrightarrow> \<not> snd (last pages) \<Longrightarrow> start w' = seen w' \<and> key w' = []"
proof -
  have "\<exists>w'. token_window tok' w' \<and> start w \<le> start w' \<and> seen w \<le> seen w' \<and> start w' \<le> seen w' \<and>
    (\<forall>e \<in> set (emitted pages). AsTime (ev_OccurredAt e) \<le> seen w' \<or> AsTime (ev_OccurredAt e) = zero_time) \<and>
    (list_all snd pages \<longrightarrow> start w' = start w) \<and>
    (pages \<noteq> [] \<longrightarrow> \<not> snd (last pages) \<longrightarrow> start w' = seen w' \<and> key w' = [])"
    using assms(1,2,4)
  proof (induction arbitrary: w)
    case (feed_done tok)
    then show ?case by (intro exI [of _ w]) (simp add: emitted_def)
  next
    case (feed_page n tok s evs st s' pages tok')
    from page_moves [OF token_opens [OF feed_page.prems(1)] assms(3) feed_page.hyps(1)]
    obtain ts k where step: "token_window (ss_Cursor st) (page_step ts k w)"
      "ss_HasMore st \<longleftrightarrow> k \<noteq> []" "\<forall>e \<in> set evs. AsTime (ev_OccurredAt e) \<in> set ts" .
    let ?v = "page_step ts k w"
    have mono: "start w \<le> start ?v" "seen w \<le> seen ?v" "start ?v \<le> seen ?v"
      using fold_see_ge [of "seen w" ts] feed_page.prems(2) by (auto simp: page_step_seen)
    have evs: "\<forall>e \<in> set evs. AsTime (ev_OccurredAt e) \<le> seen ?v \<or> AsTime (ev_OccurredAt e) = zero_time"
      using step(3) seen_bound [of _ ts "seen w"] by (auto simp: page_step_seen)
    from feed_page.IH [OF step(1) mono(3)] obtain w' where w': "token_window tok' w'"
      "start ?v \<le> start w'" "seen ?v \<le> seen w'" "start w' \<le> seen w'"
      "\<forall>e \<in> set (emitted pages). AsTime (ev_OccurredAt e) \<le> seen w' \<or> AsTime (ev_OccurredAt e) = zero_time"
      "list_all snd pages \<longrightarrow> start w' = start ?v"
      "pages \<noteq> [] \<longrightarrow> \<not> snd (last pages) \<longrightarrow> start w' = seen w' \<and> key w' = []"
      by blast
    show ?case
    proof (cases "pages = []")
      case True
      then have tok': "tok' = ss_Cursor st"
        using feed_page.hyps(2) by simp
      show ?thesis
        using step(1,2) mono evs True
        by (intro exI [of _ ?v]) (auto simp: tok' emitted_def page_step_seen)
    next
      case False
      show ?thesis
        using w' mono evs False step(2)
        by (intro exI [of _ w']) (auto simp: emitted_def page_step_seen)
    qed
  qed
  then show thesis using that by blast
qed

end

section \<open>A concrete page\<close>

lemma fresh_opens:
  "time_in_range (AsTime ts) \<Longrightarrow>
     opens (Some \<lparr>st_Size = n, st_Cursor = []\<rparr>) (Some ts) \<lparr>start = AsTime ts, seen = AsTime ts, key = []\<rparr>"
  by (simp add: opens_def window_ok_def)

lemma timestamp_0_5: "AsTime (Timestamp 0 5) = 5" "time_in_range 5"
  by (simp_all add: AsTime_def time_in_range_def nanos_per_sec_def)

text \<open>The log of \<open>Usage_Feed.login_api\<close>, read from instant 5 on with the clock at 40.\<close>

lemma login_page:
  assumes "opens pToken earliest \<lparr>start = 5, seen = 5, key = []\<rparr>"
  obtains st where "ss_HasMore st"
    "usage_ListEvents (\<lambda>s. (40, Suc s)) (client_of login_api) earliest pToken 0 =
     (Inr (login_events [UserLogin \<lparr>em_ID = ''1'', em_Time = 20, em_ClusterName = [], em_Type = []\<rparr> ''alice'' True,
         UserLogin \<lparr>em_ID = ''2'', em_Time = 30, em_ClusterName = ''prod'', em_Type = []\<rparr> ''bob'' False], st), 1)"
proof -
  let ?aes = "[UserLogin \<lparr>em_ID = ''1'', em_Time = 20, em_ClusterName = [], em_Type = []\<rparr> ''alice'' True,
       UserLogin \<lparr>em_ID = ''2'', em_Time = 30, em_ClusterName = ''prod'', em_Type = []\<rparr> ''bob'' False]"
  have c: "client_of login_api = Some \<lparr>tc_Client = Some login_api, tc_ProxyAddress = ''proxy:443''\<rparr>"
    by (simp add: client_of_def)
  have s: "api_SearchEvents login_api (page_request [userLoginEventType] (start \<lparr>start = 5, seen = 5, key = []\<rparr>)
      40 (key \<lparr>start = 5, seen = 5, key = []\<rparr>)) 1 = (Inr (?aes, ''next''), 1)"
    by (simp add: login_api_def io_return_def)
  have cv: "io_return (usage_events ?aes) 1 = (Inr (login_events ?aes), 1)"
    by (simp add: io_return_def login_events_eq del: usage_events_simps)
  have r: "list_all time_in_range (map (snd \<circ> convertToUsageEvent) ?aes)" "valid_utf8 ''next''"
    by (simp_all add: time_in_range_def nanos_per_sec_def) code_simp
  show thesis
    by (rule usage_feed.page_result [where clk = "\<lambda>s. (40, Suc s)" and s = 0 and ?s1.0 = 1,
          OF assms _ c _ s cv r]) (simp, simp, rule that [rotated], assumption, simp)
qed

lemma login_log_ok: "log_ok (client_of login_api)"
proof -
  have "valid_utf8 ''next''" by code_simp
  then show ?thesis
    by (auto simp: log_ok_def client_of_def login_api_def io_return_def event_in_range_def
        time_in_range_def nanos_per_sec_def)
qed

lemma cursor_token_window:
  "window_ok w \<Longrightarrow> token_window (b64_encode (json_Marshal (cursor_of w))) w"
  by (rule token_windowI) (auto simp: window_ok_def)

section \<open>Properties\<close>

text \<open>
  C7: Safety of a run of either feed, whatever happens to the service between the calls: the
  token always stands for a window; its lower bound and the latest time seen never move
  back; the lower bound stays fixed while pages have more and, after the page that completes
  a cycle, equals the latest time seen, with the continuation key cleared; every event
  emitted (with a time) lies at or before that instant, so the next cycle skips nothing the
  log had shown. It starts at that instant, not after it: the events of that instant are
  read again.
\<close>

theorem feed_run_window:
  assumes "list_page = usage_ListEvents clk c earliest \<or> list_page = audit_ListEvents clk c earliest"
    and "feed_run list_page tok pages tok'"
    and "token_window tok w" "log_ok c" "start w \<le> seen w"
  shows "\<exists>w'. token_window tok' w' \<and> start w \<le> start w' \<and> seen w \<le> seen w' \<and> start w' \<le> seen w' \<and>
    (\<forall>e \<in> set (emitted pages). AsTime (ev_OccurredAt e) \<le> seen w' \<or> AsTime (ev_OccurredAt e) = zero_time) \<and>
    (list_all snd pages \<longrightarrow> start w' = start w) \<and>
    (pages \<noteq> [] \<and> \<not> snd (last pages) \<longrightarrow> start w' = seen w' \<and> key w' = [])"
  using assms(1)
proof
  assume "list_page = usage_ListEvents clk c earliest"
  with assms(2) have "feed_run (usage_ListEvents clk c earliest) tok pages tok'" by simp
  then show ?thesis
    by (rule usage_feed.run_window [OF _ assms(3-5)]) blast
next
  assume "list_page = audit_ListEvents clk c earliest"
  with assms(2) have "feed_run (audit_ListEvents clk c earliest) tok pages tok'" by simp
  then show ?thesis
    by (rule audit_feed.run_window [OF _ assms(3-5)]) blast
qed

theorem feed_run_window_witness:
  "\<exists>pages tok' w'. feed_run (usage_ListEvents (\<lambda>s. (40, Suc s)) (client_of login_api) None)
       (b64_encode (json_Marshal (cursor_of \<lparr>start = 5, seen = 5, key = []\<rparr>))) pages tok'
     \<and> emitted pages \<noteq> [] \<and> token_window tok' w' \<and> start w' = 5 \<and> 20 \<le> seen w'"
proof -
  let ?L = "usage_ListEvents (\<lambda>s. (40, Suc s)) (client_of login_api) None"
  let ?w = "\<lparr>start = 5, seen = 5, key = []\<rparr>"
  let ?tok = "b64_encode (json_Marshal (cursor_of ?w))"
  let ?aes = "[UserLogin \<lparr>em_ID = ''1'', em_Time = 20, em_ClusterName = [], em_Type = []\<rparr> ''alice'' True,
       UserLogin \<lparr>em_ID = ''2'', em_Time = 30, em_ClusterName = ''prod'', em_Type = []\<rparr> ''bob'' False]"
  have w: "token_window ?tok ?w"
    by (rule cursor_token_window) (simp add: window_ok_def timestamp_0_5)
  have o: "opens (Some \<lparr>st_Size = 0, st_Cursor = ?tok\<rparr>) None ?w"
    by (rule token_opens [OF w])
  obtain st where page: "?L (Some \<lparr>st_Size = 0, st_Cursor = ?tok\<rparr>) 0 = (Inr (login_events ?aes, st), 1)"
    "ss_HasMore st"
    by (rule login_page [OF o])
  have run: "feed_run ?L ?tok [(login_events ?aes, ss_HasMore st)] (ss_Cursor st)"
    by (rule feed_page [where list_page = ?L and s = 0, OF page(1)]) (rule feed_done)
  have "start ?w \<le> seen ?w" by simp
  from feed_run_window [OF disjI1 [OF refl] run w login_log_ok this] page(2)
  obtain w' where "token_window (ss_Cursor st) w'" "start w' = 5"
    "\<forall>e \<in> set (login_events ?aes). AsTime (ev_OccurredAt e) \<le> seen w' \<or> AsTime (ev_OccurredAt e) = zero_time"
    by (auto simp: emitted_def)
  then have "token_window (ss_Cursor st) w'" "start w' = 5" "20 \<le> seen w'"
    by (simp_all add: login_events_def zero_time_def nanos_per_sec_def)
  moreover have "emitted [(login_events ?aes, ss_HasMore st)] \<noteq> []"
    by (simp add: emitted_def login_events_def)
  ultimately show ?thesis using run by blast
qed

text \<open>
  C28: Registration of the connector's feeds succeeds, and every event that a dispatched
  \<open>ListEvents\<close> answers with has one of the types the metadata of the addressed feed declares.
\<close>

theorem dispatch_supported_types:
  assumes "addEventFeeds (EventFeeds clk c) [] = Inr feeds"
    and "sdk_ListEvents feeds feedId startAt n cur s = (Inr resp, s')"
  shows "\<exists>md \<in> {usage_EventFeedMetadata, audit_EventFeedMetadata}. feedId = efm_Id md \<and>
    (\<forall>e \<in> set (ler_Events resp). payload_type (ev_Event e) \<in> set (efm_SupportedEventTypes md))"
proof -
  let ?fid = "if feedId = [] then LegacyBatonFeedId else feedId"
  obtain feed where feed: "map_of feeds ?fid = Some feed"
    using assms(2) by (auto simp: sdk_ListEvents_def io_fail_def split: option.splits)
  obtain evs st where page: "ef_ListEvents feed startAt (Some \<lparr>st_Size = n, st_Cursor = cur\<rparr>) s = (Inr (evs, st), s')"
    and resp: "ler_Events resp = evs"
    using assms(2) feed unfolding sdk_ListEvents_def
    by (auto simp: io_return_def elim!: io_bind_InrE io_wrap_InrE)
  have feeds: "feeds = [(''teleport_audit_events'', newAuditEventFeed clk c),
      (''teleport_usage_events'', newUsageEventFeed clk c)]"
    using assms(1) connector_feeds [of clk c] by simp
  consider "feedId = ''teleport_audit_events''" "feed = newAuditEventFeed clk c"
    | "feedId = ''teleport_usage_events''" "feed = newUsageEventFeed clk c"
    using feed by (auto simp: feeds LegacyBatonFeedId_def split: if_splits)
  then show ?thesis
  proof cases
    case 1
    then have "audit_ListEvents clk c startAt (Some \<lparr>st_Size = n, st_Cursor = cur\<rparr>) s = (Inr (evs, st), s')"
      using page by (simp add: newAuditEventFeed_def)
    from audit_feed.emitted_kinds [OF this] 1(1) resp show ?thesis by simp
  next
    case 2
    then have "usage_ListEvents clk c startAt (Some \<lparr>st_Size = n, st_Cursor = cur\<rparr>) s = (Inr (evs, st), s')"
      using page by (simp add: newUsageEventFeed_def)
    from usage_feed.emitted_kinds [OF this] 2(1) resp show ?thesis by simp
  qed
qed

theorem dispatch_supported_types_witness:
  "\<exists>feeds resp. addEventFeeds (EventFeeds (\<lambda>s. (40, Suc s)) (client_of login_api)) [] = Inr feeds
     \<and> sdk_ListEvents feeds ''teleport_usage_events'' (Some (Timestamp 0 5)) 10 [] 0 = (Inr resp, 1)
     \<and> (\<exists>md \<in> {usage_EventFeedMetadata, audit_EventFeedMetadata}. ''teleport_usage_events'' = efm_Id md \<and>
        (\<forall>e \<in> set (ler_Events resp). payload_type (ev_Event e) \<in> set (efm_SupportedEventTypes md)))"
proof -
  let ?feeds = "[(''teleport_audit_events'', newAuditEventFeed (\<lambda>s. (40, Suc s)) (client_of login_api)),
      (''teleport_usage_events'', newUsageEventFeed (\<lambda>s. (40, Suc s)) (client_of login_api))]"
  have reg: "addEventFeeds (EventFeeds (\<lambda>s. (40, Suc s)) (client_of login_api)) [] = Inr ?feeds"
    by (rule connector_feeds)
  obtain resp where resp:
    "sdk_ListEvents ?feeds ''teleport_usage_events'' (Some (Timestamp 0 5)) 10 [] 0 = (Inr resp, 1)"
  proof -
    have "opens (Some \<lparr>st_Size = 10, st_Cursor = []\<rparr>) (Some (Timestamp 0 5)) \<lparr>start = 5, seen = 5, key = []\<rparr>"
      using fresh_opens [of "Timestamp 0 5" 10] by (simp add: timestamp_0_5)
    then show thesis
      by (rule login_page)
        (rule that, simp add: sdk_ListEvents_def newUsageEventFeed_def io_bind_def io_wrap_def io_return_def)
  qed
  from dispatch_supported_types [OF reg resp] reg resp show ?thesis by blast
qed

text \<open>
  An unknown feed id, and the empty id, which stands for the legacy feed, is refused
  without reading the clock or the log.
\<close>

lemma unknown_feed_refused:
  assumes "addEventFeeds (EventFeeds clk c) [] = Inr feeds"
    and "feedId \<noteq> ''teleport_usage_events''" "feedId \<noteq> ''teleport_audit_events''"
  shows "sdk_ListEvents feeds feedId startAt n cur s = (Inl (Errorf ''error: event feed not found''), s)"
proof -
  have "feeds = [(''teleport_audit_events'', newAuditEventFeed clk c),
      (''teleport_usage_events'', newUsageEventFeed clk c)]"
    using assms(1) connector_feeds [of clk c] by simp
  then show ?thesis
    using assms(2,3) by (simp add: sdk_ListEvents_def LegacyBatonFeedId_def io_fail_def)
qed

lemma empty_feed_refused:
  "sdk_ListEvents [(''teleport_audit_events'', newAuditEventFeed (\<lambda>s. (40, Suc s)) (client_of login_api)),
      (''teleport_usage_events'', newUsageEventFeed (\<lambda>s. (40, Suc s)) (client_of login_api))]
     [] None 10 [] 7 = (Inl (Errorf ''error: event feed not found''), 7)"
  by (rule unknown_feed_refused [OF connector_feeds]) simp_all

end
