(* ===== verification/Feed_Cycle.thy ===== *)
theory Feed_Cycle
  imports Event_Feeds
begin

text \<open>
  Whole cycles of a feed against a service that keeps a log: a consumer that asks for pages
  until \<open>HasMore\<close> is false gets every event of the log from the window's start on, once and in
  order, within a number of calls the length of the log bounds; and the cycle after it misses
  nothing that was appended in between.
\<close>

section \<open>The consumer and the log\<close>

text \<open>The consumer's loop; the fuel bounds the number of calls.\<close>

fun read_cycle ::
    "nat \<Rightarrow> (stream_token option \<Rightarrow> ('s, event list \<times> stream_state) io) \<Rightarrow> string
      \<Rightarrow> ('s, event list \<times> string) io" where
  "read_cycle 0 list_page tok = io_fail (Errorf ''out of fuel'')"
| "read_cycle (Suc n) list_page tok =
     io_bind (list_page (Some \<lparr>st_Size = 0, st_Cursor = tok\<rparr>)) (\<lambda>(evs, st).
       if ss_HasMore st
       then io_bind (read_cycle n list_page (ss_Cursor st)) (\<lambda>(evs', tok').
              io_return (evs @ evs', tok'))
       else io_return (evs, ss_Cursor st))"

definition logged_at :: "audit_event \<Rightarrow> time" where
  [go_defs]: "logged_at a = em_Time (EventMeta a)"

text \<open>
  The service answers a search with the events between the bounds, both included, in the
  order of its log; a page has at most as many as asked for, and the continuation key stands
  for the position behind it, empty at the end.
\<close>

definition hits :: "audit_event list \<Rightarrow> time \<Rightarrow> time \<Rightarrow> audit_event list" where
  "hits log t u = filter (\<lambda>a. t \<le> logged_at a \<and> logged_at a \<le> u) log"

definition key_codec :: "(nat \<Rightarrow> string) \<Rightarrow> (string \<Rightarrow> nat) \<Rightarrow> bool" where
  "key_codec ekey dkey \<longleftrightarrow> dkey [] = 0 \<and>
     (\<forall>n. dkey (ekey n) = n \<and> ekey n \<noteq> [] \<and> valid_utf8 (ekey n))"

definition serves_log ::
    "'s teleport_api \<Rightarrow> string list \<Rightarrow> (nat \<Rightarrow> string) \<Rightarrow> (string \<Rightarrow> nat) \<Rightarrow> ('s \<Rightarrow> audit_event list) \<Rightarrow> bool" where
  "serves_log api types ekey dkey log \<longleftrightarrow> (\<forall>t u k s.
     api_SearchEvents api \<lparr>sr_From = t, sr_To = u, sr_Namespace = ''default'', sr_EventTypes = types,
         sr_Limit = 100, sr_Order = EventOrderAscending, sr_StartKey = k, sr_Search = []\<rparr> s =
       (Inr (take 100 (drop (dkey k) (hits (log s) t u)),
          if length (hits (log s) t u) \<le> dkey k + 100 then [] else ekey (dkey k + 100)), s))"

text \<open>Reading the clock does not change the log, and what is in the log is not in the future.\<close>

definition clock_reads :: "'s clock \<Rightarrow> ('s \<Rightarrow> audit_event list) \<Rightarrow> bool" where
  "clock_reads clk log \<longleftrightarrow> (\<forall>s. log (snd (clk s)) = log s \<and>
     (\<forall>a \<in> set (log s). logged_at a \<le> fst (clk s)))"

definition log_events_ok :: "audit_event list \<Rightarrow> bool" where
  "log_events_ok as \<longleftrightarrow> list_all (\<lambda>a. time_in_range (logged_at a)) as"

definition since :: "time \<Rightarrow> audit_event list \<Rightarrow> audit_event list" where
  "since t as = filter (\<lambda>a. t \<le> logged_at a) as"

lemma hits_since: "\<forall>a \<in> set as. logged_at a \<le> u \<Longrightarrow> hits as t u = since t as"
  by (auto simp: hits_def since_def intro: filter_cong)

lemma log_events_since: "log_events_ok as \<Longrightarrow> log_events_ok (since t as)"
  by (auto simp: log_events_ok_def since_def list_all_iff)

lemma length_since: "length (since t as) \<le> length as"
  by (simp add: since_def)

text \<open>
  One service for both feeds: it has one log and honours the event types of a request. The two
  feeds ask for types that have nothing in common, so each sees its own part of the log.
\<close>

definition of_types :: "string list \<Rightarrow> audit_event list \<Rightarrow> audit_event list" where
  "of_types types log = filter (\<lambda>a. em_Type (EventMeta a) \<in> set types) log"

definition filters_log ::
    "'s teleport_api \<Rightarrow> (nat \<Rightarrow> string) \<Rightarrow> (string \<Rightarrow> nat) \<Rightarrow> ('s \<Rightarrow> audit_event list) \<Rightarrow> bool" where
  "filters_log api ekey dkey log \<longleftrightarrow>
     (\<forall>types. types \<noteq> [] \<longrightarrow> serves_log api types ekey dkey (\<lambda>s. of_types types (log s)))"

lemma filters_log_serves:
  "filters_log api ekey dkey log \<Longrightarrow> types \<noteq> [] \<Longrightarrow> serves_log api types ekey dkey (\<lambda>s. of_types types (log s))"
  by (simp add: filters_log_def)

lemma clock_reads_types: "clock_reads clk log \<Longrightarrow> clock_reads clk (\<lambda>s. of_types types (log s))"
  by (simp add: clock_reads_def of_types_def)

lemma log_events_types: "log_events_ok as \<Longrightarrow> log_events_ok (of_types types as)"
  by (auto simp: log_events_ok_def of_types_def list_all_iff)

lemma of_types_append: "of_types types (as @ bs) = of_types types as @ of_types types bs"
  by (simp add: of_types_def)

lemma sorted_types: "sorted (map logged_at as) \<Longrightarrow> sorted (map logged_at (of_types types as))"
  unfolding of_types_def by (rule sorted_filter)

lemma length_types: "length as < n \<Longrightarrow> length (of_types types as) < n"
  unfolding of_types_def using length_filter_le le_less_trans by blast

lemma resourceChangeEventTypes_some: "resourceChangeEventTypes \<noteq> []"
  by (simp add: resourceChangeEventTypes_def)

text \<open>The pages a number of events takes; the last page of a cycle may be empty only when it is the first.\<close>

definition page_count :: "nat \<Rightarrow> nat" where
  [go_defs]: "page_count m = max 1 ((m + 99) div 100)"

lemma page_count_le: "page_count m \<le> n \<longleftrightarrow> 0 < n \<and> m \<le> 100 * n"
  unfolding page_count_def by linarith

section \<open>Cycles of a feed\<close>

text \<open>Both feeds move the window by the time an event was logged at, or not at all.\<close>

locale log_feed = typed_feed list_events parse_msg search_msg types event_time convert supported
  for list_events :: "'s clock \<Rightarrow> 's client_ptr \<Rightarrow> timestamp option \<Rightarrow> stream_token option
        \<Rightarrow> ('s, event list \<times> stream_state) io"
    and parse_msg search_msg types event_time convert supported +
  assumes event_time_logged: "event_time a = zero_time \<or> event_time a = logged_at a"
begin

lemma event_times_in_range:
  "log_events_ok as \<Longrightarrow> list_all time_in_range (map event_time as)"
proof -
  have "time_in_range (logged_at a) \<Longrightarrow> time_in_range (event_time a)" for a
    using event_time_logged [of a] by auto
  then show "log_events_ok as \<Longrightarrow> list_all time_in_range (map event_time as)"
    by (simp add: log_events_ok_def list_all_iff)
qed

text \<open>One page from position \<open>p\<close> of the events since the window's start.\<close>

lemma log_page:
  assumes c: "c = Some tc" "tc_Client tc = Some api"
    and service: "serves_log api types ekey dkey log" "key_codec ekey dkey" "clock_reads clk log"
    and conv: "\<And>aes s. convert c aes s = (Inr (concat (map spec aes)), s)"
    and log: "log_events_ok (log s)"
    and w: "token_window tok w"
    and as: "as = since (start w) (log s)" and p: "p = dkey (key w)"
  obtains tok' s' where "list_events clk c earliest (Some \<lparr>st_Size = n, st_Cursor = tok\<rparr>) s =
      (Inr (concat (map spec (take 100 (drop p as))), \<lparr>ss_Cursor = tok', ss_HasMore = (p + 100 < length as)\<rparr>), s')"
    "log s' = log s"
    "token_window tok' (page_step (map event_time (take 100 (drop p as)))
       (if length as \<le> p + 100 then [] else ekey (p + 100)) w)"
proof -
  obtain u s1 where clk: "clk s = (u, s1)" by (cases "clk s")
  have l: "log s1 = log s" and u: "\<forall>a \<in> set (log s). logged_at a \<le> u"
    using service(3) clk by (auto simp: clock_reads_def dest: spec [of _ s])
  have "hits (log s1) (start w) u = as"
    using hits_since [OF u] by (simp add: l as)
  then have search: "api_SearchEvents api (page_request types (start w) u (key w)) s1 =
      (Inr (take 100 (drop p as), if length as \<le> p + 100 then [] else ekey (p + 100)), s1)"
    using service(1) by (simp add: serves_log_def page_request_def Namespace_def eventsPageSize_def p)
  have "log_events_ok (take 100 (drop p as))"
    using log_events_since [OF log, of "start w"] set_take_subset [of 100 "drop p as"] set_drop_subset [of p as]
    by (auto simp: log_events_ok_def list_all_iff as)
  then have times: "list_all time_in_range (map event_time (take 100 (drop p as)))"
    by (rule event_times_in_range)
  have utf8: "valid_utf8 (if length as \<le> p + 100 then [] else ekey (p + 100))"
    and more: "((if length as \<le> p + 100 then [] else ekey (p + 100)) \<noteq> []) = (p + 100 < length as)"
    using service(2) by (auto simp: key_codec_def not_le)
  from page_result [where clk = clk and s = s, OF token_opens [OF w] clk c search conv times utf8]
  show thesis
    unfolding more using that l by metis
qed

text \<open>The rest of a cycle from a position on.\<close>

lemma cycle_from:
  assumes c: "c = Some tc" "tc_Client tc = Some api"
    and service: "serves_log api types ekey dkey log" "key_codec ekey dkey" "clock_reads clk log"
    and conv: "\<And>aes s. convert c aes s = (Inr (concat (map spec aes)), s)"
    and log: "log_events_ok (log s)"
    and w: "token_window tok w"
    and as: "as = since (start w) (log s)" and p: "p = dkey (key w)"
    and fuel: "0 < n" "length as - p \<le> 100 * n"
  shows "\<exists>tok' s'. read_cycle n (list_events clk c earliest) tok s =
      (Inr (concat (map spec (drop p as)), tok'), s') \<and> log s' = log s \<and>
    token_window tok' (let m = fold see (map event_time (drop p as)) (seen w)
      in \<lparr>start = m, seen = m, key = []\<rparr>)"
  using log w as p fuel
proof (induction n arbitrary: tok w p s)
  case (Suc n)
  let ?page = "take 100 (drop p as)"
  from log_page [OF c service conv Suc.prems(1-4), of earliest 0]
  obtain tok1 s1 where page: "list_events clk c earliest (Some \<lparr>st_Size = 0, st_Cursor = tok\<rparr>) s =
      (Inr (concat (map spec ?page), \<lparr>ss_Cursor = tok1, ss_HasMore = (p + 100 < length as)\<rparr>), s1)"
    and l: "log s1 = log s"
    and w1: "token_window tok1 (page_step (map event_time ?page)
       (if length as \<le> p + 100 then [] else ekey (p + 100)) w)" .
  show ?case
  proof (cases "p + 100 < length as")
    case False
    then have "?page = drop p as" by simp
    with page w1 l False show ?thesis
      by (intro exI [of _ tok1] exI [of _ s1]) (simp add: io_bind_Inr io_return_def page_step_def Let_def)
  next
    case True
    let ?w = "page_step (map event_time ?page) (ekey (p + 100)) w"
    have k: "ekey (p + 100) \<noteq> []" "dkey (ekey (p + 100)) = p + 100"
      using service(2) by (simp_all add: key_codec_def)
    have w': "token_window tok1 ?w" using w1 True by simp
    have start: "start ?w = start w" and pos: "p + 100 = dkey (key ?w)"
      using k by (simp_all add: page_step_seen)
    have log1: "log_events_ok (log s1)" and as1: "as = since (start ?w) (log s1)"
      using Suc.prems(1,3) l start by simp_all
    have fuel1: "0 < n" "length as - (p + 100) \<le> 100 * n"
      using Suc.prems(6) True by (cases n; simp)+
    have "drop p as = ?page @ drop (p + 100) as"
      using append_take_drop_id [of 100 "drop p as"] by (simp add: add.commute)
    then have split: "map f (drop p as) = map f ?page @ map f (drop (p + 100) as)" for f :: "audit_event \<Rightarrow> 'x"
      by (metis map_append)
    from Suc.IH [OF log1 w' as1 pos fuel1]
    obtain tok2 s2 where rest: "read_cycle n (list_events clk c earliest) tok1 s1 =
        (Inr (concat (map spec (drop (p + 100) as)), tok2), s2)" "log s2 = log s1"
      "token_window tok2 (let m = fold see (map event_time (drop (p + 100) as)) (seen ?w)
        in \<lparr>start = m, seen = m, key = []\<rparr>)" by blast
    have "fold see (map event_time (drop (p + 100) as)) (seen ?w) =
        fold see (map event_time (drop p as)) (seen w)"
      unfolding split by (simp add: page_step_seen)
    moreover have "concat (map spec (drop p as)) =
        concat (map spec ?page) @ concat (map spec (drop (p + 100) as))"
      unfolding split by simp
    ultimately show ?thesis
      using rest page True l
      by (intro exI [of _ tok2] exI [of _ s2]) (simp add: io_bind_Inr io_return_def)
  qed
qed simp

text \<open>A whole cycle, from a window whose cycle has not begun.\<close>

lemma whole_cycle:
  assumes c: "c = Some tc" "tc_Client tc = Some api"
    and service: "serves_log api types ekey dkey log" "key_codec ekey dkey" "clock_reads clk log"
    and conv: "\<And>aes s. convert c aes s = (Inr (concat (map spec aes)), s)"
    and log: "log_events_ok (log s)" and w: "token_window tok w" "key w = []"
    and fuel: "0 < n" "length (since (start w) (log s)) \<le> 100 * n"
  obtains tok' s' where "read_cycle n (list_events clk c earliest) tok s =
      (Inr (concat (map spec (since (start w) (log s))), tok'), s')"
    "token_window tok' (let m = fold see (map event_time (since (start w) (log s))) (seen w)
      in \<lparr>start = m, seen = m, key = []\<rparr>)"
proof -
  have "0 = dkey (key w)" using service(2) w(2) by (simp add: key_codec_def)
  moreover have "length (since (start w) (log s)) - 0 \<le> 100 * n"
    using fuel(2) by simp
  ultimately have "\<exists>tok' s'. read_cycle n (list_events clk c earliest) tok s =
      (Inr (concat (map spec (drop 0 (since (start w) (log s)))), tok'), s') \<and> log s' = log s \<and>
    token_window tok' (let m = fold see (map event_time (drop 0 (since (start w) (log s)))) (seen w)
      in \<lparr>start = m, seen = m, key = []\<rparr>)"
    using cycle_from [OF c service conv log w(1) refl _ fuel(1)] by blast
  then show thesis using that by auto
qed

text \<open>With fewer calls than there are pages the consumer is not done.\<close>

lemma cycle_unfinished:
  assumes c: "c = Some tc" "tc_Client tc = Some api"
    and service: "serves_log api types ekey dkey log" "key_codec ekey dkey" "clock_reads clk log"
    and conv: "\<And>aes s. convert c aes s = (Inr (concat (map spec aes)), s)"
    and log: "log_events_ok (log s)"
    and w: "token_window tok w"
    and as: "as = since (start w) (log s)" and p: "p = dkey (key w)"
    and short: "n = 0 \<or> 100 * n < length as - p"
  shows "fst (read_cycle n (list_events clk c earliest) tok s) = Inl (Errorf ''out of fuel'')"
  using log w as p short
proof (induction n arbitrary: tok w p s)
  case 0
  then show ?case by (simp add: io_fail_def)
next
  case (Suc n)
  let ?page = "take 100 (drop p as)"
  from log_page [OF c service conv Suc.prems(1-4), of earliest 0]
  obtain tok1 s1 where page: "list_events clk c earliest (Some \<lparr>st_Size = 0, st_Cursor = tok\<rparr>) s =
      (Inr (concat (map spec ?page), \<lparr>ss_Cursor = tok1, ss_HasMore = (p + 100 < length as)\<rparr>), s1)"
    and l: "log s1 = log s"
    and w1: "token_window tok1 (page_step (map event_time ?page)
       (if length as \<le> p + 100 then [] else ekey (p + 100)) w)" .
  let ?w = "page_step (map event_time ?page) (ekey (p + 100)) w"
  have more: "p + 100 < length as" using Suc.prems(5) by auto
  have k: "dkey (ekey (p + 100)) = p + 100" "ekey (p + 100) \<noteq> []"
    using service(2) by (simp_all add: key_codec_def)
  have w': "token_window tok1 ?w" using w1 more by simp
  have pos: "p + 100 = dkey (key ?w)" "log_events_ok (log s1)" "as = since (start ?w) (log s1)"
    using k l Suc.prems(1,3) by (simp_all add: page_step_seen)
  have short: "n = 0 \<or> 100 * n < length as - (p + 100)" using Suc.prems(5) by auto
  have "fst (read_cycle n (list_events clk c earliest) tok1 s1) = Inl (Errorf ''out of fuel'')"
    by (rule Suc.IH [OF pos(2) w' pos(3) pos(1) short])
  then show ?case
    using page more
    by (cases "read_cycle n (list_events clk c earliest) tok1 s1") (auto simp: io_bind_def)
qed

lemma cycle_calls:
  assumes c: "c = Some tc" "tc_Client tc = Some api"
    and service: "serves_log api types ekey dkey log" "key_codec ekey dkey" "clock_reads clk log"
    and conv: "\<And>aes s. convert c aes s = (Inr (concat (map spec aes)), s)"
    and log: "log_events_ok (log s)" and w: "token_window tok w" "key w = []"
  shows "if page_count (length (since (start w) (log s))) \<le> n
    then \<exists>tok' s'. read_cycle n (list_events clk c earliest) tok s =
      (Inr (concat (map spec (since (start w) (log s))), tok'), s')
    else fst (read_cycle n (list_events clk c earliest) tok s) = Inl (Errorf ''out of fuel'')"
proof (cases "page_count (length (since (start w) (log s))) \<le> n")
  case True
  then have fuel: "0 < n" "length (since (start w) (log s)) \<le> 100 * n"
    by (simp_all add: page_count_le)
  show ?thesis
    by (rule whole_cycle [OF c service conv log w fuel, of earliest]) (use True in auto)
next
  case False
  have p: "0 = dkey (key w)" using service(2) w(2) by (simp add: key_codec_def)
  have "n = 0 \<or> 100 * n < length (since (start w) (log s)) - 0"
    using False by (auto simp: page_count_le)
  from cycle_unfinished [OF c service conv log w(1) refl p this, of earliest] False
  show ?thesis by simp
qed

text \<open>Where the next cycle starts, no event of the log after it lies behind.\<close>

lemma next_start_before:
  assumes "\<forall>a \<in> set old. \<forall>b \<in> set new. logged_at a \<le> logged_at b"
    and "b \<in> set new" "t \<le> logged_at b"
  shows "fold see (map event_time (since t old)) t \<le> logged_at b"
proof -
  have "event_time a \<le> logged_at b \<or> event_time a = zero_time" if "a \<in> set old" for a
    using event_time_logged [of a] assms(1,2) that by auto
  then have "x \<le> logged_at b" if "x \<in> insert t (set (map event_time (since t old)) - {zero_time})" for x
    using that assms(3) by (auto simp: since_def)
  then show ?thesis by (simp add: fold_see_Max del: set_map)
qed

lemma two_cycles:
  assumes c: "c = Some tc" "tc_Client tc = Some api"
    and service: "serves_log api types ekey dkey log" "key_codec ekey dkey" "clock_reads clk log"
    and conv: "\<And>aes s. convert c aes s = (Inr (concat (map spec aes)), s)"
    and w: "token_window tok w" "key w = []" "seen w = start w"
    and log: "log s2 = log s @ new" "log_events_ok (log s2)" "sorted (map logged_at (log s2))"
    and fuel: "length (log s2) < 100 * n"
  shows "\<exists>tok1 s1 evs2 tok2 s3.
    read_cycle n (list_events clk c earliest) tok s =
      (Inr (concat (map spec (since (start w) (log s))), tok1), s1) \<and>
    read_cycle n (list_events clk c earliest) tok1 s2 = (Inr (evs2, tok2), s3) \<and>
    set (concat (map spec (since (start w) (log s)))) \<union> set evs2 =
      set (concat (map spec (since (start w) (log s2))))"
proof -
  let ?t = "start w"
  let ?m = "fold see (map event_time (since ?t (log s))) ?t"
  have old: "log_events_ok (log s)" "0 < n" "length (since ?t (log s)) \<le> 100 * n"
    using log(1,2) fuel length_since [of ?t "log s"] by (simp_all add: log_events_ok_def)
  from whole_cycle [OF c service conv old(1) w(1,2) old(2,3), of earliest]
  obtain tok1 s1 where r1: "read_cycle n (list_events clk c earliest) tok s =
      (Inr (concat (map spec (since ?t (log s))), tok1), s1)"
    and w1: "token_window tok1 \<lparr>start = ?m, seen = ?m, key = []\<rparr>"
    by (auto simp: w(3) Let_def)
  have k: "key \<lparr>start = ?m, seen = ?m, key = []\<rparr> = []" by simp
  obtain tok2 s3 where r2: "read_cycle n (list_events clk c earliest) tok1 s2 =
      (Inr (concat (map spec (since ?m (log s2))), tok2), s3)"
    by (rule whole_cycle [OF c service conv log(2) w1 k old(2), of earliest])
      (use length_since [of ?m "log s2"] fuel in simp_all)
  have order: "\<forall>a \<in> set (log s). \<forall>b \<in> set new. logged_at a \<le> logged_at b"
    using log(1,3) by (auto simp: sorted_append)
  have "set (since ?t (log s)) \<union> set (since ?m (log s2)) = set (since ?t (log s2))"
    using next_start_before [OF order] fold_see_ge [of ?t "map event_time (since ?t (log s))"]
    by (auto simp: since_def log(1))
  then have "set (concat (map spec (since ?t (log s)))) \<union> set (concat (map spec (since ?m (log s2)))) =
      set (concat (map spec (since ?t (log s2))))"
    by (simp only: set_concat set_map flip: image_Un UN_Un)
  with r1 r2 show ?thesis by blast
qed

end

interpretation usage_log: log_feed usage_ListEvents
  "''baton-teleport: failed to parse start_at''" "''baton-teleport: failed to search usage events''"
  "[userLoginEventType]" "snd \<circ> convertToUsageEvent" "\<lambda>_ aes. io_return (usage_events aes)"
  "efm_SupportedEventTypes usage_EventFeedMetadata"
proof unfold_locales
  show "(snd \<circ> convertToUsageEvent) a = zero_time \<or> (snd \<circ> convertToUsageEvent) a = logged_at a"
    for a
    by (cases a) (simp_all add: logged_at_def Let_def)
qed

interpretation audit_log: log_feed audit_ListEvents
  "''baton-teleport: failed to parse audit start_at''"
  "''baton-teleport: failed to search audit events''"
  resourceChangeEventTypes audit_event_time audit_page
  "efm_SupportedEventTypes audit_EventFeedMetadata"
proof unfold_locales
  show "audit_event_time a = zero_time \<or> audit_event_time a = logged_at a" for a
    using convertAuditEvent_time [of a] by (cases a) (simp_all add: logged_at_def)
qed

section \<open>A service with a log\<close>

text \<open>The state is the log, of which a search reads the types it asks for; the key for position \<open>n\<close> is a text one longer than \<open>n\<close>.\<close>

definition position_key :: "nat \<Rightarrow> string" where
  "position_key n = replicate (Suc n) (CHR ''k'')"

definition key_position :: "string \<Rightarrow> nat" where
  "key_position k = length k - 1"

definition log_api :: "audit_event list teleport_api" where
  "log_api = offline_api\<lparr>
     api_SearchEvents := (\<lambda>r log.
       let found = hits (of_types (sr_EventTypes r) log) (sr_From r) (sr_To r);
           n = key_position (sr_StartKey r)
       in (Inr (take 100 (drop n found),
            if length found \<le> n + 100 then [] else position_key (n + 100)), log)),
     api_GetAccessRequests := (\<lambda>rid. io_return [\<lparr>ar_User = ''bo'', ar_Roles = [''ops'']\<rparr>])\<rparr>"

definition log_clock :: "audit_event list clock" where
  "log_clock log = (fold max (map logged_at log) 40, log)"

lemma log_api_serves: "filters_log log_api position_key key_position (\<lambda>log. log)"
  by (simp add: filters_log_def serves_log_def log_api_def Let_def)

lemma position_key_codec: "key_codec position_key key_position"
proof -
  have "valid_utf8 (position_key n)" for n
    by (rule valid_utf8_ascii_string) (auto simp: position_key_def)
  then show ?thesis by (simp add: key_codec_def position_key_def key_position_def)
qed

lemma fold_max_ge: "x \<in> insert m (set xs) \<Longrightarrow> x \<le> fold max xs (m :: int)"
proof (induction xs arbitrary: m x)
  case (Cons y ys)
  from Cons.IH [of "max y m" "max y m"] have "max y m \<le> fold max ys (max y m)" by simp
  moreover have "x \<le> max y m \<or> x \<in> set ys" using Cons.prems by auto
  ultimately show ?case using Cons.IH [of x "max y m"] by auto
qed simp

lemma log_clock_reads: "clock_reads log_clock (\<lambda>log. log)"
  by (auto simp: clock_reads_def log_clock_def intro!: fold_max_ge)

lemma log_lookups: "lookups log_api (\<lambda>_. [\<lparr>ar_User = ''bo'', ar_Roles = [''ops'']\<rparr>])"
  by (simp add: lookups_def log_api_def io_return_def)

definition at_time :: "string \<Rightarrow> time \<Rightarrow> event_metadata" where
  "at_time i t = \<lparr>em_ID = i, em_Time = t, em_ClusterName = [], em_Type = []\<rparr>"

definition typed_at :: "string \<Rightarrow> string \<Rightarrow> time \<Rightarrow> event_metadata" where
  "typed_at ty i t = (at_time i t)\<lparr>em_Type := ty\<rparr>"

lemma typed_at_sel [simp]:
  "em_ID (typed_at ty i t) = i" "em_Time (typed_at ty i t) = t" "em_Type (typed_at ty i t) = ty"
  by (simp_all add: typed_at_def at_time_def)

section \<open>Properties\<close>

lemma login_events_concat: "concat (map (\<lambda>a. login_events [a]) as) = login_events as"
  by (simp add: login_events_def)

text \<open>
  The usage feed loses no login. Take a service with a log that only grows, in the order
  of time, and a token whose cycle has not begun. A consumer that asks for pages until
  \<open>HasMore\<close> is false is done after at most one call more than there are hundreds of events,
  with exactly the successful logins of the log since the window's start, once each and in
  order; and whatever was appended before the next cycle, the two cycles together deliver
  exactly the logins of the longer log.
\<close>

lemma usage_feed_misses_nothing:
  assumes "c = Some tc" "tc_Client tc = Some api"
    and "serves_log api [''user.login''] ekey dkey log" "key_codec ekey dkey" "clock_reads clk log"
    and "token_window tok w" "key w = []" "seen w = start w"
    and "log s2 = log s @ new" "log_events_ok (log s2)" "sorted (map logged_at (log s2))"
    and "length (log s2) < 100 * n"
  shows "\<exists>tok1 s1 evs2 tok2 s3.
    read_cycle n (usage_ListEvents clk c earliest) tok s =
      (Inr (login_events (since (start w) (log s)), tok1), s1) \<and>
    read_cycle n (usage_ListEvents clk c earliest) tok1 s2 = (Inr (evs2, tok2), s3) \<and>
    set (login_events (since (start w) (log s))) \<union> set evs2 =
      set (login_events (since (start w) (log s2)))"
proof -
  have service: "serves_log api [userLoginEventType] ekey dkey log"
    using assms(3) by (simp add: userLoginEventType_def)
  have conv: "io_return (usage_events aes) s = (Inr (concat (map (\<lambda>a. login_events [a]) aes)), s)"
    for aes and s :: 'a
    by (simp add: io_return_def login_events_eq login_events_concat)
  show ?thesis
    using usage_log.two_cycles [OF assms(1,2) service assms(4,5) conv assms(6-12), of earliest]
    by (simp only: login_events_concat)
qed

definition two_logins :: "audit_event list" where
  "two_logins = [UserLogin (typed_at ''user.login'' ''1'' 20) ''ann'' True,
     UserLogin (typed_at ''user.login'' ''2'' 30) ''bob'' True]"

lemma two_logins_types: "of_types [''user.login''] (take k two_logins) = take k two_logins"
  "of_types [''user.login''] two_logins = two_logins"
proof -
  have all: "\<forall>a \<in> set two_logins. em_Type (EventMeta a) = ''user.login''"
    by (simp add: two_logins_def)
  then show "of_types [''user.login''] two_logins = two_logins"
    by (simp add: of_types_def filter_id_conv)
  from all show "of_types [''user.login''] (take k two_logins) = take k two_logins"
    by (auto simp: of_types_def filter_id_conv dest: in_set_takeD)
qed

definition token_at_5 :: string where
  "token_at_5 = b64_encode (json_Marshal (cursor_of \<lparr>start = 5, seen = 5, key = []\<rparr>))"

lemma token_at_5_window: "token_window token_at_5 \<lparr>start = 5, seen = 5, key = []\<rparr>"
  unfolding token_at_5_def by (rule cursor_token_window) (simp add: window_ok_def timestamp_0_5)

lemma usage_feed_misses_nothing_witness:
  "\<exists>tok1 s1 evs2 tok2 s3.
    read_cycle 1 (usage_ListEvents log_clock (client_of log_api) None) token_at_5 (take 1 two_logins) =
      (Inr (login_events (take 1 two_logins), tok1), s1) \<and>
    read_cycle 1 (usage_ListEvents log_clock (client_of log_api) None) tok1 two_logins =
      (Inr (evs2, tok2), s3) \<and>
    set (login_events (take 1 two_logins)) \<union> set evs2 = set (login_events two_logins)"
proof -
  let ?w = "\<lparr>start = 5, seen = 5, key = []\<rparr>" and ?log = "of_types [''user.login'']"
  have w: "key ?w = []" "seen ?w = start ?w" by simp_all
  have log: "?log two_logins = ?log (take 1 two_logins) @ drop 1 two_logins" "log_events_ok (?log two_logins)"
    "sorted (map logged_at (?log two_logins))" "length (?log two_logins) < 100 * 1"
    unfolding two_logins_types
    by (simp_all add: two_logins_def log_events_ok_def logged_at_def time_in_range_def nanos_per_sec_def)
  have since: "since (start ?w) (take 1 two_logins) = take 1 two_logins"
    "since (start ?w) two_logins = two_logins"
    by (simp_all add: since_def two_logins_def logged_at_def)
  have some: "[''user.login''] \<noteq> []" by simp
  show ?thesis
    using usage_feed_misses_nothing [where log = ?log and s = "take 1 two_logins" and ?s2.0 = two_logins
        and clk = log_clock and w = ?w and earliest = None, OF client_of_def tc_client_eq
        filters_log_serves [OF log_api_serves some] position_key_codec
        clock_reads_types [OF log_clock_reads] token_at_5_window w log]
    unfolding two_logins_types since .
qed

text \<open>
  C1: The audit feed loses no change: as for the usage feed, with what \<open>audit_spec\<close> says of
  each event, on a service that answers the lookups of access requests.
\<close>

theorem audit_feed_misses_nothing:
  assumes "c = Some tc" "tc_Client tc = Some api" "lookups api look"
    and "serves_log api resourceChangeEventTypes ekey dkey log" "key_codec ekey dkey" "clock_reads clk log"
    and "token_window tok w" "key w = []" "seen w = start w"
    and "log s2 = log s @ new" "log_events_ok (log s2)" "sorted (map logged_at (log s2))"
    and "length (log s2) < 100 * n"
  shows "\<exists>tok1 s1 evs2 tok2 s3.
    read_cycle n (audit_ListEvents clk c earliest) tok s =
      (Inr (concat (map (audit_spec look) (since (start w) (log s))), tok1), s1) \<and>
    read_cycle n (audit_ListEvents clk c earliest) tok1 s2 = (Inr (evs2, tok2), s3) \<and>
    set (concat (map (audit_spec look) (since (start w) (log s)))) \<union> set evs2 =
      set (concat (map (audit_spec look) (since (start w) (log s2))))"
  by (rule audit_log.two_cycles [OF assms(1,2,4-6) audit_page_spec [OF assms(1-3)] assms(7-13)])

definition two_changes :: "audit_event list" where
  "two_changes = [UserCreate (typed_at ''user.create'' ''1'' 20) ''ann'' [''dev''],
     AccessRequestCreate (typed_at ''access_request.expire'' ''2'' 30) [] [] ''q'' ''EXPIRED'']"

lemma two_changes_types: "of_types resourceChangeEventTypes (take k two_changes) = take k two_changes"
  "of_types resourceChangeEventTypes two_changes = two_changes"
proof -
  have all: "\<forall>a \<in> set two_changes. em_Type (EventMeta a) \<in> set resourceChangeEventTypes"
    by (simp add: two_changes_def resourceChangeEventTypes_def userCreateEventType_def
        accessRequestExpireEventType_def)
  then show "of_types resourceChangeEventTypes two_changes = two_changes"
    by (simp add: of_types_def filter_id_conv)
  from all show "of_types resourceChangeEventTypes (take k two_changes) = take k two_changes"
    by (auto simp: of_types_def filter_id_conv dest: in_set_takeD)
qed

theorem audit_feed_misses_nothing_witness:
  "\<exists>tok1 s1 evs2 tok2 s3.
    read_cycle 1 (audit_ListEvents log_clock (client_of log_api) None) token_at_5 (take 1 two_changes) =
      (Inr (concat (map (audit_spec (\<lambda>_. [\<lparr>ar_User = ''bo'', ar_Roles = [''ops'']\<rparr>])) (take 1 two_changes)), tok1), s1) \<and>
    read_cycle 1 (audit_ListEvents log_clock (client_of log_api) None) tok1 two_changes =
      (Inr (evs2, tok2), s3) \<and>
    set (concat (map (audit_spec (\<lambda>_. [\<lparr>ar_User = ''bo'', ar_Roles = [''ops'']\<rparr>])) (take 1 two_changes))) \<union> set evs2 =
      set (concat (map (audit_spec (\<lambda>_. [\<lparr>ar_User = ''bo'', ar_Roles = [''ops'']\<rparr>])) two_changes))"
proof -
  let ?w = "\<lparr>start = 5, seen = 5, key = []\<rparr>" and ?log = "of_types resourceChangeEventTypes"
  have w: "key ?w = []" "seen ?w = start ?w" by simp_all
  have log: "?log two_changes = ?log (take 1 two_changes) @ drop 1 two_changes" "log_events_ok (?log two_changes)"
    "sorted (map logged_at (?log two_changes))" "length (?log two_changes) < 100 * 1"
    unfolding two_changes_types
    by (simp_all add: two_changes_def log_events_ok_def logged_at_def time_in_range_def nanos_per_sec_def)
  have since: "since (start ?w) (take 1 two_changes) = take 1 two_changes"
    "since (start ?w) two_changes = two_changes"
    by (simp_all add: since_def two_changes_def logged_at_def)
  show ?thesis
    using audit_feed_misses_nothing [where log = ?log and s = "take 1 two_changes" and ?s2.0 = two_changes
        and clk = log_clock and w = ?w and earliest = None, OF client_of_def tc_client_eq log_lookups
        filters_log_serves [OF log_api_serves resourceChangeEventTypes_some]
        position_key_codec clock_reads_types [OF log_clock_reads] token_at_5_window w log]
    unfolding two_changes_types since .
qed

text \<open>
  C8: How long a cycle takes. Take a service with one log that honours the event types of a
  request, whose log does not change during the cycle. A consumer that follows \<open>HasMore\<close> is done
  after exactly as many calls as there are pages of 100 events of the feed's own types from the
  window's start on, and after one call when there is no such event: with that many calls it
  has everything, with one less it is not done. This holds for both feeds.
\<close>

theorem cycle_takes_pages:
  assumes "c = Some tc" "tc_Client tc = Some api" "lookups api look"
    and "filters_log api ekey dkey log" "key_codec ekey dkey" "clock_reads clk log"
    and "token_window tok w" "key w = []" "log_events_ok (log s)"
    and "logins = since (start w) (of_types [''user.login''] (log s))"
    and "changes = since (start w) (of_types resourceChangeEventTypes (log s))"
  shows "(if page_count (length logins) \<le> n
      then \<exists>tok' s'. read_cycle n (usage_ListEvents clk c earliest) tok s =
        (Inr (login_events logins, tok'), s')
      else fst (read_cycle n (usage_ListEvents clk c earliest) tok s) = Inl (Errorf ''out of fuel'')) \<and>
    (if page_count (length changes) \<le> n
      then \<exists>tok' s'. read_cycle n (audit_ListEvents clk c earliest) tok s =
        (Inr (concat (map (audit_spec look) changes), tok'), s')
      else fst (read_cycle n (audit_ListEvents clk c earliest) tok s) = Inl (Errorf ''out of fuel''))"
proof
  have service: "serves_log api [userLoginEventType] ekey dkey (\<lambda>s. of_types [''user.login''] (log s))"
    using filters_log_serves [OF assms(4), of "[''user.login'']"] by (simp add: userLoginEventType_def)
  have conv: "io_return (usage_events aes) s = (Inr (concat (map (\<lambda>a. login_events [a]) aes)), s)"
    for aes and s :: 'a
    by (simp add: io_return_def login_events_eq login_events_concat)
  show "if page_count (length logins) \<le> n
      then \<exists>tok' s'. read_cycle n (usage_ListEvents clk c earliest) tok s =
        (Inr (login_events logins, tok'), s')
      else fst (read_cycle n (usage_ListEvents clk c earliest) tok s) = Inl (Errorf ''out of fuel'')"
    using usage_log.cycle_calls [OF assms(1,2) service assms(5) clock_reads_types [OF assms(6)] conv
        log_events_types [OF assms(9)] assms(7,8), of n earliest]
    unfolding login_events_concat assms(10) .
  show "if page_count (length changes) \<le> n
      then \<exists>tok' s'. read_cycle n (audit_ListEvents clk c earliest) tok s =
        (Inr (concat (map (audit_spec look) changes), tok'), s')
      else fst (read_cycle n (audit_ListEvents clk c earliest) tok s) = Inl (Errorf ''out of fuel'')"
    unfolding assms(11)
    by (rule audit_log.cycle_calls [OF assms(1,2) filters_log_serves [OF assms(4) resourceChangeEventTypes_some]
          assms(5) clock_reads_types [OF assms(6)] audit_page_spec [OF assms(1-3)]
          log_events_types [OF assms(9)] assms(7,8)])
qed

text \<open>101 logins and one change of a user.\<close>

definition many_events :: "audit_event list" where
  "many_events = UserCreate (typed_at ''user.create'' ''0'' 20) ''ann'' [] #
     replicate 101 (UserLogin (typed_at ''user.login'' ''1'' 20) ''ann'' True)"

text \<open>The logins take two calls and no fewer, the change takes one.\<close>

theorem cycle_takes_pages_witness:
  "(\<exists>tok' s'. read_cycle 2 (usage_ListEvents log_clock (client_of log_api) None) token_at_5 many_events =
     (Inr (login_events (tl many_events), tok'), s')) \<and>
   fst (read_cycle 1 (usage_ListEvents log_clock (client_of log_api) None) token_at_5 many_events) =
     Inl (Errorf ''out of fuel'') \<and>
   (\<exists>tok' s'. read_cycle 1 (audit_ListEvents log_clock (client_of log_api) None) token_at_5 many_events =
     (Inr (audit_spec (\<lambda>_. [\<lparr>ar_User = ''bo'', ar_Roles = [''ops'']\<rparr>]) (hd many_events), tok'), s'))"
proof -
  let ?w = "\<lparr>start = 5, seen = 5, key = []\<rparr>"
  have k: "key ?w = []" by simp
  have ok: "log_events_ok many_events"
    by (simp add: many_events_def log_events_ok_def list_all_iff logged_at_def time_in_range_def
        nanos_per_sec_def)
  have logins: "tl many_events = since (start ?w) (of_types [''user.login''] many_events)"
    by (simp add: since_def of_types_def many_events_def logged_at_def)
  have changes: "[hd many_events] = since (start ?w) (of_types resourceChangeEventTypes many_events)"
    by (simp add: since_def of_types_def many_events_def logged_at_def resourceChangeEventTypes_def
        userCreateEventType_def userUpdateEventType_def roleCreateEventType_def roleUpdateEventType_def
        accessRequestReviewEventType_def accessRequestUpdateEventType_def
        accessRequestExpireEventType_def lockCreateEventType_def lockDeleteEventType_def)
  have len: "length (tl many_events) = 101" by (simp add: many_events_def)
  note calls = cycle_takes_pages [where log = "\<lambda>log. log" and s = many_events and clk = log_clock and w = ?w
      and earliest = None, OF client_of_def tc_client_eq log_lookups log_api_serves
      position_key_codec log_clock_reads token_at_5_window k ok logins changes,
      unfolded len]
  show ?thesis
    using calls [of 2, THEN conjunct1] calls [of 1] by (simp add: page_count_def)
qed

end
