(* ===== verification/Feed_Repeats.thy ===== *)
theory Feed_Repeats
  imports Feed_Cycle
begin

text \<open>
  What the second of two consecutive cycles of a feed returns, exactly. The lower bound of a
  search includes the instant itself, so the cycle reports again what was logged at the
  latest time the first one saw, and nothing else of the old log.
\<close>

lemma concat_map_filter_eq:
  "(\<And>x. x \<in> set xs \<Longrightarrow> P x \<noteq> Q x \<Longrightarrow> f x = []) \<Longrightarrow>
     concat (map f (filter P xs)) = concat (map f (filter Q xs))"
  by (induction xs) auto

text \<open>The latest time a cycle that starts at \<open>t\<close> and reads \<open>as\<close> has seen.\<close>

definition latest_of :: "(audit_event \<Rightarrow> time) \<Rightarrow> time \<Rightarrow> audit_event list \<Rightarrow> time" where
  "latest_of event_time t as = fold see (map event_time as) t"

lemma latest_of_Max:
  "latest_of event_time t as = Max (insert t (event_time ` set as - {zero_time}))"
  by (simp add: latest_of_def fold_see_Max)

context log_feed
begin

lemma second_cycle:
  assumes c: "c = Some tc" "tc_Client tc = Some api"
    and service: "serves_log api types ekey dkey log" "key_codec ekey dkey" "clock_reads clk log"
    and conv: "\<And>aes s. convert c aes s = (Inr (concat (map spec aes)), s)"
    and silent: "\<And>a. event_time a = zero_time \<Longrightarrow> logged_at a \<noteq> zero_time \<Longrightarrow> spec a = []"
    and w: "token_window tok w" "key w = []" "seen w = start w" "zero_time < start w"
    and log: "log s2 = log s @ new" "log_events_ok (log s2)" "sorted (map logged_at (log s2))"
    and fuel: "length (log s2) < 100 * n"
  shows "\<exists>tok1 s1 tok2 s3.
    read_cycle n (list_events clk c earliest) tok s =
      (Inr (concat (map spec (since (start w) (log s))), tok1), s1) \<and>
    read_cycle n (list_events clk c earliest) tok1 s2 =
      (Inr (concat (map spec (filter (\<lambda>a. logged_at a = latest_of event_time (start w) (since (start w) (log s)))
              (since (start w) (log s)))) @
            concat (map spec (since (start w) new)), tok2), s3)"
proof -
  let ?t = "start w"
  let ?old = "since ?t (log s)"
  let ?m = "latest_of event_time ?t ?old"
  have old: "log_events_ok (log s)" "0 < n" "length ?old \<le> 100 * n"
    using log(1,2) fuel length_since [of ?t "log s"] by (simp_all add: log_events_ok_def)
  from whole_cycle [OF c service conv old(1) w(1,2) old(2,3), of earliest]
  obtain tok1 s1 where r1: "read_cycle n (list_events clk c earliest) tok s =
      (Inr (concat (map spec ?old), tok1), s1)"
    and w1: "token_window tok1 \<lparr>start = ?m, seen = ?m, key = []\<rparr>"
    by (auto simp: w(3) Let_def latest_of_def)
  have k: "key \<lparr>start = ?m, seen = ?m, key = []\<rparr> = []" by simp
  obtain tok2 s3 where r2: "read_cycle n (list_events clk c earliest) tok1 s2 =
      (Inr (concat (map spec (since ?m (log s2))), tok2), s3)"
    by (rule whole_cycle [OF c service conv log(2) w1 k old(2), of earliest])
      (use length_since [of ?m "log s2"] fuel in simp_all)
  have order: "\<forall>a \<in> set (log s). \<forall>b \<in> set new. logged_at a \<le> logged_at b"
    using log(1,3) by (auto simp: sorted_append)
  have tm: "?t \<le> ?m" by (simp add: latest_of_def fold_see_ge)
  have "since ?m new = since ?t new"
    using next_start_before [OF order] tm
    by (auto simp: since_def latest_of_def intro!: filter_cong)
  moreover have "concat (map spec (since ?m (log s))) =
      concat (map spec (filter (\<lambda>a. logged_at a = ?m) ?old))"
  proof -
    have fold: "filter (\<lambda>a. logged_at a = ?m) ?old = filter (\<lambda>a. logged_at a = ?m) (log s)"
      using tm by (auto simp: since_def intro!: filter_cong)
    show ?thesis
      unfolding fold since_def [of ?m]
    proof (rule concat_map_filter_eq)
      fix a assume a: "a \<in> set (log s)" "(?m \<le> logged_at a) \<noteq> (logged_at a = ?m)"
      then have late: "?m < logged_at a" by auto
      then have "a \<in> set ?old" using a(1) tm by (simp add: since_def)
      then have "event_time a \<le> ?m \<or> event_time a = zero_time"
        by (auto simp: latest_of_Max)
      then have "event_time a = zero_time"
        using event_time_logged [of a] late by auto
      moreover have "logged_at a \<noteq> zero_time" using late tm w(4) by auto
      ultimately show "spec a = []" by (rule silent)
    qed
  qed
  ultimately have "concat (map spec (since ?m (log s2))) =
      concat (map spec (filter (\<lambda>a. logged_at a = ?m) ?old)) @ concat (map spec (since ?t new))"
    by (simp add: log(1) since_def)
  with r1 r2 show ?thesis by auto
qed

end

section \<open>Properties\<close>

lemma login_silent:
  "(snd \<circ> convertToUsageEvent) a = zero_time \<Longrightarrow> logged_at a \<noteq> zero_time \<Longrightarrow> login_events [a] = []"
  by (cases a) (auto simp: login_events_def logged_at_def Let_def split: if_splits)

lemma audit_silent:
  "audit_event_time a = zero_time \<Longrightarrow> logged_at a \<noteq> zero_time \<Longrightarrow> audit_spec look a = []"
  unfolding audit_time_spec_eq
  by (cases a) (auto simp: logged_at_def change_spec_def roles_spec_def split: if_splits)


text \<open>
  A log with both kinds of events: the login and the change at 20 are the latest of the first
  cycles, and the login comes again with the one at 30.
\<close>

definition mixed_log :: "audit_event list" where
  "mixed_log = UserCreate (typed_at ''user.create'' ''0'' 20) ''ann'' [] # two_logins"


end
