(* ===== verification/Feed_Tokens.thy ===== *)
theory Feed_Tokens
  imports Event_Feeds
begin

text \<open>
  What the feeds do with a token that is not one of theirs. The cursor is opaque text that a
  client may store, cut or make up; it is decoded and its start time is parsed before the
  clock is read or the service is asked.
\<close>

section \<open>Reading the cursor\<close>

lemma decode_cursor_error:
  assumes "decode_cursor tok = Inl e"
  shows "\<exists>e'. e = wrap_error ''baton-teleport: failed to decode page cursor'' e' \<or>
    e = wrap_error ''baton-teleport: failed to unmarshal page cursor'' e'"
proof (cases "b64_decode tok")
  case (Inl e')
  with assms show ?thesis by (auto simp: decode_cursor_def)
next
  case (Inr data)
  with assms show ?thesis by (cases "json_Unmarshal data") (auto simp: decode_cursor_def)
qed

lemma unmarshal_bad:
  "tok \<noteq> [] \<Longrightarrow> decode_cursor tok = Inl e \<Longrightarrow>
     unmarshalEventPageCursor clk (Some \<lparr>st_Size = n, st_Cursor = tok\<rparr>) d s = (Inl e, s)"
  by (simp add: unmarshalEventPageCursor_def io_fail_def)

text \<open>A decoded cursor is completed: an empty latest event is where the cursor starts.\<close>

definition completed :: "event_page_cursor \<Rightarrow> event_page_cursor" where
  "completed cur = (if LatestEventSeen cur = [] then cur\<lparr>LatestEventSeen := StartAt cur\<rparr> else cur)"

lemma completed_StartAt [simp]: "StartAt (completed cur) = StartAt cur"
  by (simp add: completed_def)

lemma unmarshal_started:
  "tok \<noteq> [] \<Longrightarrow> decode_cursor tok = Inr cur \<Longrightarrow> StartAt cur \<noteq> [] \<Longrightarrow>
     unmarshalEventPageCursor clk (Some \<lparr>st_Size = n, st_Cursor = tok\<rparr>) d s = (Inr (completed cur), s)"
  by (simp add: unmarshalEventPageCursor_def completed_def) (simp add: io_return_def)

text \<open>Whatever is read, a cursor that is returned has a start and a latest event.\<close>

lemma unmarshal_filled:
  assumes "unmarshalEventPageCursor clk pToken d s = (Inr cur, s')"
  shows "StartAt cur \<noteq> [] \<and> LatestEventSeen cur \<noteq> []"
proof -
  let ?c0 = "case pToken of
         Some t \<Rightarrow> if st_Cursor t \<noteq> [] then decode_cursor (st_Cursor t) else Inr empty_cursor
       | None \<Rightarrow> Inr empty_cursor"
  from assms show ?thesis
    unfolding unmarshalEventPageCursor_def
    by (cases ?c0) (auto simp: io_return_def io_fail_def go_format_nonempty
        elim!: io_bind_InrE split: if_splits option.splits)
qed

section \<open>A page with such a cursor\<close>

context paged_feed
begin

lemma page_bad_token:
  assumes "tok \<noteq> []" "decode_cursor tok = Inl e"
  shows "list_events clk c earliest (Some \<lparr>st_Size = n, st_Cursor = tok\<rparr>) s = (Inl e, s)"
  using unmarshal_bad [OF assms, of clk n earliest s]
  by (simp add: list_events_page open_page_def io_bind_def)

lemma page_bad_start:
  assumes "tok \<noteq> []" "decode_cursor tok = Inr cur" "StartAt cur \<noteq> []" "go_parse (StartAt cur) = Inl e"
  shows "list_events clk c earliest (Some \<lparr>st_Size = n, st_Cursor = tok\<rparr>) s = (Inl (wrap_error parse_msg e), s)"
  using unmarshal_started [OF assms(1-3), of clk n earliest s] assms(4)
  by (simp add: list_events_page open_page_def io_bind_def io_lift_def)

text \<open>With a start time that parses, the search begins there and at the cursor's key.\<close>

lemma page_any_token:
  assumes "tok \<noteq> []" "decode_cursor tok = Inr cur" "StartAt cur \<noteq> []" "go_parse (StartAt cur) = Inr t"
    and "clk s = (u, s1)" "c = Some tc" "tc_Client tc = Some api"
    and "api_SearchEvents api (page_request types t u (LastKey cur)) s1 = (Inl e, s2)"
  shows "list_events clk c earliest (Some \<lparr>st_Size = n, st_Cursor = tok\<rparr>) s = (Inl (wrap_error search_msg e), s2)"
  using unmarshal_started [OF assms(1-3), of clk n earliest s] assms(4-)
  by (simp add: list_events_page open_page_def io_bind_def io_lift_def io_wrap_def now_def
      io_return_def completed_def)

end

section \<open>Properties\<close>

text \<open>
  C20: No text in the place of a token does harm. If it does not decode (base64, then JSON with
  string fields) both feeds fail with that error; if it decodes to a start that is not an
  RFC 3339 time they fail with the parse error; in either case the clock is not read and
  the service is not asked. And every cursor that is accepted has a start and a latest event.
\<close>

theorem bad_token_fails_before_any_call:
  assumes "tok \<noteq> []"
  shows "case decode_cursor tok of
      Inl e \<Rightarrow>
        (\<exists>e'. e = wrap_error ''baton-teleport: failed to decode page cursor'' e' \<or>
              e = wrap_error ''baton-teleport: failed to unmarshal page cursor'' e') \<and>
        usage_ListEvents clk c earliest (Some \<lparr>st_Size = n, st_Cursor = tok\<rparr>) s = (Inl e, s) \<and>
        audit_ListEvents clk c earliest (Some \<lparr>st_Size = n, st_Cursor = tok\<rparr>) s = (Inl e, s)
    | Inr cur \<Rightarrow>
        (\<forall>e. StartAt cur \<noteq> [] \<and> go_parse (StartAt cur) = Inl e \<longrightarrow>
          usage_ListEvents clk c earliest (Some \<lparr>st_Size = n, st_Cursor = tok\<rparr>) s =
            (Inl (wrap_error ''baton-teleport: failed to parse start_at'' e), s) \<and>
          audit_ListEvents clk c earliest (Some \<lparr>st_Size = n, st_Cursor = tok\<rparr>) s =
            (Inl (wrap_error ''baton-teleport: failed to parse audit start_at'' e), s)) \<and>
        (\<forall>cur' s'. unmarshalEventPageCursor clk (Some \<lparr>st_Size = n, st_Cursor = tok\<rparr>) earliest s =
            (Inr cur', s') \<longrightarrow> StartAt cur' \<noteq> [] \<and> LatestEventSeen cur' \<noteq> [])"
proof (cases "decode_cursor tok")
  case (Inl e)
  show ?thesis
    using usage_feed.page_bad_token [OF assms Inl, of clk c earliest n s]
      audit_feed.page_bad_token [OF assms Inl, of clk c earliest n s]
      decode_cursor_error [OF Inl]
    by (simp add: Inl)
next
  case (Inr cur)
  show ?thesis
    using usage_feed.page_bad_start [OF assms Inr, of _ clk c earliest n s]
      audit_feed.page_bad_start [OF assms Inr, of _ clk c earliest n s]
    by (auto simp: Inr dest: unmarshal_filled)
qed

text \<open>A token that is not base64, and one whose start is not a time.\<close>

theorem bad_token_fails_before_any_call_witness:
  "usage_ListEvents (\<lambda>s. (0, Suc s)) (client_of offline_api) None (Some \<lparr>st_Size = 0, st_Cursor = ''*''\<rparr>) 0 =
     (Inl (Wrapf ''baton-teleport: failed to decode page cursor'' corrupt_input), 0) \<and>
   (\<exists>e. audit_ListEvents (\<lambda>s. (0, Suc s)) (client_of offline_api) None
     (Some \<lparr>st_Size = 0, st_Cursor = b64_encode (json_Marshal (empty_cursor\<lparr>StartAt := ''soon''\<rparr>))\<rparr>) 0 = (Inl e, 0))"
proof
  have d: "decode_cursor ''*'' = Inl (Wrapf ''baton-teleport: failed to decode page cursor'' corrupt_input)"
    by code_simp
  show "usage_ListEvents (\<lambda>s. (0, Suc s)) (client_of offline_api) None (Some \<lparr>st_Size = 0, st_Cursor = ''*''\<rparr>) 0 =
     (Inl (Wrapf ''baton-teleport: failed to decode page cursor'' corrupt_input), 0)"
    using bad_token_fails_before_any_call [of "''*''" "\<lambda>s. (0, Suc s)" "client_of offline_api" None 0 "0 :: nat"]
    by (simp add: d)
  let ?cur = "empty_cursor\<lparr>StartAt := ''soon''\<rparr>"
  have v: "cursor_valid ?cur" by code_simp
  have ne: "b64_encode (json_Marshal ?cur) \<noteq> []" by (rule encode_cursor_nonempty)
  have dec: "decode_cursor (b64_encode (json_Marshal ?cur)) = Inr ?cur"
    using decode_cursor_encode [OF v] by simp
  have p: "go_parse ''soon'' = Inl (Errorf ''parsing time'')" by code_simp
  show "\<exists>e. audit_ListEvents (\<lambda>s. (0, Suc s)) (client_of offline_api) None
     (Some \<lparr>st_Size = 0, st_Cursor = b64_encode (json_Marshal ?cur)\<rparr>) 0 = (Inl e, 0)"
    using bad_token_fails_before_any_call [OF ne, of "\<lambda>s. (0, Suc s)" "client_of offline_api" None 0 "0 :: nat"]
    by (simp add: dec p)
qed

end
