(* ===== verification/Provisioning.thy ===== *)
theory Provisioning
  imports Roles
begin

text \<open>
  Provisioning seen from the synchronisation: on a service that stores users, what \<open>Grant\<close> and
  \<open>Revoke\<close> (\<open>pkg/connector/roles.go\<close>) do to the users is what the next \<open>List\<close> and \<open>Grants\<close>
  report, and the objects a synchronisation returns are ones they accept.
\<close>

section \<open>Members\<close>

text \<open>Who holds a role in the store, and whom a list of grants names.\<close>

definition members_of :: "string \<Rightarrow> (string \<Rightarrow> user_v2 option) \<Rightarrow> string set" where
  "members_of role s = {n. \<exists>u. s n = Some u \<and> role \<in> set (usr_Roles u)}"

definition grant_members :: "grant list \<Rightarrow> string set" where
  "grant_members gs = {n. \<exists>g \<in> set gs. \<exists>p. gr_Principal g = Some p \<and>
     res_Id p = Some \<lparr>rid_ResourceType = ''user'', rid_Resource = n\<rparr>}"

text \<open>
  A store holds every user under the user's name, with names and revisions that are text, and
  the service lists the users it stores under the given names.
\<close>

definition store_ok :: "string list \<Rightarrow> (string \<Rightarrow> user_v2 option) \<Rightarrow> bool" where
  "store_ok names s \<longleftrightarrow> dom s \<subseteq> set names \<and>
     (\<forall>n u. s n = Some u \<longrightarrow> md_Name (usr_Metadata u) = n \<and> user_text_ok u)"

definition lists_users :: "string list \<Rightarrow> (string \<Rightarrow> user_v2 option) teleport_api \<Rightarrow> bool" where
  "lists_users names api \<longleftrightarrow> (\<forall>s. store_ok names s \<longrightarrow>
     (\<exists>us. api_GetUsers api False s = (Inr us, s) \<and> set us = ran s))"

lemma store_ok_update:
  "store_ok names s \<Longrightarrow> s n = Some u \<Longrightarrow> usr_Metadata u' = usr_Metadata u \<Longrightarrow> store_ok names (s(n \<mapsto> u'))"
  by (auto simp: store_ok_def user_text_ok_def)

lemma grant_members_concat:
  assumes "set us = ran s" "\<And>n u. s n = Some u \<Longrightarrow> md_Name (usr_Metadata u) = n"
  shows "grant_members (concat (map (\<lambda>u. replicate (count_list (usr_Roles u) role) (member_grant r u)) us))
    = members_of role s"
proof -
  have one: "grant_members (concat (map (\<lambda>u. replicate (count_list (usr_Roles u) role) (member_grant r u)) us))
      = (\<lambda>u. md_Name (usr_Metadata u)) ` {u \<in> set us. role \<in> set (usr_Roles u)}" for us
    by (auto simp: grant_members_def member_grant_def count_list_0_iff image_iff)
  show ?thesis
    unfolding one assms(1)
    using assms(2) by (auto simp: members_of_def ran_def image_iff)
qed

text \<open>After a successful \<open>List\<close>, \<open>Grants\<close> names exactly the members the store has.\<close>

lemma sync_sees_store:
  assumes "c = Some tc" "tc_Client tc = Some api" "lists_users names api" "store_ok names s"
    and "api_GetRoles api s = (Inr roles, s)" "list_all role_text_ok roles"
  shows "role_List c (s, cache) = (Inr (map role_resource_of roles), (s, []))"
    and "\<exists>gs users. role_Grants c (Some (role_ref role)) (s, []) = (Inr gs, (s, users)) \<and>
      grant_members gs = members_of role s"
proof -
  show "role_List c (s, cache) = (Inr (map role_resource_of roles), (s, []))"
    using assms(1,2,5) role_conv.traverse_accepts [OF assms(6)]
    by (simp add: role_List_def on_world_def put_cache_def io_bind_def io_lift_def io_return_def)
  obtain us where us: "api_GetUsers api False s = (Inr us, s)" "set us = ran s"
    using assms(3,4) by (auto simp: lists_users_def)
  have names: "\<And>n u. s n = Some u \<Longrightarrow> md_Name (usr_Metadata u) = n"
    and text_ok: "list_all user_text_ok us"
    using assms(4) us(2) by (auto simp: store_ok_def list_all_iff ran_def)
  from grant_members_concat [OF us(2) names]
  show "\<exists>gs users. role_Grants c (Some (role_ref role)) (s, []) = (Inr gs, (s, users)) \<and>
      grant_members gs = members_of role s"
    using role_Grants_run [OF assms(1,2) us(1) text_ok, of "role_ref role"]
    by (simp add: role_ref_def)
qed

text \<open>
  C14: What is provisioned is what the next synchronisation reports. On a service that stores
  and lists users, a successful \<open>Grant\<close> followed by \<open>List\<close> and \<open>Grants\<close> reports the
  former members and the new one, whatever the cache held before, and \<open>Revoke\<close> followed by
  them reports the former members without the revoked one.
\<close>

theorem provisioning_is_synced:
  assumes "c = Some tc" "tc_Client tc = Some api" "user_store api" "lists_users names api"
    and "store_ok names s" "s name = Some user" "name \<noteq> []" "Wildcard \<noteq> name" "role \<noteq> []"
    and "\<And>s. api_GetRoles api s = (Inr roles, s)" "list_all role_text_ok roles"
  shows "(\<exists>s1 rv gs s2. role_Grant c (Some (user_ref name)) (Some (membership_of role)) s = (Inr (), s1) \<and>
      role_List c (s1, cache) = (Inr rv, (s1, [])) \<and>
      role_Grants c (Some (role_ref role)) (s1, []) = (Inr gs, s2) \<and>
      grant_members gs = insert name (members_of role s)) \<and>
    (\<exists>s1 rv gs s2. role_Revoke c (Some (grant_of role name)) s = (Inr (), s1) \<and>
      role_List c (s1, cache) = (Inr rv, (s1, [])) \<and>
      role_Grants c (Some (role_ref role)) (s1, []) = (Inr gs, s2) \<and>
      grant_members gs = members_of role s - {name})"
proof -
  have n: "md_Name (usr_Metadata user) = name"
    using assms(5,6) by (simp add: store_ok_def)
  let ?g = "s(name \<mapsto> granted role name user)" and ?r = "s(name \<mapsto> revoked role name user)"
  have ok: "store_ok names ?g" "store_ok names ?r"
    by (rule store_ok_update [OF assms(5,6)], simp)+
  have mem: "members_of role ?g = insert name (members_of role s)"
    "members_of role ?r = members_of role s - {name}"
    using assms(6) by (auto simp: members_of_def)
  note sync = sync_sees_store [OF assms(1,2,4) _ assms(10,11)]
  obtain gs users where "role_Grants c (Some (role_ref role)) (?g, []) = (Inr gs, (?g, users))"
    "grant_members gs = members_of role ?g"
    using sync(2) [OF ok(1)] by blast
  moreover obtain gs' users' where "role_Grants c (Some (role_ref role)) (?r, []) = (Inr gs', (?r, users'))"
    "grant_members gs' = members_of role ?r"
    using sync(2) [OF ok(2)] by blast
  ultimately show ?thesis
    using store_Grant [where s = s, OF assms(1-3,7-9,6) n] sync(1) [OF ok(1), of cache]
      store_Revoke [where s = s, OF assms(1-3,7,6) n, of role] sync(1) [OF ok(2), of cache] mem
    by metis
qed

definition town_api :: "(string \<Rightarrow> user_v2 option) teleport_api" where
  "town_api = store_api\<lparr>
     api_GetUsers := (\<lambda>_ s. (Inr (concat (map (\<lambda>n. case s n of None \<Rightarrow> [] | Some u \<Rightarrow> [u]) [''ann'', ''bob''])), s)),
     api_GetRoles := (\<lambda>s. (Inr [], s))\<rparr>"

lemma town_lists: "lists_users [''ann'', ''bob''] town_api"
proof -
  have "set (concat (map (\<lambda>n. case s n of None \<Rightarrow> [] | Some u \<Rightarrow> [u]) ns)) = ran s"
    if "dom s \<subseteq> set ns" for s :: "string \<Rightarrow> user_v2 option" and ns
    using that by (force simp: ran_def dom_def split: option.splits)
  from this [of _ "[''ann'', ''bob'']"] show ?thesis
    unfolding lists_users_def town_api_def store_ok_def by (auto simp del: set_concat)
qed

definition town :: "string \<Rightarrow> user_v2 option" where
  "town = [''ann'' \<mapsto> sample_user ''ann'' [''dev''], ''bob'' \<mapsto> sample_user ''bob'' [''ops'']]"

lemma town_ok: "store_ok [''ann'', ''bob''] town"
proof -
  have "valid_utf8 ''ann''" "valid_utf8 ''bob''" by code_simp+
  then show ?thesis
    by (auto simp: town_def store_ok_def sample_user_text sample_user_def sample_metadata_def
        intro: sample_user_text [unfolded sample_user_def sample_metadata_def] split: if_splits)
qed

lemma town_store: "user_store town_api"
  using store_api_store by (simp add: user_store_def town_api_def)

theorem provisioning_is_synced_witness:
  "\<exists>s1 rv gs s2. role_Grant (client_of town_api) (Some (user_ref ''ann'')) (Some (membership_of ''ops'')) town = (Inr (), s1) \<and>
    role_List (client_of town_api) (s1, [sample_user ''ann'' [''dev'']]) = (Inr rv, (s1, [])) \<and>
    role_Grants (client_of town_api) (Some (role_ref ''ops'')) (s1, []) = (Inr gs, s2) \<and>
    grant_members gs = {''ann'', ''bob''}"
proof -
  have hyps: "town ''ann'' = Some (sample_user ''ann'' [''dev''])" "''ann'' \<noteq> []" "Wildcard \<noteq> ''ann''"
    "''ops'' \<noteq> []" "\<And>s. api_GetRoles town_api s = (Inr [], s)" "list_all role_text_ok []"
    by (simp_all add: Wildcard_def town_api_def town_def)
  have mem: "insert ''ann'' (members_of ''ops'' town) = {''ann'', ''bob''}"
    by (auto simp: members_of_def town_def sample_user_def split: if_splits)
  show ?thesis
    using conjunct1 [OF provisioning_is_synced [OF client_of_def tc_client_eq town_store town_lists town_ok hyps,
          of "[sample_user ''ann'' [''dev'']]"]]
    unfolding mem .
qed

section \<open>The objects of a synchronisation\<close>

text \<open>Of a principal, an entitlement and a grant only the ids count.\<close>

lemma role_Grant_ids:
  assumes "res_Id p = Some \<lparr>rid_ResourceType = ''user'', rid_Resource = name\<rparr>"
    and "ent_Resource e = Some er" "res_Id er = Some \<lparr>rid_ResourceType = rt, rid_Resource = role\<rparr>"
  shows "role_Grant c (Some p) (Some e) = role_Grant c (Some (user_ref name)) (Some (membership_of role))"
  using assms by (simp add: role_Grant_def fun_eq_iff)

lemma role_Revoke_ids:
  assumes "gr_Principal g = Some p" "res_Id p = Some \<lparr>rid_ResourceType = ''user'', rid_Resource = name\<rparr>"
    and "gr_Entitlement g = Some e" "ent_Resource e = Some er"
    and "res_Id er = Some \<lparr>rid_ResourceType = rt, rid_Resource = role\<rparr>"
  shows "role_Revoke c (Some g) = role_Revoke c (Some (grant_of role name))"
  using assms by (simp add: role_Revoke_def grant_of_def fun_eq_iff)

lemma role_resource_id: "res_Id (role_resource_of r) =
    Some \<lparr>rid_ResourceType = ''role'', rid_Resource = md_Name (rol_Metadata r)\<rparr>"
  by (simp add: role_resource_of_def)

lemma role_resource_name: "res_DisplayName (role_resource_of r) = md_Name (rol_Metadata r)"
  by (simp add: role_resource_of_def)

lemma synced_grant_revoke:
  "role_Revoke c (Some (member_grant (role_resource_of r) u)) =
     role_Revoke c (Some (grant_of (md_Name (rol_Metadata r)) (md_Name (usr_Metadata u))))"
  by (rule role_Revoke_ids [OF _ _ _ _ role_resource_id]) (simp add: member_grant_def)+

text \<open>Revoking one grant after another.\<close>

definition revoke_all :: "'s client_ptr \<Rightarrow> grant list \<Rightarrow> ('s, unit list) io" where
  "revoke_all c gs = io_traverse (\<lambda>g. role_Revoke c (Some g)) gs"

text \<open>
  What a list of revocations of one role leaves of a store: of every user the other roles, the
  traits but for the logins, and every other field.
\<close>

definition keeps_user :: "string \<Rightarrow> user_v2 \<Rightarrow> user_v2 \<Rightarrow> bool" where
  "keeps_user role u u' \<longleftrightarrow> set (usr_Roles u') - {role} = set (usr_Roles u) - {role} \<and>
     u'\<lparr>usr_Roles := usr_Roles u, usr_Traits := usr_Traits u\<rparr> = u \<and>
     (\<forall>t. t \<noteq> TraitLogins \<longrightarrow> getTrait t u' = getTrait t u)"

definition keeps_others :: "string \<Rightarrow> (string \<Rightarrow> user_v2 option) \<Rightarrow> (string \<Rightarrow> user_v2 option) \<Rightarrow> bool" where
  "keeps_others role s s' \<longleftrightarrow> dom s' = dom s \<and>
     (\<forall>n u u'. s n = Some u \<longrightarrow> s' n = Some u' \<longrightarrow> keeps_user role u u')"

lemma keeps_user_refl: "keeps_user role u u"
  by (simp add: keeps_user_def)

lemma keeps_user_metadata: "keeps_user role u u' \<Longrightarrow> usr_Metadata u' = usr_Metadata u"
  unfolding keeps_user_def by (metis user_v2.select_convs(3) user_v2.surjective user_v2.update_convs(4,5))

lemma keeps_user_trans: "keeps_user role u v \<Longrightarrow> keeps_user role v w \<Longrightarrow> keeps_user role u w"
  unfolding keeps_user_def by (cases u; cases v; cases w) simp

lemma keeps_user_revoked: "keeps_user role u (revoked role n u)"
  using revoked_adds_login [of n u role] by (auto simp: keeps_user_def adds_login_def)

lemma keeps_others_refl: "keeps_others role s s"
  by (simp add: keeps_others_def keeps_user_refl)

lemma keeps_others_revoked:
  assumes "s n = Some u" "keeps_others role (s(n \<mapsto> revoked role n u)) s'"
  shows "keeps_others role s s'"
  unfolding keeps_others_def
proof (intro conjI allI impI)
  show "dom s' = dom s" using assms by (auto simp: keeps_others_def)
  fix m v v' assume v: "s m = Some v" "s' m = Some v'"
  obtain w where w: "(s(n \<mapsto> revoked role n u)) m = Some w" "keeps_user role v w"
    using assms(1) v(1) keeps_user_refl keeps_user_revoked by (cases "m = n") auto
  moreover have "keeps_user role w v'"
    using assms(2) w(1) v(2) unfolding keeps_others_def by blast
  ultimately show "keeps_user role v v'" by (blast intro: keeps_user_trans)
qed

lemma revoke_all_run:
  assumes c: "c = Some tc" "tc_Client tc = Some api" "user_store api"
    and "\<And>g. g \<in> set gs \<Longrightarrow> \<exists>n. n \<noteq> [] \<and> n \<in> dom s \<and>
      role_Revoke c (Some g) = role_Revoke c (Some (grant_of role n)) \<and> n \<in> grant_members [g]"
    and "store_ok names s"
  obtains rs s' where "revoke_all c gs s = (Inr rs, s')" "store_ok names s'"
    "keeps_others role s s'" "members_of role s' = members_of role s - grant_members gs"
proof -
  have "\<exists>rs s'. revoke_all c gs s = (Inr rs, s') \<and> store_ok names s' \<and> keeps_others role s s' \<and>
      members_of role s' = members_of role s - grant_members gs"
    using assms(4,5)
  proof (induction gs arbitrary: s)
    case Nil
    then show ?case
      by (auto simp: revoke_all_def io_return_def keeps_others_refl grant_members_def)
  next
    case (Cons g gs)
    from Cons.prems(1) [of g] obtain n where n: "n \<noteq> []" "n \<in> dom s"
      "role_Revoke c (Some g) = role_Revoke c (Some (grant_of role n))" "n \<in> grant_members [g]"
      by auto
    then obtain u where u: "s n = Some u" by auto
    have un: "md_Name (usr_Metadata u) = n" using Cons.prems(2) u by (simp add: store_ok_def)
    let ?s = "s(n \<mapsto> revoked role n u)"
    have run: "role_Revoke c (Some g) s = (Inr (), ?s)"
      unfolding n(3) by (rule store_Revoke [where s = s, OF c n(1) u un])
    have ok: "store_ok names ?s" by (rule store_ok_update [OF Cons.prems(2) u]) simp
    have dom: "dom ?s = dom s" using u by auto
    have later: "\<exists>m. m \<noteq> [] \<and> m \<in> dom ?s \<and>
        role_Revoke c (Some h) = role_Revoke c (Some (grant_of role m)) \<and> m \<in> grant_members [h]"
      if "h \<in> set gs" for h
      unfolding dom by (rule Cons.prems(1)) (simp add: that)
    have "\<exists>rs s'. revoke_all c gs ?s = (Inr rs, s') \<and> store_ok names s' \<and> keeps_others role ?s s' \<and>
        members_of role s' = members_of role ?s - grant_members gs"
      by (rule Cons.IH [OF later ok])
    then obtain rs s' where rest: "revoke_all c gs ?s = (Inr rs, s')" "store_ok names s'"
      "keeps_others role ?s s'" "members_of role s' = members_of role ?s - grant_members gs" by blast
    have "members_of role ?s = members_of role s - {n}" using u by (auto simp: members_of_def)
    moreover have "grant_members (g # gs) = insert n (grant_members gs)"
      using n(4) by (auto simp: grant_members_def)
    ultimately have "members_of role s' = members_of role s - grant_members (g # gs)"
      using rest(4) by auto
    moreover have "revoke_all c (g # gs) s = (Inr (() # rs), s')"
      using run rest(1) by (simp add: revoke_all_def io_bind_def io_return_def)
    ultimately show ?case
      using rest(2) keeps_others_revoked [OF u rest(3)] by blast
  qed
  then show thesis using that by blast
qed

text \<open>The grants of a role resource that a store's users have.\<close>

lemma synced_grants:
  assumes "c = Some tc" "tc_Client tc = Some api" "lists_users names api" "store_ok names s"
  obtains us where "api_GetUsers api False s = (Inr us, s)" "set us = ran s"
    "role_Grants c (Some (role_resource_of r)) (s, []) =
      (Inr (concat (map (\<lambda>u. replicate (count_list (usr_Roles u) (md_Name (rol_Metadata r)))
         (member_grant (role_resource_of r) u)) us)), (s, us))"
proof -
  obtain us where us: "api_GetUsers api False s = (Inr us, s)" "set us = ran s"
    using assms(3,4) by (auto simp: lists_users_def)
  have "list_all user_text_ok us"
    using assms(4) us(2) by (auto simp: store_ok_def list_all_iff ran_def)
  from role_Grants_run [OF assms(1,2) us(1) this, of "role_resource_of r"] show thesis
    by (rule_tac that [OF us]) (simp add: role_resource_name)
qed

lemma store_List:
  assumes "c = Some tc" "tc_Client tc = Some api" "lists_users names api" "store_ok names s"
  obtains us where "set us = ran s" "user_List c p s = (Inr (map (user_resource_of p) us), s)"
proof -
  obtain us where us: "api_GetUsers api False s = (Inr us, s)" "set us = ran s"
    using assms(3,4) by (auto simp: lists_users_def)
  have ok: "list_all user_text_ok us"
    using assms(4) us(2) by (auto simp: store_ok_def list_all_iff ran_def)
  show thesis
    by (rule that [OF us(2)])
      (use us(1) assms(1,2) user_conv.traverse_accepts [OF ok, of p] in
        \<open>simp add: user_List_def io_bind_def io_lift_def\<close>)
qed

lemma user_resource_id: "res_Id (user_resource_of p u) =
    Some \<lparr>rid_ResourceType = ''user'', rid_Resource = md_Name (usr_Metadata u)\<rparr>"
  by (simp add: user_resource_of_def)

lemma synced_grant_revocable:
  assumes "store_ok names s" "[] \<notin> dom s" "md_Name (rol_Metadata r) = role"
    and "u \<in> ran s" "g = member_grant (role_resource_of r) u"
  shows "\<exists>n. n \<noteq> [] \<and> n \<in> dom s \<and>
    role_Revoke c (Some g) = role_Revoke c (Some (grant_of role n)) \<and> n \<in> grant_members [g]"
proof -
  obtain n where n: "s n = Some u" using assms(4) by (auto simp: ran_def)
  have un: "md_Name (usr_Metadata u) = n" using assms(1) n by (simp add: store_ok_def)
  have "role_Revoke c (Some g) = role_Revoke c (Some (grant_of role n))"
    using synced_grant_revoke [of c r u] by (simp add: assms(3,5) un)
  moreover have "n \<in> grant_members [g]"
    by (simp add: assms(5) grant_members_def member_grant_def un)
  moreover have "n \<noteq> []" "n \<in> dom s" using n assms(2) by auto
  ultimately show ?thesis by (intro exI [of _ n] conjI)
qed

text \<open>Revoking what \<open>Grants\<close> reports leaves no grant to report.\<close>

lemma revoke_synced:
  assumes c: "c = Some tc" "tc_Client tc = Some api" "user_store api" and l: "lists_users names api"
    and s: "store_ok names s" "[] \<notin> dom s" and r: "md_Name (rol_Metadata r) = role"
  obtains gs us rs s' us' where
    "role_Grants c (Some (role_resource_of r)) (s, []) = (Inr gs, (s, us))"
    "revoke_all c gs s = (Inr rs, s')" "keeps_others role s s'"
    "role_Grants c (Some (role_resource_of r)) (s', []) = (Inr [], (s', us'))"
proof -
  let ?gs = "\<lambda>us. concat (map (\<lambda>u. replicate (count_list (usr_Roles u) role)
    (member_grant (role_resource_of r) u)) us)"
  obtain us where us: "set us = ran s"
    and gs: "role_Grants c (Some (role_resource_of r)) (s, []) = (Inr (?gs us), (s, us))"
    by (rule synced_grants [OF c(1,2) l s(1), of r]) (rule that, simp_all add: r)
  have "\<exists>n. n \<noteq> [] \<and> n \<in> dom s \<and>
      role_Revoke c (Some g) = role_Revoke c (Some (grant_of role n)) \<and> n \<in> grant_members [g]"
    if g: "g \<in> set (?gs us)" for g
  proof -
    from g obtain u where "u \<in> ran s" "g = member_grant (role_resource_of r) u"
      by (auto simp: us)
    then show ?thesis by (rule synced_grant_revocable [OF s r])
  qed
  from revoke_all_run [OF c this s(1)]
  obtain rs s' where run: "revoke_all c (?gs us) s = (Inr rs, s')" "store_ok names s'" "keeps_others role s s'"
    and left: "members_of role s' = members_of role s - grant_members (?gs us)" by blast
  have named: "s n = Some u \<Longrightarrow> md_Name (usr_Metadata u) = n" for n u
    using s(1) by (simp add: store_ok_def)
  have none: "members_of role s' = {}"
    using left grant_members_concat [OF us named, of role "role_resource_of r"] by simp
  obtain us' where us': "set us' = ran s'"
    "role_Grants c (Some (role_resource_of r)) (s', []) = (Inr (?gs us'), (s', us'))"
    by (rule synced_grants [OF c(1,2) l run(2), of r]) (rule that, simp_all add: r)
  have "role \<notin> set (usr_Roles u)" if "u \<in> set us'" for u
    using that none by (auto simp: us'(1) ran_def members_of_def)
  then have "?gs us' = []" by simp
  with us'(2) show thesis by (rule_tac that [OF gs run(1,3)]) (simp only:)
qed

text \<open>What a grant makes of a store: the one user gets the role and the login.\<close>

definition adds_member :: "string \<Rightarrow> string \<Rightarrow> (string \<Rightarrow> user_v2 option) \<Rightarrow> (string \<Rightarrow> user_v2 option) \<Rightarrow> bool" where
  "adds_member role n s s' \<longleftrightarrow> (\<exists>u u'. s n = Some u \<and> s' = s(n \<mapsto> u') \<and>
     usr_Roles u' = (if role \<in> set (usr_Roles u) then usr_Roles u else usr_Roles u @ [role]) \<and>
     adds_login n u u')"

lemma adds_member_granted: "s n = Some u \<Longrightarrow> adds_member role n s (s(n \<mapsto> granted role n u))"
  unfolding adds_member_def using granted_adds_login [of n u role]
  by (intro exI [of _ u] exI [of _ "granted role n u"]) simp

text \<open>Granting with a listed user and the entitlement of a role.\<close>

lemma grant_listed:
  assumes c: "c = Some tc" "tc_Client tc = Some api" "user_store api"
    and s: "store_ok names s" "[] \<notin> dom s" "Wildcard \<notin> dom s"
    and r: "md_Name (rol_Metadata r) = role" "role \<noteq> []"
    and e: "ent_Resource e = Some (role_resource_of r)" and u: "u \<in> ran s"
  shows "\<exists>n s'. n \<in> dom s \<and> res_DisplayName (user_resource_of p u) = n \<and>
    role_Grant c (Some (user_resource_of p u)) (Some e) s = (Inr (), s') \<and>
    adds_member role n s s' \<and> members_of role s' = insert n (members_of role s)"
proof -
  obtain n where n: "s n = Some u" using u by (auto simp: ran_def)
  have un: "md_Name (usr_Metadata u) = n" using s(1) n by (simp add: store_ok_def)
  have ids: "res_Id (user_resource_of p u) = Some \<lparr>rid_ResourceType = ''user'', rid_Resource = n\<rparr>"
    "res_Id (role_resource_of r) = Some \<lparr>rid_ResourceType = ''role'', rid_Resource = role\<rparr>"
    by (simp_all add: user_resource_id un role_resource_id r)
  have "n \<noteq> []" "Wildcard \<noteq> n" using n s(2,3) by auto
  from store_Grant [where s = s, OF c this r(2) n un]
  have "role_Grant c (Some (user_resource_of p u)) (Some e) s = (Inr (), s(n \<mapsto> granted role n u))"
    unfolding role_Grant_ids [OF ids(1) e ids(2)] .
  moreover have "members_of role (s(n \<mapsto> granted role n u)) = insert n (members_of role s)"
    using n by (auto simp: members_of_def)
  ultimately show ?thesis
    using n adds_member_granted [where s = s and n = n and u = u and role = role]
    by (intro exI [of _ n] exI [of _ "s(n \<mapsto> granted role n u)"]) (auto simp: user_resource_of_def un)
qed

section \<open>Properties of the loop\<close>

text \<open>
  C5: A synchronisation's own objects drive provisioning. Every grant that a role's \<open>Grants\<close>
  reports can be revoked as it is; revoking all of them, one after the other, leaves the
  role without members, so that the next synchronisation reports no grant of it, while of every
  user the other roles, the traits other than the logins and every other field stay. And the
  user resource of \<open>List\<close> with the entitlement of \<open>Entitlements\<close> is accepted by \<open>Grant\<close>, which
  changes that one user alone: the roles stay, in their order, with the new one behind them
  unless it was there already,
  the user's own name is added to the logins, and nothing else of the user changes.
\<close>

theorem synced_objects_provision:
  assumes "c = Some tc" "tc_Client tc = Some api" "user_store api" "lists_users names api"
    and "store_ok names s" "[] \<notin> dom s" "Wildcard \<notin> dom s" "md_Name (rol_Metadata r) = role" "role \<noteq> []"
  shows "(\<exists>gs us rs s' us'. role_Grants c (Some (role_resource_of r)) (s, []) = (Inr gs, (s, us)) \<and>
      revoke_all c gs s = (Inr rs, s') \<and> keeps_others role s s' \<and>
      role_Grants c (Some (role_resource_of r)) (s', []) = (Inr [], (s', us'))) \<and>
    (\<exists>urs e. user_List c None s = (Inr urs, s) \<and> role_Entitlements (Some (role_resource_of r)) = Inr [e] \<and>
      (\<forall>ur \<in> set urs. \<exists>n s'. n \<in> dom s \<and> res_DisplayName ur = n \<and>
        role_Grant c (Some ur) (Some e) s = (Inr (), s') \<and>
        adds_member role n s s' \<and> members_of role s' = insert n (members_of role s)))"
proof
  show "\<exists>gs us rs s' us'. role_Grants c (Some (role_resource_of r)) (s, []) = (Inr gs, (s, us)) \<and>
      revoke_all c gs s = (Inr rs, s') \<and> keeps_others role s s' \<and>
      role_Grants c (Some (role_resource_of r)) (s', []) = (Inr [], (s', us'))"
    by (rule revoke_synced [OF assms(1-6,8)]) blast
  obtain us where us: "set us = ran s" "user_List c None s = (Inr (map (user_resource_of None) us), s)"
    by (rule store_List [OF assms(1,2,4,5)])
  obtain e where e: "role_Entitlements (Some (role_resource_of r)) = Inr [e]"
    "ent_Resource e = Some (role_resource_of r)"
    by (rule role_ent.one_membership [of "role_resource_of r"])
  have "\<forall>ur \<in> set (map (user_resource_of None) us). \<exists>n s'. n \<in> dom s \<and> res_DisplayName ur = n \<and>
      role_Grant c (Some ur) (Some e) s = (Inr (), s') \<and>
      adds_member role n s s' \<and> members_of role s' = insert n (members_of role s)"
    using grant_listed [OF assms(1-3,5-9) e(2)] by (simp only: set_map ball_simps us(1)) blast
  with us(2) e(1) show "\<exists>urs e. user_List c None s = (Inr urs, s) \<and>
      role_Entitlements (Some (role_resource_of r)) = Inr [e] \<and>
      (\<forall>ur \<in> set urs. \<exists>n s'. n \<in> dom s \<and> res_DisplayName ur = n \<and>
        role_Grant c (Some ur) (Some e) s = (Inr (), s') \<and>
        adds_member role n s s' \<and> members_of role s' = insert n (members_of role s))"
    by blast
qed

theorem synced_objects_provision_witness:
  "\<exists>gs us rs s' us'. role_Grants (client_of town_api)
      (Some (role_resource_of \<lparr>rol_Metadata = sample_metadata ''ops''\<rparr>)) (town, []) = (Inr gs, (town, us)) \<and>
    revoke_all (client_of town_api) gs town = (Inr rs, s') \<and> keeps_others ''ops'' town s' \<and>
    role_Grants (client_of town_api)
      (Some (role_resource_of \<lparr>rol_Metadata = sample_metadata ''ops''\<rparr>)) (s', []) = (Inr [], (s', us'))"
proof -
  have no: "[] \<notin> dom town" "Wildcard \<notin> dom town"
    "md_Name (rol_Metadata \<lparr>rol_Metadata = sample_metadata ''ops''\<rparr>) = ''ops''" "''ops'' \<noteq> []"
    by (auto simp: town_def Wildcard_def sample_metadata_def split: if_splits)
  show ?thesis
    by (rule conjunct1 [OF synced_objects_provision [OF client_of_def tc_client_eq town_store
          town_lists town_ok no]])
qed

end
