(* ===== verification/Accounts.thy ===== *)
theory Accounts
  imports Provisioning
begin

text \<open>
  The life of an account and of its resource: \<open>CreateAccount\<close>, \<open>List\<close>, \<open>Get\<close> and \<open>Delete\<close> of
  \<open>pkg/connector/users.go\<close> and \<open>Get\<close> of \<open>pkg/connector/roles.go\<close> on a service that stores
  users and roles, and the resources the change events of the audit feed point to.
\<close>

section \<open>A service that creates and deletes\<close>

text \<open>
  \<open>CreateUser\<close> refuses a name that is taken and stores the user with a revision of the service's
  own, whatever revision the request had; \<open>DeleteUser\<close> and the password token need a user that is
  there, and the link is a function of the request.
\<close>

definition with_revision :: "string \<Rightarrow> user_v2 \<Rightarrow> user_v2" where
  "with_revision r u = u\<lparr>usr_Metadata := (usr_Metadata u)\<lparr>md_Revision := r\<rparr>\<rparr>"

definition account_store ::
    "(reset_password_request \<Rightarrow> string) \<Rightarrow> (user_v2 \<Rightarrow> (string \<Rightarrow> user_v2 option) \<Rightarrow> string)
      \<Rightarrow> (string \<Rightarrow> user_v2 option) teleport_api \<Rightarrow> bool" where
  "account_store link revision api \<longleftrightarrow> user_store api \<and> (\<forall>u s. valid_utf8 (revision u s)) \<and>
     (\<forall>u s. api_CreateUser api u s = (case s (md_Name (usr_Metadata u)) of
        None \<Rightarrow> (Inr (with_revision (revision u s) u), s(md_Name (usr_Metadata u) \<mapsto> with_revision (revision u s) u))
      | Some _ \<Rightarrow> (Inl (Errorf ''already exists''), s))) \<and>
     (\<forall>n s. n \<in> dom s \<longrightarrow> api_DeleteUser api n s = (Inr (), s(n := None))) \<and>
     (\<forall>q s. rpr_Name q \<in> dom s \<longrightarrow> api_CreateResetPasswordToken api q s = (Inr (link q), s))"

lemma account_store_calls:
  assumes "account_store link revision api"
  shows "user_store api"
    and "s (md_Name (usr_Metadata u)) = None \<Longrightarrow> api_CreateUser api u s =
      (Inr (with_revision (revision u s) u), s(md_Name (usr_Metadata u) \<mapsto> with_revision (revision u s) u))"
    and "s (md_Name (usr_Metadata u)) = Some v \<Longrightarrow>
      api_CreateUser api u s = (Inl (Errorf ''already exists''), s)"
    and "n \<in> dom s \<Longrightarrow> api_DeleteUser api n s = (Inr (), s(n := None))"
    and "rpr_Name q \<in> dom s \<Longrightarrow> api_CreateResetPasswordToken api q s = (Inr (link q), s)"
    and "valid_utf8 (revision u s)"
  using assms by (auto simp: account_store_def)

text \<open>What the revision changes of the user's resource: the user id in the profile.\<close>

definition with_user_id :: "string \<Rightarrow> resource \<Rightarrow> resource" where
  "with_user_id r res = res\<lparr>res_Annotations := map (\<lambda>a. case a of
     UserTrait ut \<Rightarrow> UserTrait (ut\<lparr>ut_Profile :=
       map_option (AList.update ''user_id'' (StringValue r)) (ut_Profile ut)\<rparr>)
   | _ \<Rightarrow> a) (res_Annotations res)\<rparr>"

lemma with_revision_sel [simp]:
  "md_Name (usr_Metadata (with_revision r u)) = md_Name (usr_Metadata u)"
  "md_Revision (usr_Metadata (with_revision r u)) = r"
  "GetUserType (with_revision r u) = GetUserType u"
  by (simp_all add: with_revision_def GetUserType_def)

lemma with_revision_resource:
  "user_resource_of p (with_revision r u) = with_user_id r (user_resource_of p u)"
proof -
  have type: "user_account_type (with_revision r u) = user_account_type u"
    by (simp add: user_account_type_def with_revision_def IsSystemResource_def IsBot_def)
  have "string_struct (user_profile (with_revision r u)) =
      AList.update ''user_id'' (StringValue r) (string_struct (user_profile u))"
    by (simp add: string_struct_def user_profile_def type Let_def split_beta)
  then have "user_trait_of (with_revision r u) = (user_trait_of u)\<lparr>ut_Profile :=
      map_option (AList.update ''user_id'' (StringValue r)) (ut_Profile (user_trait_of u))\<rparr>"
    by (simp add: user_trait_of_def type Let_def) (simp add: with_revision_def)
  then show ?thesis by (simp add: user_resource_of_def with_user_id_def)
qed

lemma with_user_id_id [simp]: "res_Id (with_user_id r res) = res_Id res"
  by (simp add: with_user_id_def)

section \<open>Getting one resource\<close>

lemma user_store_GetUser:
  "user_store api \<Longrightarrow> s n = Some u \<Longrightarrow> api_GetUser api n b s = (Inr u, s)"
  "user_store api \<Longrightarrow> s n = None \<Longrightarrow> api_GetUser api n b s = (Inl (Errorf ''not found''), s)"
  by (simp_all add: user_store_def)

lemma store_Get:
  assumes "c = Some tc" "tc_Client tc = Some api" "user_store api" "store_ok names s"
    and "s n = Some u" "n \<noteq> []"
  shows "user_Get c (Some \<lparr>rid_ResourceType = rt, rid_Resource = n\<rparr>) p s = (Inr (user_resource_of p u), s)"
proof -
  have "user_text_ok u" using assms(4,5) by (auto simp: store_ok_def)
  then show ?thesis
    using assms(1,2,6) user_store_GetUser(1) [where s = s, OF assms(3,5), of False]
    by (simp add: user_Get_def client_GetUser_def io_bind_def io_wrap_def io_lift_def userResource_cases)
qed

lemma store_Get_missing:
  assumes "c = Some tc" "tc_Client tc = Some api" "user_store api" "s n = None" "n \<noteq> []"
  shows "user_Get c (Some \<lparr>rid_ResourceType = rt, rid_Resource = n\<rparr>) p s =
    (Inl (Wrapf (''baton-teleport: failed to get user '' @ n) (Errorf ''not found'')), s)"
  using assms(1,2,5) user_store_GetUser(2) [where s = s, OF assms(3,4), of False]
  by (simp add: user_Get_def client_GetUser_def io_bind_def io_wrap_def)

section \<open>Roles by name\<close>

text \<open>
  The service lists the roles \<open>roles\<close>, finds each of them under its name and finds none under
  any other name.
\<close>

definition role_directory :: "role list \<Rightarrow> 's teleport_api \<Rightarrow> bool" where
  "role_directory roles api \<longleftrightarrow> list_all role_text_ok roles \<and>
     (\<forall>r \<in> set roles. md_Name (rol_Metadata r) \<noteq> []) \<and>
     (\<forall>s. api_GetRoles api s = (Inr roles, s)) \<and>
     (\<forall>r \<in> set roles. \<forall>s. api_GetRole api (md_Name (rol_Metadata r)) s = (Inr r, s)) \<and>
     (\<forall>n s. n \<notin> (\<lambda>r. md_Name (rol_Metadata r)) ` set roles \<longrightarrow>
        api_GetRole api n s = (Inl (Errorf ''not found''), s))"

lemma directory_Get:
  assumes "c = Some tc" "tc_Client tc = Some api" "role_directory roles api" "r \<in> set roles"
  shows "role_Get c (res_Id (role_resource_of r)) s = (Inr (role_resource_of r), s)"
  using assms
  by (auto simp: role_directory_def role_Get_def client_GetRole_def role_resource_id io_bind_def
      io_wrap_def io_lift_def getRoleResource_cases list_all_iff)

lemma directory_Get_missing:
  assumes "c = Some tc" "tc_Client tc = Some api" "role_directory roles api"
    and "n \<notin> (\<lambda>r. md_Name (rol_Metadata r)) ` set roles"
  shows "\<exists>e. role_Get c (Some \<lparr>rid_ResourceType = rt, rid_Resource = n\<rparr>) s = (Inl e, s)"
proof -
  have "api_GetRole api n s = (Inl (Errorf ''not found''), s)"
    using assms(3,4) unfolding role_directory_def by blast
  then show ?thesis
    using assms(1,2) by (simp add: role_Get_def client_GetRole_def io_bind_def io_wrap_def io_fail_def)
qed

lemma directory_List:
  assumes "c = Some tc" "tc_Client tc = Some api" "role_directory roles api"
  shows "role_List c (s, cache) = (Inr (map role_resource_of roles), (s, []))"
  using assms role_conv.traverse_accepts [of roles]
  by (simp add: role_directory_def role_List_def on_world_def put_cache_def io_bind_def io_lift_def
      io_return_def)

section \<open>Properties\<close>


text \<open>The service of the witness gives every new user the revision \<open>r7\<close>.\<close>

definition register_api :: "(string \<Rightarrow> user_v2 option) teleport_api" where
  "register_api = town_api\<lparr>
     api_CreateUser := (\<lambda>u s. case s (md_Name (usr_Metadata u)) of
        None \<Rightarrow> (Inr (with_revision ''r7'' u), s(md_Name (usr_Metadata u) \<mapsto> with_revision ''r7'' u))
      | Some _ \<Rightarrow> (Inl (Errorf ''already exists''), s)),
     api_DeleteUser := (\<lambda>n s. (Inr (), s(n := None))),
     api_CreateResetPasswordToken := (\<lambda>q s. (Inr (''https://proxy/web/reset/'' @ rpr_Name q), s)),
     api_GetRoles := (\<lambda>s. (Inr [\<lparr>rol_Metadata = sample_metadata ''ops''\<rparr>], s)),
     api_GetRole := (\<lambda>n s. (if n = ''ops'' then Inr \<lparr>rol_Metadata = sample_metadata ''ops''\<rparr>
        else Inl (Errorf ''not found''), s))\<rparr>"

lemma register_store:
  "account_store (\<lambda>q. ''https://proxy/web/reset/'' @ rpr_Name q) (\<lambda>_ _. ''r7'') register_api"
proof -
  have "valid_utf8 ''r7''" by code_simp
  moreover have "user_store register_api"
    using town_store by (simp add: user_store_def register_api_def)
  ultimately show ?thesis by (simp add: account_store_def) (simp add: register_api_def)
qed

lemma register_lists: "lists_users [''ann'', ''bob''] register_api"
  using town_lists by (simp add: lists_users_def register_api_def)

lemma register_roles: "role_directory [\<lparr>rol_Metadata = sample_metadata ''ops''\<rparr>] register_api"
proof -
  have "valid_utf8 ''ops''" "valid_utf8 ''r1''" "valid_utf8 []" by code_simp+
  then show ?thesis
    by (simp add: role_directory_def register_api_def role_text_ok_def sample_metadata_def)
qed


text \<open>
  C21: \<open>Get\<close> agrees with \<open>List\<close>: every user and every role that a synchronisation lists is
  found under its id, as the same resource, and getting it changes nothing.
\<close>

theorem get_agrees_with_list:
  assumes "c = Some tc" "tc_Client tc = Some api" "user_store api" "lists_users names api"
    and "store_ok names s" "[] \<notin> dom s" "role_directory roles api"
  shows "(\<exists>rs. user_List c p s = (Inr rs, s) \<and> (\<forall>r \<in> set rs. user_Get c (res_Id r) p s = (Inr r, s))) \<and>
    (\<exists>rs. role_List c (s, cache) = (Inr rs, (s, [])) \<and> (\<forall>r \<in> set rs. role_Get c (res_Id r) s = (Inr r, s)))"
proof
  obtain us where us: "set us = ran s" "user_List c p s = (Inr (map (user_resource_of p) us), s)"
    by (rule store_List [OF assms(1,2,4,5)])
  have "user_Get c (res_Id r) p s = (Inr r, s)" if "r \<in> set (map (user_resource_of p) us)" for r
  proof -
    from that obtain n u where u: "r = user_resource_of p u" "s n = Some u"
      by (auto simp: us(1) ran_def)
    have n: "md_Name (usr_Metadata u) = n" "n \<noteq> []" using assms(5,6) u(2) by (auto simp: store_ok_def)
    show ?thesis
      unfolding u(1) user_resource_id n(1)
      by (rule store_Get [where s = s, OF assms(1,2,3,5) u(2) n(2)])
  qed
  with us(2) show "\<exists>rs. user_List c p s = (Inr rs, s) \<and>
      (\<forall>r \<in> set rs. user_Get c (res_Id r) p s = (Inr r, s))" by blast
  have "\<forall>r \<in> set (map role_resource_of roles). role_Get c (res_Id r) s = (Inr r, s)"
    using directory_Get [OF assms(1,2,7)] by auto
  with directory_List [OF assms(1,2,7)]
  show "\<exists>rs. role_List c (s, cache) = (Inr rs, (s, [])) \<and>
      (\<forall>r \<in> set rs. role_Get c (res_Id r) s = (Inr r, s))" by blast
qed

theorem get_agrees_with_list_witness:
  "\<exists>rs. role_List (client_of register_api) (town, []) = (Inr rs, (town, [])) \<and>
    (\<forall>r \<in> set rs. role_Get (client_of register_api) (res_Id r) town = (Inr r, town))"
proof -
  have no: "[] \<notin> dom town" by (auto simp: town_def split: if_splits)
  show ?thesis
    by (rule conjunct2 [OF get_agrees_with_list [OF client_of_def tc_client_eq
          account_store_calls(1) [OF register_store] register_lists town_ok no register_roles]])
qed

end
