(* ===== verification/Change_Events.thy ===== *)
theory Change_Events
  imports Accounts Audit_Feed
begin

text \<open>
  What a resource change event of the audit feed (\<open>pkg/connector/audit_event_feed.go\<close>) leads
  to: the SDK answers it by getting the resource it names, so its id has to be one that the
  builders' \<open>Get\<close> (\<open>users.go\<close>, \<open>roles.go\<close>) understands.
\<close>

text \<open>The one resource an audit event says has changed, if any.\<close>

definition named :: "string \<Rightarrow> string \<Rightarrow> resource_id option" where
  "named rt n = (if n = [] then None else Some \<lparr>rid_ResourceType = rt, rid_Resource = n\<rparr>)"

fun changed :: "audit_event \<Rightarrow> resource_id option" where
  "changed (UserCreate m n roles) = named ''user'' n"
| "changed (UserUpdate m n roles) = named ''user'' n"
| "changed (LockCreate m l) = named ''user'' (lt_User l)"
| "changed (LockDelete m l) = named ''user'' (lt_User l)"
| "changed (RoleCreate m n) = named ''role'' n"
| "changed (RoleUpdate m n) = named ''role'' n"
| "changed _ = None"

lemma no_change_payload [simp]:
  "ev_Event (makeResourceChangeEvent i t rt n) = ResourceChangeEvent \<lparr>rid_ResourceType = rt, rid_Resource = n\<rparr>"
  "ev_Event (makeCreateGrantEvent i t r u) \<noteq> ResourceChangeEvent rid"
  by (simp_all add: makeResourceChangeEvent_def make_spec)

lemma change_event_ids:
  "{rid. \<exists>e \<in> set (fst (convertAuditEvent a)). ev_Event e = ResourceChangeEvent rid} = set_option (changed a)"
  by (cases a) (auto simp: convert_one_defs named_def)

lemma changed_cases:
  assumes "changed a = Some rid"
  obtains n where "rid = \<lparr>rid_ResourceType = ''user'', rid_Resource = n\<rparr>" "n \<noteq> []"
    | n where "rid = \<lparr>rid_ResourceType = ''role'', rid_Resource = n\<rparr>" "n \<noteq> []"
  using assms by (cases a) (auto simp: named_def split: if_splits)

text \<open>What \<open>Get\<close> makes of an id, beside what \<open>List\<close> returns for it.\<close>

definition user_resolves ::
    "(string \<Rightarrow> user_v2 option) client_ptr \<Rightarrow> resource_id \<Rightarrow> (string \<Rightarrow> user_v2 option) \<Rightarrow> bool" where
  "user_resolves c rid s \<longleftrightarrow> (case s (rid_Resource rid) of
     None \<Rightarrow> \<exists>err. user_Get c (Some rid) None s = (Inl err, s)
   | Some u \<Rightarrow> \<exists>res rs ut. user_Get c (Some rid) None s = (Inr res, s) \<and>
       user_List c None s = (Inr rs, s) \<and> res \<in> set rs \<and> res_Annotations res = [UserTrait ut] \<and>
       ut_Status ut = Some (if usr_IsLocked u then STATUS_DISABLED else STATUS_ENABLED))"

definition role_resolves ::
    "'s client_ptr \<Rightarrow> role list \<Rightarrow> resource_id \<Rightarrow> 's \<Rightarrow> bool" where
  "role_resolves c roles rid s \<longleftrightarrow> (case find (\<lambda>r. md_Name (rol_Metadata r) = rid_Resource rid) roles of
     None \<Rightarrow> \<exists>err. role_Get c (Some rid) s = (Inl err, s)
   | Some r \<Rightarrow> role_Get c (Some rid) s = (Inr (role_resource_of r), s) \<and>
       (\<forall>cache. \<exists>rs. role_List c (s, cache) = (Inr rs, (s, [])) \<and> role_resource_of r \<in> set rs))"

lemma store_resolves:
  assumes "c = Some tc" "tc_Client tc = Some api" "user_store api" "lists_users names api"
    and "store_ok names s" "n \<noteq> []"
  shows "user_resolves c \<lparr>rid_ResourceType = rt, rid_Resource = n\<rparr> s"
proof (cases "s n")
  case None
  from store_Get_missing [where s = s, OF assms(1-3) None assms(6)] show ?thesis
    by (simp add: user_resolves_def None)
next
  case (Some u)
  obtain us where us: "set us = ran s" "user_List c None s = (Inr (map (user_resource_of None) us), s)"
    by (rule store_List [OF assms(1,2,4,5)])
  have "user_resource_of None u \<in> set (map (user_resource_of None) us)"
    using us(1) ranI [where m = s, OF Some] by simp
  moreover have "res_Annotations (user_resource_of None u) = [UserTrait (user_trait_of u)]"
    by (simp add: user_resource_of_def)
  moreover have "ut_Status (user_trait_of u) = Some (if usr_IsLocked u then STATUS_DISABLED else STATUS_ENABLED)"
    by (simp add: user_trait_of_def Let_def)
  ultimately show ?thesis
    using store_Get [where s = s, OF assms(1-3,5) Some assms(6)] us(2)
    unfolding user_resolves_def Some option.case resource_id.select_convs by blast
qed

lemma directory_resolves:
  assumes "c = Some tc" "tc_Client tc = Some api" "role_directory roles api"
  shows "role_resolves c roles \<lparr>rid_ResourceType = ''role'', rid_Resource = n\<rparr> s"
proof (cases "find (\<lambda>r. md_Name (rol_Metadata r) = n) roles")
  case None
  then have "n \<notin> (\<lambda>r. md_Name (rol_Metadata r)) ` set roles" by (auto simp: find_None_iff)
  from directory_Get_missing [OF assms this] show ?thesis
    by (simp add: role_resolves_def None)
next
  case (Some r)
  then have r: "r \<in> set roles" "md_Name (rol_Metadata r) = n" by (auto simp: find_Some_iff)
  have "role_Get c (Some \<lparr>rid_ResourceType = ''role'', rid_Resource = n\<rparr>) s = (Inr (role_resource_of r), s)"
    using directory_Get [OF assms r(1), of s] r(2) by (simp add: role_resource_id)
  then show ?thesis
    using directory_List [OF assms] r(1) by (auto simp: role_resolves_def Some)
qed

text \<open>
  C22: A change event can be followed up. The resource change events made of an audit event
  name exactly the resource that \<open>changed\<close> says: the created, updated, locked or unlocked user or
  the created or updated role, and none when the name is empty or for other audit events. On a
  service that stores users and roles, \<open>Get\<close> of the id of a user returns the resource that the
  next \<open>List\<close> returns for that user, disabled exactly when the user is locked by then, and an
  error when the user is gone; \<open>Get\<close> of the id of a role returns the resource that \<open>List\<close>
  returns for that role, and an error when the service has no role of that name.
\<close>

theorem change_event_resolves:
  assumes "c = Some tc" "tc_Client tc = Some api" "user_store api" "lists_users names api"
    and "store_ok names s" "role_directory roles api"
  shows "{rid. \<exists>e \<in> set (fst (convertAuditEvent a)). ev_Event e = ResourceChangeEvent rid} =
      set_option (changed a) \<and>
    (\<forall>rid. changed a = Some rid \<longrightarrow>
       rid_ResourceType rid = ''user'' \<and> user_resolves c rid s \<or>
       rid_ResourceType rid = ''role'' \<and> role_resolves c roles rid s)"
proof (intro conjI allI impI)
  fix rid
  assume "changed a = Some rid"
  then show "rid_ResourceType rid = ''user'' \<and> user_resolves c rid s \<or>
      rid_ResourceType rid = ''role'' \<and> role_resolves c roles rid s"
    by (rule changed_cases)
      (simp_all add: store_resolves [OF assms(1-5)] directory_resolves [OF assms(1,2,6)])
qed (rule change_event_ids)

text \<open>A lock on a user of the store, and a change of a role the service does not have.\<close>

theorem change_event_resolves_witness:
  "(\<exists>res rs ut. user_Get (client_of register_api) (Some \<lparr>rid_ResourceType = ''user'', rid_Resource = ''ann''\<rparr>) None town =
      (Inr res, town) \<and> user_List (client_of register_api) None town = (Inr rs, town) \<and> res \<in> set rs \<and>
    res_Annotations res = [UserTrait ut] \<and> ut_Status ut = Some STATUS_ENABLED) \<and>
   (\<exists>err. role_Get (client_of register_api) (Some \<lparr>rid_ResourceType = ''role'', rid_Resource = ''dev''\<rparr>) town =
      (Inl err, town))"
proof -
  let ?m = "\<lparr>em_ID = ''1'', em_Time = 20, em_ClusterName = [], em_Type = []\<rparr>"
  let ?lock = "LockCreate ?m \<lparr>lt_User = ''ann'', lt_Role = [], lt_Login = [], lt_ServerID = []\<rparr>"
  let ?role = "RoleUpdate ?m ''dev''"
  have ann: "town ''ann'' = Some (sample_user ''ann'' [''dev''])" "\<not> usr_IsLocked (sample_user ''ann'' [''dev''])"
    by (simp_all add: town_def sample_user_def)
  note resolves = change_event_resolves [OF client_of_def tc_client_eq account_store_calls(1) [OF register_store]
      register_lists town_ok register_roles]
  have "user_resolves (client_of register_api) \<lparr>rid_ResourceType = ''user'', rid_Resource = ''ann''\<rparr> town"
    using resolves [of ?lock] by (simp add: named_def)
  moreover have "role_resolves (client_of register_api) [\<lparr>rol_Metadata = sample_metadata ''ops''\<rparr>]
      \<lparr>rid_ResourceType = ''role'', rid_Resource = ''dev''\<rparr> town"
    using resolves [of ?role] by (simp add: named_def)
  ultimately show ?thesis
    by (simp add: user_resolves_def role_resolves_def ann sample_metadata_def)
qed

end
