(* ===== verification/Client.thy ===== *)
theory Client
  imports Teleport_Api
begin

text \<open>
  \<open>pkg/client/client.go\<close>: how the connector reaches Teleport. Dialling is a parameter: it
  takes the addresses and the credentials and yields the client or an error.
\<close>

definition ErrNoKeyProvided :: error where
  [go_defs]: "ErrNoKeyProvided = Errorf ''no key provided''"

datatype credentials = LoadIdentityFile string | LoadIdentityFileFromString string

text \<open>\<open>strings.Split(address, ":")\<close> must have two parts after the scheme is removed.\<close>

definition hasPort :: "string \<Rightarrow> bool" where
  [go_defs]: "hasPort address =
     (let address = TrimPrefix address ''https://'';
          address = TrimPrefix address ''http://''
      in length (Split address (CHR '':'')) = 2)"

definition with_default_port :: "string \<Rightarrow> string" where
  [go_defs]: "with_default_port proxyAddress =
     (if \<not> hasPort proxyAddress then proxyAddress @ '':443'' else proxyAddress)"

definition New ::
    "(string list \<Rightarrow> credentials list \<Rightarrow> ('s, 's teleport_api) io)
      \<Rightarrow> string \<Rightarrow> string \<Rightarrow> string \<Rightarrow> ('s, 's teleport_client) io" where
  "New dial proxyAddress keyFile k =
     (let proxyAddress = with_default_port proxyAddress in
      io_bind
        (if keyFile \<noteq> [] then io_return (LoadIdentityFile keyFile)
         else if k \<noteq> [] then io_return (LoadIdentityFileFromString k)
         else io_fail ErrNoKeyProvided) (\<lambda>creds.
      io_bind (dial [proxyAddress] [creds]) (\<lambda>client.
      io_return \<lparr>tc_Client = Some client, tc_ProxyAddress = proxyAddress\<rparr>)))"

definition GetNodes :: "'s client_ptr \<Rightarrow> string \<Rightarrow> ('s, list_resources_response) io" where
  [go_defs]: "GetNodes c token = with_client c (\<lambda>api. api_GetResources api
     \<lparr>lrr_ResourceType = KindNode, lrr_StartKey = token\<rparr>)"

section \<open>Addresses\<close>

definition strip_scheme :: "string \<Rightarrow> string" where
  [go_defs]: "strip_scheme address = TrimPrefix (TrimPrefix address ''https://'') ''http://''"

lemma hasPort_iff: "hasPort address \<longleftrightarrow> count_list (strip_scheme address) (CHR '':'') = 1"
  by (simp add: hasPort_def strip_scheme_def Let_def length_Split)

text \<open>An address that starts with neither scheme is left alone.\<close>

lemma strip_scheme_none:
  "\<not> HasPrefix a ''https://'' \<Longrightarrow> \<not> HasPrefix a ''http://'' \<Longrightarrow> strip_scheme a = a"
  by (simp add: strip_scheme_def TrimPrefix_def)

lemma TrimPrefix_self: "TrimPrefix (p @ s) p = s"
  by (simp add: TrimPrefix_def HasPrefix_def)

lemma TrimPrefix_none: "\<not> HasPrefix s p \<Longrightarrow> TrimPrefix s p = s"
  by (simp add: TrimPrefix_def)

lemma http_not_https: "\<not> HasPrefix (''http://'' @ s) ''https://''"
  by (simp add: HasPrefix_def)

lemma strip_scheme_append:
  assumes "\<not> HasPrefix s ''https://''" "\<not> HasPrefix s ''http://''"
    and "scheme \<in> {[], ''https://'', ''http://''}"
  shows "strip_scheme (scheme @ s) = s"
proof -
  from assms(3) consider "scheme = []" | "scheme = ''https://''" | "scheme = ''http://''" by blast
  then show ?thesis
  proof cases
    case 1
    then show ?thesis using strip_scheme_none [OF assms(1,2)] by (simp only: append_Nil)
  next
    case 2
    then show ?thesis
      unfolding strip_scheme_def by (simp only: TrimPrefix_self TrimPrefix_none [OF assms(2)])
  next
    case 3
    then show ?thesis
      unfolding strip_scheme_def by (simp only: TrimPrefix_none [OF http_not_https] TrimPrefix_self)
  qed
qed

lemma HasPrefix_member: "HasPrefix s p \<Longrightarrow> x \<in> set p \<Longrightarrow> x \<in> set s"
  unfolding HasPrefix_def by (metis in_set_takeD)

text \<open>The text before the first colon decides whether an address starts with a scheme.\<close>

lemma HasPrefix_before_colon:
  assumes "HasPrefix s p" "CHR '':'' \<in> set p"
  shows "takeWhile (\<lambda>c. c \<noteq> CHR '':'') s = takeWhile (\<lambda>c. c \<noteq> CHR '':'') p"
proof -
  have s: "s = p @ drop (length p) s"
    using assms(1) unfolding HasPrefix_def by (metis append_take_drop_id)
  show ?thesis by (subst s, rule takeWhile_append1 [OF assms(2)]) simp
qed

section \<open>Properties\<close>

lemma no_scheme_host:
  assumes "CHR '':'' \<notin> set host" "CHR '':'' \<in> set p"
  shows "\<not> HasPrefix host p"
  using HasPrefix_member assms by metis

lemma no_scheme_host_port:
  assumes "CHR '':'' \<notin> set host" "p \<in> {''https://'', ''http://''}"
  shows "\<not> HasPrefix (host @ '':443'') p"
proof
  assume pre: "HasPrefix (host @ '':443'') p"
  have n: "takeWhile (\<lambda>c. c \<noteq> CHR '':'') (host @ '':443'') = host"
    using assms(1) by (subst takeWhile_append2) auto
  from assms(2) consider "p = ''https://''" | "p = ''http://''" by blast
  then show False
  proof cases
    case 1
    with HasPrefix_before_colon [OF pre] n have "host = ''https''" by simp
    with pre 1 show False by (simp add: HasPrefix_def)
  next
    case 2
    with HasPrefix_before_colon [OF pre] n have "host = ''http''" by simp
    with pre 2 show False by (simp add: HasPrefix_def)
  qed
qed

text \<open>
  C36: The default port. An address is kept exactly when one colon is left once its scheme is
  removed; every other one gets \<open>:443\<close> appended, one without a colon and one with two or more,
  an IPv6 address with a port for example. An address without a colon there has a port
  afterwards, and doing it again changes nothing.
\<close>

theorem default_port:
  assumes "CHR '':'' \<notin> set host" "scheme \<in> {[], ''https://'', ''http://''}"
  shows "with_default_port (scheme @ host) = scheme @ host @ '':443'' \<and>
    hasPort (scheme @ host @ '':443'') \<and>
    with_default_port (scheme @ host @ '':443'') = scheme @ host @ '':443'' \<and>
    with_default_port address = (if count_list (strip_scheme address) (CHR '':'') = 1 then address
      else address @ '':443'')"
proof -
  have h0: "count_list host (CHR '':'') = 0" using assms(1) by (simp add: count_list_0_iff)
  have s1: "strip_scheme (scheme @ host) = host"
    by (rule strip_scheme_append [OF no_scheme_host [OF assms(1)] no_scheme_host [OF assms(1)] assms(2)])
      simp_all
  have s2: "strip_scheme (scheme @ host @ '':443'') = host @ '':443''"
    by (rule strip_scheme_append [OF no_scheme_host_port [OF assms(1)]
          no_scheme_host_port [OF assms(1)] assms(2)]) simp_all
  have "\<not> hasPort (scheme @ host)" "hasPort (scheme @ host @ '':443'')"
    unfolding hasPort_iff s1 s2 by (simp_all add: h0)
  then show ?thesis by (simp add: with_default_port_def hasPort_iff)
qed

theorem default_port_witness:
  "with_default_port ''https://teleport.example.com'' = ''https://teleport.example.com:443'' \<and>
   with_default_port ''[::1]:3080'' = ''[::1]:3080:443''"
proof -
  have "count_list (strip_scheme ''[::1]:3080'') (CHR '':'') = 3" by code_simp
  then show ?thesis
    using default_port [of "''teleport.example.com''" "''https://''" "''[::1]:3080''"] by simp
qed

text \<open>
  An address with two or more colons after its scheme, an IPv6 address for example, is
  taken to have no port, with or without one: 443 is appended to it either way.
\<close>

lemma many_colons_get_port:
  assumes "2 \<le> count_list (strip_scheme address) (CHR '':'')"
  shows "\<not> hasPort address \<and> with_default_port address = address @ '':443''"
  using assms by (simp add: with_default_port_def hasPort_iff)

lemma many_colons_get_port_witness:
  "with_default_port ''[::1]:3080'' = ''[::1]:3080:443''"
proof -
  have "2 \<le> count_list (strip_scheme ''[::1]:3080'') (CHR '':'')" by code_simp
  from many_colons_get_port [OF this] show ?thesis by simp
qed

text \<open>
  Without a key file and a key the client is refused before anything is dialled; with a
  key file that file is used, whether a key is given or not; the client remembers the
  address with its port.
\<close>

lemma new_client_credentials:
  "New dial addr keyFile k s =
    (if keyFile = [] \<and> k = [] then (Inl ErrNoKeyProvided, s)
     else case dial [with_default_port addr]
         [if keyFile \<noteq> [] then LoadIdentityFile keyFile else LoadIdentityFileFromString k] s of
       (Inr api, s') \<Rightarrow> (Inr \<lparr>tc_Client = Some api, tc_ProxyAddress = with_default_port addr\<rparr>, s')
     | (Inl e, s') \<Rightarrow> (Inl e, s'))"
  by (simp add: New_def Let_def io_bind_def io_return_def io_fail_def split: prod.splits sum.splits)

end
