(* ===== verification/Test_Events.thy ===== *)
theory Test_Events
  imports Event_Feeds Client
begin

text \<open>
  \<open>cmd/test-events/main.go\<close>: the report of the last logins and of the audit events of the last
  two hours. The program's state is the outside world and what it has written. The main lemma is
  about the last logins: the program keeps the first successful login it meets per user, which
  is the latest because it asks for descending order.
\<close>

section \<open>Writing\<close>

datatype written = Stdout string | Stderr string

type_synonym 's console = "'s \<times> written list"

definition nl :: string where [go_defs]: "nl = [CHR 0x0A]"

definition emit :: "written \<Rightarrow> ('s console, unit) io" where
  "emit x = (\<lambda>(s, out). (Inr (), (s, out @ [x])))"

definition emit_all :: "written list \<Rightarrow> ('s console, unit) io" where
  "emit_all xs = (\<lambda>(s, out). (Inr (), (s, out @ xs)))"

definition println :: "string \<Rightarrow> ('s console, unit) io" where
  "println t = emit (Stdout (t @ nl))"

text \<open>A call whose error is looked at: an error is a value, a panic is not caught.\<close>

definition io_try :: "('s, 'a) io \<Rightarrow> ('s, 'a result) io" where
  "io_try m = (\<lambda>s. case m s of
     (Inl (Panic p), s') \<Rightarrow> (Inl (Panic p), s')
   | (r, s') \<Rightarrow> (Inr r, s'))"

text \<open>\<open>defer\<close>: the result of the deferred call is dropped, unless it panics.\<close>

definition io_defer :: "('s, 'b) io \<Rightarrow> ('s, 'a) io \<Rightarrow> ('s, 'a) io" where
  "io_defer fin m = (\<lambda>s. case m s of (r, s') \<Rightarrow> (case fin s' of
     (Inl (Panic p), s'') \<Rightarrow> (Inl (Panic p), s'')
   | (_, s'') \<Rightarrow> (r, s'')))"

text \<open>The text of an error, as \<open>%v\<close> prints it.\<close>

fun error_text :: "error \<Rightarrow> string" where
  "error_text (Errorf m) = m"
| "error_text (Wrapf m e) = m @ '': '' @ error_text e"
| "error_text (Panic m) = m"

text \<open>Formatting: \<open>%-ns\<close> pads to \<open>n\<close> runes, \<open>%t\<close> is a bool, \<open>%v\<close> of a list of strings.\<close>

function rune_count :: "string \<Rightarrow> nat" where
  "rune_count [] = 0"
| "rune_count (c # cs) = Suc (rune_count (drop (snd (decode_rune (c # cs)) - 1) cs))"
  by pat_completeness auto
termination by (relation "measure length") auto

definition pad_right :: "nat \<Rightarrow> string \<Rightarrow> string" where
  [go_defs]: "pad_right n t = t @ replicate (n - rune_count t) (CHR '' '')"

definition fmt_bool :: "bool \<Rightarrow> string" where
  [go_defs]: "fmt_bool b = (if b then ''true'' else ''false'')"

fun join_spaces :: "string list \<Rightarrow> string" where
  "join_spaces [] = []"
| "join_spaces [x] = x"
| "join_spaces (x # y # ys) = x @ '' '' @ join_spaces (y # ys)"

definition fmt_strings :: "string list \<Rightarrow> string" where
  [go_defs]: "fmt_strings xs = ''['' @ join_spaces xs @ '']''"

text \<open>\<open>t.Format(time.RFC3339)\<close> of an instant in UTC: whole seconds.\<close>

definition format_rfc3339 :: "time \<Rightarrow> string" where
  [go_defs]: "format_rfc3339 t = go_format (t div nanos_per_sec * nanos_per_sec)"

section \<open>The last logins\<close>

text \<open>The loop body: a line per login, and the time of the first successful one per user.\<close>

fun login_step ::
    "audit_event \<Rightarrow> written list \<times> (string \<times> string) list \<Rightarrow> written list \<times> (string \<times> string) list" where
  "login_step (UserLogin m user success) (out, userLogins) =
     (out @ [Stdout (''  user='' @ pad_right 45 user @ '' success='' @ pad_right 5 (fmt_bool success) @
        '' time='' @ format_rfc3339 (em_Time m) @ nl)],
      if success \<and> map_of userLogins user = None
      then userLogins @ [(user, format_rfc3339 (em_Time m))] else userLogins)"
| "login_step _ acc = acc"

text \<open>Go ranges over a map in no particular order: \<open>order\<close> is the one of this run.\<close>

definition login_report ::
    "((string \<times> string) list \<Rightarrow> (string \<times> string) list) \<Rightarrow> audit_event list \<Rightarrow> written list" where
  [go_defs]: "login_report order loginResult =
     (let (out, userLogins) = fold login_step loginResult ([], []) in
      out @ [Stdout (nl @ ''--- Last login per user ---'' @ nl)] @
      map (\<lambda>(user, lastLogin). Stdout (''  '' @ pad_right 45 user @ '' '' @ lastLogin @ nl)) (order userLogins))"

section \<open>The audit events\<close>

definition auditTypes :: "string list" where
  [go_defs]: "auditTypes =
     [''user.create'', ''user.update'', ''user.delete'',
      ''role.created'', ''role.updated'', ''role.deleted'',
      ''app.create'', ''app.update'', ''app.delete'',
      ''db.create'', ''db.update'', ''db.delete'',
      ''access_request.create'', ''access_request.review'',
      ''access_request.update'', ''access_request.expire'',
      ''access_request.delete'',
      ''lock.created'', ''lock.deleted'']"

definition named_line :: "string \<Rightarrow> event_metadata \<Rightarrow> string \<Rightarrow> string" where
  [go_defs]: "named_line label m rest =
     ''  ['' @ format_rfc3339 (em_Time m) @ ''] '' @ label @ ''id='' @ pad_right 36 (em_ID m) @ '' '' @ rest @ nl"

fun audit_line :: "audit_event \<Rightarrow> string" where
  "audit_line (UserCreate m name roles) =
     named_line ''user.create      '' m (''user='' @ pad_right 40 name @ '' roles='' @ fmt_strings roles)"
| "audit_line (UserUpdate m name roles) =
     named_line ''user.update      '' m (''user='' @ pad_right 40 name @ '' roles='' @ fmt_strings roles)"
| "audit_line (UserDelete m name) = named_line ''user.delete      '' m (''user='' @ name)"
| "audit_line (RoleCreate m name) = named_line ''role.create      '' m (''role='' @ name)"
| "audit_line (RoleUpdate m name) = named_line ''role.update      '' m (''role='' @ name)"
| "audit_line (RoleDelete m name) = named_line ''role.delete      '' m (''role='' @ name)"
| "audit_line (AppCreate m name) = named_line ''app.create       '' m (''app='' @ name)"
| "audit_line (AppUpdate m name) = named_line ''app.update       '' m (''app='' @ name)"
| "audit_line (AppDelete m name) = named_line ''app.delete       '' m (''app='' @ name)"
| "audit_line (DatabaseCreate m name) = named_line ''db.create        '' m (''db='' @ name)"
| "audit_line (DatabaseUpdate m name) = named_line ''db.update        '' m (''db='' @ name)"
| "audit_line (DatabaseDelete m name) = named_line ''db.delete        '' m (''db='' @ name)"
| "audit_line (AccessRequestCreate m user roles rid st) =
     named_line ''access_req.create '' m
       (''user='' @ pad_right 30 user @ '' roles='' @ fmt_strings roles @ '' state='' @ st)"
| "audit_line (AccessRequestDelete m user rid) =
     named_line ''access_req.delete '' m (''user='' @ user @ '' requestID='' @ rid)"
| "audit_line (LockCreate m target) =
     named_line ''lock.create      '' m
       (''target=user:'' @ pad_right 20 (lt_User target) @ '' role:'' @ lt_Role target)"
| "audit_line (LockDelete m target) =
     named_line ''lock.delete      '' m
       (''target=user:'' @ pad_right 20 (lt_User target) @ '' role:'' @ lt_Role target)"
| "audit_line a =
     ''  ['' @ format_rfc3339 (em_Time (EventMeta a)) @ ''] '' @ pad_right 16 (em_Type (EventMeta a)) @
     '' id='' @ em_ID (EventMeta a) @ nl"

definition audit_report :: "audit_event list \<Rightarrow> written list" where
  [go_defs]: "audit_report auditResult =
     (if auditResult = [] then [Stdout (''  (no audit events found in last 2 hours)'' @ nl)] else []) @
     map (\<lambda>e. Stdout (audit_line e)) auditResult @
     [Stdout (nl @ ''Total audit events: '' @ dec_digits (length auditResult) @ nl)]"

section \<open>The program\<close>

definition report ::
    "'s clock \<Rightarrow> ((string \<times> string) list \<Rightarrow> (string \<times> string) list) \<Rightarrow> 's teleport_api
      \<Rightarrow> ('s console, unit) io" where
  "report clk order api =
     io_bind (on_world (now clk)) (\<lambda>u.
     io_bind (println ''=== USAGE EVENTS (user.login - last 7 days) ==='') (\<lambda>_.
     io_bind (io_try (on_world (api_SearchEvents api
        \<lparr>sr_From = u + (- 7) * 24 * hour_nanos, sr_To = u, sr_Namespace = Namespace,
         sr_EventTypes = [''user.login''], sr_Limit = 50, sr_Order = EventOrderDescending,
         sr_StartKey = [], sr_Search = []\<rparr>))) (\<lambda>r.
     io_bind (case r of
         Inl e \<Rightarrow> emit (Stderr (''Failed to search login events: '' @ error_text e @ nl))
       | Inr (loginResult, _) \<Rightarrow> emit_all (login_report order loginResult)) (\<lambda>_.
     io_bind (emit (Stdout (nl @ ''=== AUDIT EVENTS (last 2 hours) ==='' @ nl))) (\<lambda>_.
     io_bind (io_try (on_world (api_SearchEvents api
        \<lparr>sr_From = u + (- 2) * hour_nanos, sr_To = u, sr_Namespace = Namespace,
         sr_EventTypes = auditTypes, sr_Limit = 100, sr_Order = EventOrderAscending,
         sr_StartKey = [], sr_Search = []\<rparr>))) (\<lambda>r.
     case r of
         Inl e \<Rightarrow> emit (Stderr (''Failed to search audit events: '' @ error_text e @ nl))
       | Inr (auditResult, _) \<Rightarrow> emit_all (audit_report auditResult)))))))"

definition test_events_main ::
    "(string list \<Rightarrow> credentials list \<Rightarrow> ('s, 's teleport_api) io) \<Rightarrow> 's clock
      \<Rightarrow> ((string \<times> string) list \<Rightarrow> (string \<times> string) list) \<Rightarrow> ('s console, unit) io" where
  "test_events_main dial clk order =
     io_bind (io_try (on_world (dial [''horizon.teleport.sh:443''] [LoadIdentityFile ''auth.pem'']))) (\<lambda>r.
     case r of
       Inl e \<Rightarrow> emit (Stderr (''Failed to create client: '' @ error_text e @ nl))
     | Inr api \<Rightarrow> io_defer (on_world (api_Close api)) (report clk order api))"

section \<open>Properties\<close>

fun success_of :: "string \<Rightarrow> audit_event \<Rightarrow> bool" where
  "success_of u (UserLogin m user success) \<longleftrightarrow> user = u \<and> success"
| "success_of u _ \<longleftrightarrow> False"

text \<open>The times of the successful logins of a user.\<close>

definition login_times :: "string \<Rightarrow> audit_event list \<Rightarrow> time set" where
  "login_times u evs = (\<lambda>a. em_Time (EventMeta a)) ` {a \<in> set evs. success_of u a}"

lemma login_steps:
  "map_of (snd (fold login_step evs (out, lasts))) u = (case map_of lasts u of
     Some x \<Rightarrow> Some x
   | None \<Rightarrow> map_option (\<lambda>a. format_rfc3339 (em_Time (EventMeta a))) (find (success_of u) evs))"
proof (induction evs arbitrary: out lasts)
  case (Cons a evs)
  then show ?case
    by (cases a) (auto simp: map_add_def split: option.splits)
qed (auto split: option.splits)

lemma login_steps_distinct:
  "distinct (map fst lasts) \<Longrightarrow> distinct (map fst (snd (fold login_step evs (out, lasts))))"
proof (induction evs arbitrary: out lasts)
  case (Cons a evs)
  then show ?case
    by (cases a) (simp_all add: map_of_eq_None_iff)
qed simp

lemma first_is_latest:
  assumes "sorted_wrt (\<lambda>a b. em_Time (EventMeta b) \<le> em_Time (EventMeta a)) evs"
  shows "map_option (\<lambda>a. em_Time (EventMeta a)) (find (success_of u) evs) =
    (if login_times u evs = {} then None else Some (Max (login_times u evs)))"
  using assms
proof (induction evs)
  case (Cons a evs)
  show ?case
  proof (cases "success_of u a")
    case True
    have "Max (login_times u (a # evs)) = em_Time (EventMeta a)"
      using Cons.prems True by (intro Max_eqI) (auto simp: login_times_def)
    with True show ?thesis by (auto simp: login_times_def)
  next
    case False
    then have "login_times u (a # evs) = login_times u evs"
      by (auto simp: login_times_def)
    with False Cons show ?thesis by simp
  qed
qed (simp add: login_times_def)

text \<open>
  C39: The report of the last logins. When the service answers in descending order, as asked,
  the report ends with one line per user that has logged in successfully, in whatever order
  the map is ranged over, with the time of the user's latest successful login; the lines
  before it list every login of the answer.
\<close>

theorem last_logins_reported:
  assumes "sorted_wrt (\<lambda>a b. em_Time (EventMeta b) \<le> em_Time (EventMeta a)) evs"
  shows "\<exists>lines lasts. login_report order evs = lines @ [Stdout (nl @ ''--- Last login per user ---'' @ nl)] @
      map (\<lambda>(user, t). Stdout (''  '' @ pad_right 45 user @ '' '' @ t @ nl)) (order lasts) \<and>
    distinct (map fst lasts) \<and>
    (\<forall>u. map_of lasts u = (if login_times u evs = {} then None
        else Some (format_rfc3339 (Max (login_times u evs)))))"
proof -
  let ?r = "fold login_step evs ([], [])"
  have "map_of (snd ?r) u = (if login_times u evs = {} then None
        else Some (format_rfc3339 (Max (login_times u evs))))" for u
  proof -
    have "map_of (snd ?r) u =
        map_option format_rfc3339 (map_option (\<lambda>a. em_Time (EventMeta a)) (find (success_of u) evs))"
      by (simp add: login_steps option.map_comp comp_def)
    then show ?thesis unfolding first_is_latest [OF assms] by simp
  qed
  moreover have "distinct (map fst (snd ?r))"
    by (rule login_steps_distinct) simp
  ultimately show ?thesis
    by (intro exI [of _ "fst ?r"] exI [of _ "snd ?r"]) (simp add: login_report_def split_beta)
qed

definition sample_logins :: "audit_event list" where
  "sample_logins =
     [UserLogin \<lparr>em_ID = ''3'', em_Time = 90, em_ClusterName = [], em_Type = []\<rparr> ''ann'' False,
      UserLogin \<lparr>em_ID = ''2'', em_Time = 60, em_ClusterName = [], em_Type = []\<rparr> ''ann'' True,
      UserLogin \<lparr>em_ID = ''1'', em_Time = 30, em_ClusterName = [], em_Type = []\<rparr> ''ann'' True]"

theorem last_logins_reported_witness:
  "\<exists>lines lasts. login_report rev sample_logins = lines @ [Stdout (nl @ ''--- Last login per user ---'' @ nl)] @
      map (\<lambda>(user, t). Stdout (''  '' @ pad_right 45 user @ '' '' @ t @ nl)) (rev lasts) \<and>
    map_of lasts ''ann'' = Some (format_rfc3339 60) \<and> map_of lasts ''bob'' = None"
proof -
  have s: "sorted_wrt (\<lambda>a b. em_Time (EventMeta b) \<le> em_Time (EventMeta a)) sample_logins"
    by (simp add: sample_logins_def)
  have "{a \<in> set sample_logins. success_of ''ann'' a} = set (filter (success_of ''ann'') sample_logins)"
    "{a \<in> set sample_logins. success_of ''bob'' a} = set (filter (success_of ''bob'') sample_logins)"
    by auto
  then have t: "login_times ''ann'' sample_logins = {60, 30}" "login_times ''bob'' sample_logins = {}"
    unfolding login_times_def by (simp_all add: sample_logins_def)
  obtain lines lasts where r: "login_report rev sample_logins =
      lines @ [Stdout (nl @ ''--- Last login per user ---'' @ nl)] @
      map (\<lambda>(user, t). Stdout (''  '' @ pad_right 45 user @ '' '' @ t @ nl)) (rev lasts)"
    and m: "\<forall>u. map_of lasts u = (if login_times u sample_logins = {} then None
        else Some (format_rfc3339 (Max (login_times u sample_logins))))"
    using last_logins_reported [OF s, of rev] by blast
  have "map_of lasts ''ann'' = Some (format_rfc3339 60)" "map_of lasts ''bob'' = None"
    using m [rule_format, of "''ann''"] m [rule_format, of "''bob''"] t by simp_all
  with r show ?thesis by (intro exI conjI)
qed

end
