(* ===== verification/Populate_Events.thy ===== *)
theory Populate_Events
  imports Test_Events Feed_Cycle Roles
begin

text \<open>
  \<open>cmd/populate-test-events/main.go\<close>: the script that creates, changes and deletes a test role,
  user, lock and access request so that each step leaves an audit event. The calls the script
  makes beyond those of the connector are an extension of the client, a parameter. The
  properties relate the script to the audit feed: which of the events it leaves the feed reports.
\<close>

section \<open>The client and the resources of the script\<close>

record role_v6 = role +
  r6_AllowLogins :: "string list"
  r6_RequestRoles :: "string list"

record lock =
  lck_Name :: string
  lck_Target :: lock_target
  lck_Message :: string

record access_request_v3 =
  arq_Name :: string
  arq_User :: string
  arq_Roles :: "string list"
  arq_Reason :: string

record request_update =
  rup_RequestID :: string
  rup_State :: string
  rup_Reason :: string

record 's admin_api =
  adm_Client :: "'s teleport_api"
  adm_ListAccessRequests :: "('s, access_request_v3 list) io"
  adm_DeleteAccessRequest :: "string \<Rightarrow> ('s, unit) io"
  adm_CreateRole :: "role_v6 \<Rightarrow> ('s, role_v6) io"
  adm_GetRole :: "string \<Rightarrow> ('s, role_v6) io"
  adm_UpsertRole :: "role_v6 \<Rightarrow> ('s, role_v6) io"
  adm_DeleteRole :: "string \<Rightarrow> ('s, unit) io"
  adm_UpsertLock :: "lock \<Rightarrow> ('s, unit) io"
  adm_DeleteLock :: "string \<Rightarrow> ('s, unit) io"
  adm_CreateAccessRequestV2 :: "access_request_v3 \<Rightarrow> ('s, access_request_v3) io"
  adm_SetAccessRequestState :: "request_update \<Rightarrow> ('s, unit) io"

definition proxyAddress :: string where [go_defs]: "proxyAddress = ''horizon.teleport.sh:443''"
definition identityFile :: string where [go_defs]: "identityFile = ''auth.pem''"
definition testRoleName :: string where [go_defs]: "testRoleName = ''baton-evt-test-role''"
definition testUserName :: string where [go_defs]: "testUserName = ''baton-evt-test-user''"
definition testLockName :: string where [go_defs]: "testLockName = ''baton-evt-test-lock''"

text \<open>
  The constructors of \<open>api/types\<close> on what the script passes: they check that the name is there
  and the defining field is not empty, and fill in the defaults.
\<close>

definition NewRoleV6 :: "string \<Rightarrow> string list \<Rightarrow> string list \<Rightarrow> role_v6 result" where
  [go_defs]: "NewRoleV6 name logins requestRoles = res_bind (NewRole name logins) (\<lambda>r.
     Inr \<lparr>rol_Metadata = rol_Metadata r, r6_AllowLogins = logins, r6_RequestRoles = requestRoles\<rparr>)"

definition NewUser :: "string \<Rightarrow> user_v2 result" where
  [go_defs]: "NewUser name =
     (if name = [] then Inl (Errorf ''missing parameter Name'')
      else Inr \<lparr>usr_Kind = KindUser, usr_Version = V2,
        usr_Metadata = \<lparr>md_Name = name, md_Namespace = Namespace, md_Description = [],
          md_Labels = [], md_Revision = []\<rparr>,
        usr_Roles = [], usr_Traits = None, usr_IsLocked = False, usr_CreatedByConnector = None,
        usr_OIDCIdentities = [], usr_SAMLIdentities = [], usr_GithubIdentities = []\<rparr>)"

definition NewLock :: "string \<Rightarrow> lock_target \<Rightarrow> string \<Rightarrow> lock result" where
  [go_defs]: "NewLock name target message =
     (if name = [] then Inl (Errorf ''missing parameter Name'')
      else if target = \<lparr>lt_User = [], lt_Role = [], lt_Login = [], lt_ServerID = []\<rparr>
        then Inl (Errorf ''at least one target field must be set'')
      else Inr \<lparr>lck_Name = name, lck_Target = target, lck_Message = message\<rparr>)"

definition NewAccessRequest :: "string \<Rightarrow> string \<Rightarrow> string \<Rightarrow> access_request_v3 result" where
  [go_defs]: "NewAccessRequest name user role =
     (if name = [] then Inl (Errorf ''missing parameter Name'')
      else if user = [] then Inl (Errorf ''access request user name not set'')
      else Inr \<lparr>arq_Name = name, arq_User = user, arq_Roles = [role], arq_Reason = []\<rparr>)"

section \<open>Control\<close>

fun io_seq :: "('s, unit) io list \<Rightarrow> ('s, unit) io" where
  "io_seq [] = io_return ()"
| "io_seq (m # ms) = io_bind m (\<lambda>_. io_seq ms)"

text \<open>\<open>os.Exit(1)\<close> ends the program without running what was deferred.\<close>

definition exit_1 :: error where [go_defs]: "exit_1 = Errorf ''exit status 1''"

definition fatalf :: "string \<Rightarrow> ('s console, 'a) io" where
  "fatalf message = io_bind (emit (Stderr (''FATAL: '' @ message @ nl))) (\<lambda>_. io_fail exit_1)"

definition defer_unless_exit :: "('s, 'b) io \<Rightarrow> ('s, 'a) io \<Rightarrow> ('s, 'a) io" where
  "defer_unless_exit fin m = (\<lambda>s. case m s of
     (Inl e, s') \<Rightarrow> if e = exit_1 then (Inl e, s') else io_defer fin (\<lambda>s. (Inl e, s)) s'
   | (Inr a, s') \<Rightarrow> io_defer fin (io_return a) s')"

definition or_fatal :: "string \<Rightarrow> ('s console, 'a) io \<Rightarrow> ('s console, 'a) io" where
  "or_fatal what m = io_bind (io_try m) (\<lambda>r. case r of
     Inl e \<Rightarrow> fatalf (what @ '': '' @ error_text e) | Inr a \<Rightarrow> io_return a)"

text \<open>The arrow and the dash of the messages, in UTF-8.\<close>

definition arrow :: string where [go_defs]: "arrow = '' '' @ [CHR 0xE2, CHR 0x86, CHR 0x92] @ '' ''"
definition dash :: string where [go_defs]: "dash = '' '' @ [CHR 0xE2, CHR 0x80, CHR 0x94] @ '' ''"

definition prints :: "string \<Rightarrow> ('s console, unit) io" where
  "prints t = emit (Stdout t)"

definition pause :: "string \<Rightarrow> string \<Rightarrow> ('s console, unit) io" where
  "pause before after = prints (''  (waiting 3s: '' @ before @ arrow @ after @ '')'' @ nl)"

definition ok_expect :: "string \<Rightarrow> ('s console, unit) io" where
  "ok_expect what = println (''OK'' @ arrow @ ''expect '' @ what)"

section \<open>Phase 1: cleanup\<close>

text \<open>Errors are ignored; the request's deletion is reported whether it worked or not.\<close>

definition try_delete :: "('s, unit) io \<Rightarrow> string \<Rightarrow> ('s console, unit) io" where
  "try_delete m message = io_bind (io_try (on_world m)) (\<lambda>r. case r of
     Inl e \<Rightarrow> io_return () | Inr _ \<Rightarrow> prints (message @ nl))"

definition cleanupAll :: "'s admin_api \<Rightarrow> ('s console, unit) io" where
  "cleanupAll a =
     io_bind (io_try (on_world (adm_ListAccessRequests a))) (\<lambda>r.
     io_seq
      ((case r of
          Inl e \<Rightarrow> []
        | Inr requests \<Rightarrow> map (\<lambda>req.
            if arq_User req = testUserName
            then io_bind (io_try (on_world (adm_DeleteAccessRequest a (arq_Name req)))) (\<lambda>_.
                 prints (''  Cleaned up access request: '' @ arq_Name req @ nl))
            else io_return ()) requests) @
       [try_delete (adm_DeleteLock a testLockName) (''  Cleaned up lock: '' @ testLockName),
        try_delete (api_DeleteUser (adm_Client a) testUserName) (''  Cleaned up user: '' @ testUserName),
        try_delete (adm_DeleteRole a testRoleName) (''  Cleaned up role: '' @ testRoleName)]))"

section \<open>Phases 2 to 4: role, user and lock\<close>

definition create_role :: "'s admin_api \<Rightarrow> ('s console, unit) io" where
  "create_role a =
     io_bind (prints ''  Creating role... '') (\<lambda>_.
     io_bind (or_fatal ''create role spec''
       (io_lift (NewRoleV6 testRoleName [''test-login''] [''editor'']))) (\<lambda>role.
     io_bind (or_fatal ''CreateRole'' (on_world (adm_CreateRole a role))) (\<lambda>_.
     ok_expect ''role.created event'')))"

definition create_user :: "'s admin_api \<Rightarrow> ('s console, unit) io" where
  "create_user a =
     io_bind (prints ''  Creating user... '') (\<lambda>_.
     io_bind (or_fatal ''create user spec'' (io_lift (NewUser testUserName))) (\<lambda>user.
     let user = SetRoles [''access'', testRoleName] user in
     io_bind (or_fatal ''CreateUser'' (on_world (api_CreateUser (adm_Client a) user))) (\<lambda>_.
     ok_expect (''user.create event with roles=[access, '' @ testRoleName @ '']''))))"

definition update_role :: "'s admin_api \<Rightarrow> ('s console, unit) io" where
  "update_role a =
     io_bind (prints ''  Updating role... '') (\<lambda>_.
     io_bind (or_fatal ''GetRole'' (on_world (adm_GetRole a testRoleName))) (\<lambda>existingRole.
     io_bind (or_fatal ''UpsertRole'' (on_world (adm_UpsertRole a
       (existingRole\<lparr>r6_AllowLogins := [''test-login'', ''updated-login'']\<rparr>)))) (\<lambda>_.
     ok_expect ''role.created or role.updated event'')))"

definition update_user :: "'s admin_api \<Rightarrow> ('s console, unit) io" where
  "update_user a =
     io_bind (prints ''  Updating user roles... '') (\<lambda>_.
     io_bind (or_fatal ''GetUser'' (on_world (api_GetUser (adm_Client a) testUserName False))) (\<lambda>existingUser.
     let existingUser = SetRoles [''access'', testRoleName, ''editor''] existingUser in
     io_bind (or_fatal ''UpdateUser'' (on_world (api_UpdateUser (adm_Client a) existingUser))) (\<lambda>_.
     ok_expect (''user.update event with roles=[access, '' @ testRoleName @ '', editor]''))))"

definition create_lock :: "'s admin_api \<Rightarrow> ('s console, unit) io" where
  "create_lock a =
     io_bind (prints ''  Creating lock... '') (\<lambda>_.
     io_bind (or_fatal ''create lock spec'' (io_lift (NewLock testLockName
       \<lparr>lt_User = testUserName, lt_Role = [], lt_Login = [], lt_ServerID = []\<rparr>
       ''baton event feed test lock''))) (\<lambda>lock.
     io_bind (or_fatal ''UpsertLock'' (on_world (adm_UpsertLock a lock))) (\<lambda>_.
     ok_expect (''lock.created event with target.user='' @ testUserName))))"

section \<open>Phase 5: the access request\<close>

definition approve_request :: "'s admin_api \<Rightarrow> access_request_v3 \<Rightarrow> ('s console, unit) io" where
  "approve_request a accessReq =
     io_bind (prints ''  Approving access request... '') (\<lambda>_.
     io_bind (io_try (on_world (adm_SetAccessRequestState a
       \<lparr>rup_RequestID = arq_Name accessReq, rup_State = ''APPROVED'',
        rup_Reason = ''baton event feed test approval''\<rparr>))) (\<lambda>r.
     case r of
       Inl e \<Rightarrow> prints (''SKIP (approve failed: '' @ error_text e @ '')'' @ nl)
     | Inr _ \<Rightarrow> ok_expect ''access_request.review/update event (APPROVED)''))"

definition access_request :: "'s admin_api \<Rightarrow> string \<Rightarrow> ('s console, unit) io" where
  "access_request a accessReqID =
     io_bind (prints ''  Creating access request... '') (\<lambda>_.
     case NewAccessRequest accessReqID testUserName ''editor'' of
       Inl e \<Rightarrow> prints (''SKIP (cannot create spec: '' @ error_text e @ '')'' @ nl)
     | Inr accessReq \<Rightarrow>
         let accessReq = accessReq\<lparr>arq_Reason := ''baton event feed test''\<rparr> in
         io_bind (io_try (on_world (adm_CreateAccessRequestV2 a accessReq))) (\<lambda>r.
         case r of
           Inl e \<Rightarrow> io_seq
             [prints (''SKIP (create failed: '' @ error_text e @ '')'' @ nl),
              println ''  (Access requests may require specific role configuration)'']
         | Inr _ \<Rightarrow> io_seq
             [ok_expect ''access_request.create event (PENDING)'',
              pause ''access request create'' ''approve'',
              approve_request a accessReq]))"

section \<open>Phase 6 and the program\<close>

definition delete_step :: "string \<Rightarrow> ('s, unit) io \<Rightarrow> string \<Rightarrow> ('s console, unit) io" where
  "delete_step what m expected =
     io_bind (prints what) (\<lambda>_.
     io_bind (io_try (on_world m)) (\<lambda>r. case r of
       Inl e \<Rightarrow> prints (''WARN: '' @ error_text e @ nl)
     | Inr _ \<Rightarrow> ok_expect expected))"

definition closing_lines :: "string list" where
  [go_defs]: "closing_lines =
     [nl @ ''=== Done ==='', ''Now run: go run ./cmd/test-events'',
      ''to verify all expected audit events appeared.'', [],
      ''Expected events (handled by audit feed):'',
      ''  1. role.created             '' @ arrow @ testRoleName @ '' (initial create)'',
      ''  2. user.create              '' @ arrow @ testUserName @ '' (roles=[access, '' @ testRoleName @ ''])'',
      ''  3. role.created/role.updated '' @ arrow @ testRoleName @ '' (upsert modification)'',
      ''  4. user.update              '' @ arrow @ testUserName @ '' (roles=[access, '' @ testRoleName @ '', editor])'',
      ''  5. lock.created             '' @ arrow @ ''target.user='' @ testUserName @ '' (user disabled)'',
      ''  6. access_request.review/update'' @ arrow @ ''APPROVED (if supported)'',
      ''  7. lock.deleted             '' @ arrow @ ''target.user='' @ testUserName @ '' (user re-enabled)'',
      [],
      ''Expected events (excluded from feed'' @ dash @ ''reconciled by full sync):'',
      ''  8. access_request.create'' @ arrow @ ''PENDING (no access granted yet)'',
      ''  9. user.delete          '' @ arrow @ testUserName,
      ''  10. role.deleted        '' @ arrow @ testRoleName]"

definition populate :: "'s admin_api \<Rightarrow> string \<Rightarrow> ('s console, unit) io" where
  "populate a accessReqID = io_seq
     ([println ''Connected successfully.'', println [],
       println ''--- Phase 1: Cleanup leftovers ---'',
       cleanupAll a, pause ''cleanup'' ''creation'',
       println ''--- Phase 2: Create resources ---'',
       create_role a, pause ''role create'' ''user create'',
       create_user a, pause ''user create'' ''role update'',
       println (nl @ ''--- Phase 3: Modify resources ---''),
       update_role a, pause ''role update'' ''user update'',
       update_user a, pause ''user update'' ''lock create'',
       println (nl @ ''--- Phase 4: Lock operations ---''),
       create_lock a, pause ''lock create'' ''access request'',
       println (nl @ ''--- Phase 5: Access request ---''),
       access_request a accessReqID, pause ''access request'' ''delete lock'',
       println (nl @ ''--- Phase 6: Delete resources (for verification of exclusion) ---''),
       delete_step ''  Deleting lock... '' (adm_DeleteLock a testLockName)
         (''lock.deleted event (handled'' @ dash @ ''user re-enabled)''),
       pause ''lock delete'' ''user delete'',
       delete_step ''  Deleting user... '' (api_DeleteUser (adm_Client a) testUserName)
         ''user.delete event (should be IGNORED by feed)'',
       pause ''user delete'' ''role delete'',
       delete_step ''  Deleting role... '' (adm_DeleteRole a testRoleName)
         ''role.deleted event (should be IGNORED by feed)''] @
      map println closing_lines)"

text \<open>The random id of the access request is drawn in phase 5; nothing before reads it.\<close>

definition populate_main ::
    "(string list \<Rightarrow> credentials list \<Rightarrow> ('s, 's admin_api) io) \<Rightarrow> string \<Rightarrow> ('s console, unit) io" where
  "populate_main dial accessReqID =
     io_bind (println ''=== Populate Test Events ==='') (\<lambda>_.
     io_bind (prints (''Target: '' @ proxyAddress @ nl @ nl)) (\<lambda>_.
     io_bind (io_try (on_world (dial [proxyAddress] [LoadIdentityFile identityFile]))) (\<lambda>r.
     case r of
       Inl e \<Rightarrow> emit (Stderr (''Failed to create client: '' @ error_text e @ nl))
     | Inr a \<Rightarrow> defer_unless_exit (on_world (api_Close (adm_Client a))) (populate a accessReqID))))"

section \<open>A cluster that logs\<close>

text \<open>
  A fresh cluster on which every change succeeds and leaves the audit event that
  \<open>docs/teleport-events.md\<close> documents for it: the state is the log, \<open>meta\<close> gives the metadata
  by position, and deletions fail while nothing has been created.
\<close>

definition logs :: "(nat \<Rightarrow> event_metadata) \<Rightarrow> (event_metadata \<Rightarrow> audit_event) \<Rightarrow> 'a
    \<Rightarrow> (audit_event list, 'a) io" where
  "logs meta e x = (\<lambda>log. (Inr x, log @ [e (meta (length log))]))"

definition logs_delete :: "(nat \<Rightarrow> event_metadata) \<Rightarrow> (event_metadata \<Rightarrow> audit_event)
    \<Rightarrow> (audit_event list, unit) io" where
  "logs_delete meta e = (\<lambda>log. if log = [] then (Inl (Errorf ''not found''), log)
     else (Inr (), log @ [e (meta (length log))]))"

definition user_lock :: "string \<Rightarrow> lock_target" where
  "user_lock u = \<lparr>lt_User = u, lt_Role = [], lt_Login = [], lt_ServerID = []\<rparr>"

definition logging_admin :: "(nat \<Rightarrow> event_metadata) \<Rightarrow> audit_event list admin_api" where
  "logging_admin meta =
     \<lparr>adm_Client = offline_api\<lparr>
        api_CreateUser := (\<lambda>u. logs meta (\<lambda>m. UserCreate m (md_Name (usr_Metadata u)) (usr_Roles u)) u),
        api_GetUser := (\<lambda>n b. io_return (sample_user n [])),
        api_UpdateUser := (\<lambda>u. logs meta (\<lambda>m. UserUpdate m (md_Name (usr_Metadata u)) (usr_Roles u)) u),
        api_DeleteUser := (\<lambda>n. logs_delete meta (\<lambda>m. UserDelete m n))\<rparr>,
      adm_ListAccessRequests = io_return [],
      adm_DeleteAccessRequest = (\<lambda>n. io_return ()),
      adm_CreateRole = (\<lambda>r. logs meta (\<lambda>m. RoleCreate m (md_Name (rol_Metadata r))) r),
      adm_GetRole = (\<lambda>n. io_return \<lparr>rol_Metadata = sample_metadata n, r6_AllowLogins = [], r6_RequestRoles = []\<rparr>),
      adm_UpsertRole = (\<lambda>r. logs meta (\<lambda>m. RoleUpdate m (md_Name (rol_Metadata r))) r),
      adm_DeleteRole = (\<lambda>n. logs_delete meta (\<lambda>m. RoleDelete m n)),
      adm_UpsertLock = (\<lambda>l. logs meta (\<lambda>m. LockCreate m (lck_Target l)) ()),
      adm_DeleteLock = (\<lambda>n. logs_delete meta (\<lambda>m. LockDelete m (user_lock testUserName))),
      adm_CreateAccessRequestV2 = (\<lambda>q. logs meta
        (\<lambda>m. AccessRequestCreate m (arq_User q) (arq_Roles q) (arq_Name q) ''PENDING'') q),
      adm_SetAccessRequestState = (\<lambda>u. logs meta
        (\<lambda>m. AccessRequestCreate m [] [] (rup_RequestID u) (rup_State u)) ())\<rparr>"

definition populated_log :: "(nat \<Rightarrow> event_metadata) \<Rightarrow> string \<Rightarrow> audit_event list" where
  "populated_log meta uuid =
     [RoleCreate (meta 0) testRoleName,
      UserCreate (meta 1) testUserName [''access'', testRoleName],
      RoleUpdate (meta 2) testRoleName,
      UserUpdate (meta 3) testUserName [''access'', testRoleName, ''editor''],
      LockCreate (meta 4) (user_lock testUserName),
      AccessRequestCreate (meta 5) testUserName [''editor''] uuid ''PENDING'',
      AccessRequestCreate (meta 6) [] [] uuid ''APPROVED'',
      LockDelete (meta 7) (user_lock testUserName),
      UserDelete (meta 8) testUserName,
      RoleDelete (meta 9) testRoleName]"

lemmas console_simps = io_try_def on_world_def emit_def prints_def println_def pause_def ok_expect_def
  or_fatal_def io_lift_def io_return_def io_bind_def

text \<open>The steps, one by one, on what the world and the output are before them.\<close>

lemma console_prints [simp]:
  "io_bind (prints t) f (s, out) = f () (s, out @ [Stdout t])"
  "io_bind (println t) f (s, out) = f () (s, out @ [Stdout (t @ nl)])"
  "io_bind (pause b c) f (s, out) =
     f () (s, out @ [Stdout (''  (waiting 3s: '' @ b @ arrow @ c @ '')'' @ nl)])"
  by (simp_all add: prints_def println_def pause_def emit_def io_bind_def)

lemma println_seq: "io_seq (map println xs) (s, out) = (Inr (), (s, out @ map (\<lambda>t. Stdout (t @ nl)) xs))"
  by (induction xs arbitrary: out) (simp_all add: io_return_def)

lemma io_seq_append: "io_seq (xs @ ys) = io_bind (io_seq xs) (\<lambda>_. io_seq ys)"
  by (induction xs) (simp_all add: io_bind_assoc)

text \<open>A step succeeds in a state when it returns there, whatever it writes.\<close>

definition step_to :: "('s console, unit) io \<Rightarrow> 's \<Rightarrow> 's \<Rightarrow> bool" where
  "step_to m s s' \<longleftrightarrow> (\<forall>out. \<exists>out'. m (s, out) = (Inr (), (s', out')))"

lemma step_bind:
  assumes "step_to m s s1" "step_to n s1 s2"
  shows "step_to (io_bind m (\<lambda>_. n)) s s2"
  unfolding step_to_def
proof
  fix out
  obtain out1 where m: "m (s, out) = (Inr (), (s1, out1))"
    using assms(1) unfolding step_to_def by blast
  obtain out2 where "n (s1, out1) = (Inr (), (s2, out2))"
    using assms(2) unfolding step_to_def by blast
  then show "\<exists>out'. io_bind m (\<lambda>_. n) (s, out) = (Inr (), (s2, out'))"
    using m by (simp add: io_bind_def)
qed

lemma step_seq: "step_to m s s1 \<Longrightarrow> step_to (io_seq ms) s1 s2 \<Longrightarrow> step_to (io_seq (m # ms)) s s2"
  unfolding io_seq.simps by (rule step_bind)

lemma step_nil: "step_to (io_seq []) s s"
  by (simp add: step_to_def io_return_def)

lemma step_append: "step_to (io_seq ms) s s1 \<Longrightarrow> step_to (io_seq ns) s1 s2 \<Longrightarrow> step_to (io_seq (ms @ ns)) s s2"
  unfolding io_seq_append by (rule step_bind)

lemma step_prints:
  "step_to (println t) s s" "step_to (prints t) s s" "step_to (pause b c) s s" "step_to (ok_expect t) s s"
  by (simp_all add: step_to_def prints_def println_def pause_def ok_expect_def emit_def)

lemma step_printlns: "step_to (io_seq (map println xs)) s s"
  by (simp add: step_to_def println_seq)

lemma step_delete:
  "m s = (r, s') \<Longrightarrow> r \<in> {Inl (Errorf e), Inr ()} \<Longrightarrow> step_to (try_delete m t) s s'"
  "m s = (r, s') \<Longrightarrow> r \<in> {Inl (Errorf e), Inr ()} \<Longrightarrow> step_to (delete_step t m u) s s'"
  by (auto simp: step_to_def try_delete_def delete_step_def console_simps)

section \<open>The script on the logging cluster\<close>

lemmas step_defs = step_to_def logging_admin_def logs_def logs_delete_def populated_log_def console_simps

lemma cleanup_step: "step_to (cleanupAll (logging_admin meta)) [] []"
proof -
  have d: "adm_DeleteLock (logging_admin meta) n [] = (Inl (Errorf ''not found''), [])"
    "api_DeleteUser (adm_Client (logging_admin meta)) n [] = (Inl (Errorf ''not found''), [])"
    "adm_DeleteRole (logging_admin meta) n [] = (Inl (Errorf ''not found''), [])" for n
    by (simp_all add: logging_admin_def logs_delete_def)
  have "step_to (io_seq [try_delete (adm_DeleteLock (logging_admin meta) testLockName) t,
      try_delete (api_DeleteUser (adm_Client (logging_admin meta)) testUserName) u,
      try_delete (adm_DeleteRole (logging_admin meta) testRoleName) v]) [] []" for t u v
    by (rule step_seq step_nil step_delete(1) d insertI1)+
  moreover have "io_bind (io_try (on_world (adm_ListAccessRequests (logging_admin meta)))) f ([], out) =
      f (Inr []) ([], out)" for f :: "_ \<Rightarrow> (audit_event list console, unit) io" and out
    by (simp add: logging_admin_def console_simps)
  ultimately show ?thesis
    unfolding step_to_def cleanupAll_def by simp
qed

lemma role_steps:
  "step_to (create_role (logging_admin meta)) [] (take 1 (populated_log meta uuid))"
  "step_to (update_role (logging_admin meta)) (take 2 (populated_log meta uuid)) (take 3 (populated_log meta uuid))"
  by (simp_all add: create_role_def update_role_def step_defs NewRoleV6_def NewRole_def
      testRoleName_def Wildcard_def sample_metadata_def eval_nat_numeral)

lemma user_steps:
  "step_to (create_user (logging_admin meta)) (take 1 (populated_log meta uuid)) (take 2 (populated_log meta uuid))"
  "step_to (update_user (logging_admin meta)) (take 3 (populated_log meta uuid)) (take 4 (populated_log meta uuid))"
  by (simp_all add: create_user_def update_user_def step_defs NewUser_def testUserName_def
      testRoleName_def SetRoles_def Deduplicate_distinct sample_user_def sample_metadata_def
      eval_nat_numeral)

lemma lock_step:
  "step_to (create_lock (logging_admin meta)) (take 4 (populated_log meta uuid)) (take 5 (populated_log meta uuid))"
  by (simp add: create_lock_def step_defs NewLock_def testLockName_def testUserName_def user_lock_def
      eval_nat_numeral)

lemma request_step:
  "uuid \<noteq> [] \<Longrightarrow>
   step_to (access_request (logging_admin meta) uuid) (take 5 (populated_log meta uuid)) (take 7 (populated_log meta uuid))"
  by (simp add: access_request_def approve_request_def step_defs NewAccessRequest_def testUserName_def Let_def
      eval_nat_numeral)

lemma delete_steps:
  "step_to (delete_step t (adm_DeleteLock (logging_admin meta) testLockName) u)
     (take 7 (populated_log meta uuid)) (take 8 (populated_log meta uuid))"
  "step_to (delete_step t (api_DeleteUser (adm_Client (logging_admin meta)) testUserName) u)
     (take 8 (populated_log meta uuid)) (take 9 (populated_log meta uuid))"
  "step_to (delete_step t (adm_DeleteRole (logging_admin meta) testRoleName) u)
     (take 9 (populated_log meta uuid)) (populated_log meta uuid)"
  by (simp_all add: delete_step_def step_defs eval_nat_numeral)

lemma populate_step:
  "uuid \<noteq> [] \<Longrightarrow> step_to (populate (logging_admin meta) uuid) [] (populated_log meta uuid)"
  unfolding populate_def
  by (rule step_append step_printlns step_nil cleanup_step role_steps user_steps lock_step
      request_step delete_steps step_prints step_seq | assumption)+

section \<open>Properties\<close>

lemma audit_loop_spec:
  assumes "c = Some tc" "tc_Client tc = Some api" "lookups api look"
  shows "audit_loop c aes (res, cur) s = (Inr (res @ concat (map (audit_spec look) aes),
    fold updateLatestEvent (map audit_event_time aes) cur), s)"
  by (simp add: audit_loop_page audit_page_spec [OF assms] io_bind_def io_return_def)

lemma roles_spec_events:
  "map ev_Event (roles_spec p m u rs) = (if u = [] then [] else
     map (\<lambda>r. p (membership_entitlement r) (user_principal u)) (filter (\<lambda>r. r \<noteq> []) rs))"
  by (simp add: roles_spec_def comp_def)

lemma change_spec_events:
  "map ev_Event (change_spec m rt n) = (if n = [] then [] else
     [ResourceChangeEvent \<lparr>rid_ResourceType = rt, rid_Resource = n\<rparr>])"
  by (simp add: change_spec_def)

text \<open>
  C37: The script exercises what the audit feed handles. On a fresh cluster that logs each
  change it runs to the end and leaves ten events; from these the feed's loop derives, in
  order: a change of the role, a change of the user with its two grants, a change of the role,
  a change of the user with its three grants, a change of the user for the lock, the grant of the
  approved request, and a change of the user for the unlocking. The submission of the request and
  the deletions of the user and the role yield nothing, as the script announces.
\<close>

theorem populate_exercises_feed:
  assumes "uuid \<noteq> []" "c = Some tc" "tc_Client tc = Some api" "lookups api look"
    and "look uuid = [\<lparr>ar_User = testUserName, ar_Roles = [''editor'']\<rparr>]"
  shows "\<exists>out evs cur'. populate (logging_admin meta) uuid ([], []) =
      (Inr (), (populated_log meta uuid, out)) \<and>
    audit_loop c (populated_log meta uuid) ([], cur) s = (Inr (evs, cur'), s) \<and>
    map ev_Event evs =
      (let role = ResourceChangeEvent \<lparr>rid_ResourceType = ''role'', rid_Resource = testRoleName\<rparr>;
           user = ResourceChangeEvent \<lparr>rid_ResourceType = ''user'', rid_Resource = testUserName\<rparr>;
           grant = (\<lambda>r. CreateGrantEvent (membership_entitlement r) (user_principal testUserName))
       in [role, user, grant ''access'', grant testRoleName,
           role, user, grant ''access'', grant testRoleName, grant ''editor'',
           user, grant ''editor'', user])"
proof -
  obtain out where "populate (logging_admin meta) uuid ([], []) = (Inr (), (populated_log meta uuid, out))"
    using populate_step [OF assms(1), of meta] by (auto simp: step_to_def)
  moreover have "testUserName \<noteq> []" "testRoleName \<noteq> []"
    by (simp_all add: testUserName_def testRoleName_def)
  then have "map ev_Event (concat (map (audit_spec look) (populated_log meta uuid))) =
      (let role = ResourceChangeEvent \<lparr>rid_ResourceType = ''role'', rid_Resource = testRoleName\<rparr>;
           user = ResourceChangeEvent \<lparr>rid_ResourceType = ''user'', rid_Resource = testUserName\<rparr>;
           grant = (\<lambda>r. CreateGrantEvent (membership_entitlement r) (user_principal testUserName))
       in [role, user, grant ''access'', grant testRoleName,
           role, user, grant ''access'', grant testRoleName, grant ''editor'',
           user, grant ''editor'', user])"
    using assms(1,5)
    by (simp add: populated_log_def roles_spec_events change_spec_events user_lock_def Let_def)
  ultimately show ?thesis
    using audit_loop_spec [OF assms(2-4), of "populated_log meta uuid" "[]" cur s] by auto
qed

theorem populate_exercises_feed_witness:
  "\<exists>out. populate (logging_admin (\<lambda>n. at_time [] (int n))) ''q'' ([], []) =
     (Inr (), (populated_log (\<lambda>n. at_time [] (int n)) ''q'', out))"
proof -
  let ?api = "offline_api\<lparr>api_GetAccessRequests :=
      (\<lambda>rid. io_return [\<lparr>ar_User = testUserName, ar_Roles = [''editor'']\<rparr>])\<rparr> :: nat teleport_api"
  let ?look = "\<lambda>_ :: string. [\<lparr>ar_User = testUserName, ar_Roles = [''editor'']\<rparr>]"
  have "lookups ?api ?look" by (simp add: lookups_def io_return_def)
  from populate_exercises_feed [OF _ client_of_def tc_client_eq this refl, of "''q''"] show ?thesis
    by blast
qed

end
