(* ===== verification/Populate_Safety.thy ===== *)
theory Populate_Safety
  imports Populate_Events
begin

text \<open>
  What \<open>cmd/populate-test-events/main.go\<close> may do to a cluster. The script runs with
  administrative rights on a live instance and any of its calls can fail, so the statement is
  about every service: whatever fails and however the run ends, the roles, users and locks
  under other names and the access requests of other users are as they were.
\<close>

section \<open>The cluster behind a service\<close>

record cluster =
  cl_Roles :: "string \<Rightarrow> role_v6 option"
  cl_Users :: "string \<Rightarrow> user_v2 option"
  cl_Locks :: "string \<Rightarrow> lock option"
  cl_Requests :: "string \<Rightarrow> access_request_v3 option"

text \<open>
  \<open>cl\<close> reads the cluster off the state. A call fails or works, and in either case leaves
  the cluster alone or makes the one change it is for.
\<close>

definition may :: "('s \<Rightarrow> cluster) \<Rightarrow> ('s, 'a) io \<Rightarrow> (cluster \<Rightarrow> cluster set) \<Rightarrow> bool" where
  "may cl m f \<longleftrightarrow> (\<forall>s. cl (snd (m s)) \<in> insert (cl s) (f (cl s)))"

text \<open>What is returned is what was asked for, and a listed request is there under its name.\<close>

definition answers_truly :: "('s \<Rightarrow> cluster) \<Rightarrow> 's admin_api \<Rightarrow> bool" where
  "answers_truly cl a \<longleftrightarrow>
     (\<forall>s qs s' q. adm_ListAccessRequests a s = (Inr qs, s') \<longrightarrow> q \<in> set qs \<longrightarrow>
        cl_Requests (cl s) (arq_Name q) = Some q) \<and>
     (\<forall>n s r s'. adm_GetRole a n s = (Inr r, s') \<longrightarrow> md_Name (rol_Metadata r) = n) \<and>
     (\<forall>n b s u s'. api_GetUser (adm_Client a) n b s = (Inr u, s') \<longrightarrow> md_Name (usr_Metadata u) = n)"

definition cluster_service :: "('s \<Rightarrow> cluster) \<Rightarrow> 's admin_api \<Rightarrow> bool" where
  "cluster_service cl a \<longleftrightarrow> answers_truly cl a \<and>
     may cl (adm_ListAccessRequests a) (\<lambda>k. {}) \<and>
     (\<forall>n. may cl (adm_DeleteAccessRequest a n) (\<lambda>k. {k\<lparr>cl_Requests := (cl_Requests k)(n := None)\<rparr>})) \<and>
     (\<forall>r. may cl (adm_CreateRole a r) (\<lambda>k. {k\<lparr>cl_Roles := (cl_Roles k)(md_Name (rol_Metadata r) \<mapsto> r)\<rparr>})) \<and>
     (\<forall>n. may cl (adm_GetRole a n) (\<lambda>k. {})) \<and>
     (\<forall>r. may cl (adm_UpsertRole a r) (\<lambda>k. {k\<lparr>cl_Roles := (cl_Roles k)(md_Name (rol_Metadata r) \<mapsto> r)\<rparr>})) \<and>
     (\<forall>n. may cl (adm_DeleteRole a n) (\<lambda>k. {k\<lparr>cl_Roles := (cl_Roles k)(n := None)\<rparr>})) \<and>
     (\<forall>l. may cl (adm_UpsertLock a l) (\<lambda>k. {k\<lparr>cl_Locks := (cl_Locks k)(lck_Name l \<mapsto> l)\<rparr>})) \<and>
     (\<forall>n. may cl (adm_DeleteLock a n) (\<lambda>k. {k\<lparr>cl_Locks := (cl_Locks k)(n := None)\<rparr>})) \<and>
     (\<forall>q. may cl (adm_CreateAccessRequestV2 a q) (\<lambda>k. {k\<lparr>cl_Requests := (cl_Requests k)(arq_Name q \<mapsto> q)\<rparr>})) \<and>
     (\<forall>u. may cl (adm_SetAccessRequestState a u)
        (\<lambda>k. range (\<lambda>x. k\<lparr>cl_Requests := (cl_Requests k)(rup_RequestID u := x)\<rparr>))) \<and>
     (\<forall>u. may cl (api_CreateUser (adm_Client a) u)
        (\<lambda>k. {k\<lparr>cl_Users := (cl_Users k)(md_Name (usr_Metadata u) \<mapsto> u)\<rparr>})) \<and>
     (\<forall>n b. may cl (api_GetUser (adm_Client a) n b) (\<lambda>k. {})) \<and>
     (\<forall>u. may cl (api_UpdateUser (adm_Client a) u)
        (\<lambda>k. {k\<lparr>cl_Users := (cl_Users k)(md_Name (usr_Metadata u) \<mapsto> u)\<rparr>})) \<and>
     (\<forall>n. may cl (api_DeleteUser (adm_Client a) n) (\<lambda>k. {k\<lparr>cl_Users := (cl_Users k)(n := None)\<rparr>})) \<and>
     may cl (api_Close (adm_Client a)) (\<lambda>k. {})"

lemma service_reads:
  assumes "cluster_service cl a"
  shows "may cl (adm_GetRole a n) (\<lambda>k. {})" "may cl (api_GetUser (adm_Client a) n b) (\<lambda>k. {})"
    "may cl (api_Close (adm_Client a)) (\<lambda>k. {})" "may cl (adm_ListAccessRequests a) (\<lambda>k. {})"
  using assms unfolding cluster_service_def by simp_all

lemma service_writes:
  assumes "cluster_service cl a"
  shows "may cl (adm_DeleteAccessRequest a n) (\<lambda>k. {k\<lparr>cl_Requests := (cl_Requests k)(n := None)\<rparr>})"
    "may cl (adm_CreateRole a r) (\<lambda>k. {k\<lparr>cl_Roles := (cl_Roles k)(md_Name (rol_Metadata r) \<mapsto> r)\<rparr>})"
    "may cl (adm_UpsertRole a r) (\<lambda>k. {k\<lparr>cl_Roles := (cl_Roles k)(md_Name (rol_Metadata r) \<mapsto> r)\<rparr>})"
    "may cl (adm_DeleteRole a n) (\<lambda>k. {k\<lparr>cl_Roles := (cl_Roles k)(n := None)\<rparr>})"
    "may cl (adm_UpsertLock a l) (\<lambda>k. {k\<lparr>cl_Locks := (cl_Locks k)(lck_Name l \<mapsto> l)\<rparr>})"
    "may cl (adm_DeleteLock a n) (\<lambda>k. {k\<lparr>cl_Locks := (cl_Locks k)(n := None)\<rparr>})"
    "may cl (adm_CreateAccessRequestV2 a q) (\<lambda>k. {k\<lparr>cl_Requests := (cl_Requests k)(arq_Name q \<mapsto> q)\<rparr>})"
    "may cl (adm_SetAccessRequestState a v)
       (\<lambda>k. range (\<lambda>x. k\<lparr>cl_Requests := (cl_Requests k)(rup_RequestID v := x)\<rparr>))"
    "may cl (api_CreateUser (adm_Client a) u)
       (\<lambda>k. {k\<lparr>cl_Users := (cl_Users k)(md_Name (usr_Metadata u) \<mapsto> u)\<rparr>})"
    "may cl (api_UpdateUser (adm_Client a) u)
       (\<lambda>k. {k\<lparr>cl_Users := (cl_Users k)(md_Name (usr_Metadata u) \<mapsto> u)\<rparr>})"
    "may cl (api_DeleteUser (adm_Client a) n) (\<lambda>k. {k\<lparr>cl_Users := (cl_Users k)(n := None)\<rparr>})"
  using assms unfolding cluster_service_def by simp_all

lemma service_names:
  assumes "cluster_service cl a"
  shows "adm_GetRole a n s = (Inr r, s') \<Longrightarrow> md_Name (rol_Metadata r) = n"
    "api_GetUser (adm_Client a) n b s = (Inr u, s') \<Longrightarrow> md_Name (usr_Metadata u) = n"
    "adm_ListAccessRequests a s = (Inr qs, s') \<Longrightarrow> q \<in> set qs \<Longrightarrow>
       cl_Requests (cl s) (arq_Name q) = Some q"
proof -
  have "answers_truly cl a" using assms by (simp only: cluster_service_def)
  then show "adm_GetRole a n s = (Inr r, s') \<Longrightarrow> md_Name (rol_Metadata r) = n"
    "api_GetUser (adm_Client a) n b s = (Inr u, s') \<Longrightarrow> md_Name (usr_Metadata u) = n"
    "adm_ListAccessRequests a s = (Inr qs, s') \<Longrightarrow> q \<in> set qs \<Longrightarrow>
       cl_Requests (cl s) (arq_Name q) = Some q"
    unfolding answers_truly_def by blast+
qed

text \<open>What belongs to others: everything but the script's names and the test user's requests.\<close>

definition spares :: "cluster \<Rightarrow> cluster \<Rightarrow> bool" where
  "spares k k' \<longleftrightarrow>
     (\<forall>n. n \<noteq> testRoleName \<longrightarrow> cl_Roles k' n = cl_Roles k n) \<and>
     (\<forall>n. n \<noteq> testUserName \<longrightarrow> cl_Users k' n = cl_Users k n) \<and>
     (\<forall>n. n \<noteq> testLockName \<longrightarrow> cl_Locks k' n = cl_Locks k n) \<and>
     (\<forall>n q. cl_Requests k n = Some q \<longrightarrow> arq_User q \<noteq> testUserName \<longrightarrow> cl_Requests k' n = Some q)"

lemma spares_refl: "spares k k"
  by (simp add: spares_def)

text \<open>A request name that is free for the script: no other user's request has it.\<close>

definition ours :: "cluster \<Rightarrow> string \<Rightarrow> bool" where
  "ours k n \<longleftrightarrow> (\<forall>q. cl_Requests k n = Some q \<longrightarrow> arq_User q = testUserName)"

lemma spares_changes:
  assumes "spares k k'"
  shows "spares k (k'\<lparr>cl_Roles := (cl_Roles k')(testRoleName := x)\<rparr>)"
    and "spares k (k'\<lparr>cl_Users := (cl_Users k')(testUserName := y)\<rparr>)"
    and "spares k (k'\<lparr>cl_Locks := (cl_Locks k')(testLockName := z)\<rparr>)"
    and "ours k n \<Longrightarrow> spares k (k'\<lparr>cl_Requests := (cl_Requests k')(n := w)\<rparr>)"
  using assms by (auto simp: spares_def ours_def)

section \<open>Triples\<close>

text \<open>A computation keeps \<open>J\<close> of the world and returns only values with \<open>P\<close>.\<close>

definition keeps :: "('s \<Rightarrow> bool) \<Rightarrow> ('s console, 'a) io \<Rightarrow> ('a \<Rightarrow> bool) \<Rightarrow> bool" where
  "keeps J m P \<longleftrightarrow> (\<forall>s out r s' out'. J s \<longrightarrow> m (s, out) = (r, (s', out')) \<longrightarrow>
     J s' \<and> (\<forall>a. r = Inr a \<longrightarrow> P a))"

lemma keepsI:
  "(\<And>s out r s' out'. J s \<Longrightarrow> m (s, out) = (r, (s', out')) \<Longrightarrow> J s' \<and> (\<forall>a. r = Inr a \<longrightarrow> P a)) \<Longrightarrow> keeps J m P"
  by (auto simp: keeps_def)

lemma keepsD:
  "keeps J m P \<Longrightarrow> J s \<Longrightarrow> m (s, out) = (r, (s', out')) \<Longrightarrow> J s' \<and> (\<forall>a. r = Inr a \<longrightarrow> P a)"
  unfolding keeps_def by blast

lemma keeps_bind:
  assumes "keeps J m Q" "\<And>a. Q a \<Longrightarrow> keeps J (f a) P"
  shows "keeps J (io_bind m f) P"
proof (rule keepsI)
  fix s out r s' out'
  assume J: "J s" and run: "io_bind m f (s, out) = (r, (s', out'))"
  obtain r1 s1 out1 where m: "m (s, out) = (r1, (s1, out1))" by (metis prod.exhaust)
  note one = keepsD [OF assms(1) J m]
  show "J s' \<and> (\<forall>a. r = Inr a \<longrightarrow> P a)"
  proof (cases r1)
    case (Inl e)
    then show ?thesis using one run m by (auto simp: io_bind_def)
  next
    case (Inr a)
    then have "f a (s1, out1) = (r, (s', out'))" using run m by (simp add: io_bind_def)
    with one Inr assms(2) [of a] show ?thesis by (blast dest: keepsD)
  qed
qed

lemma keeps_return: "P a \<Longrightarrow> keeps J (io_return a) P"
  by (simp add: keeps_def io_return_def)

lemma keeps_fail: "keeps J (io_fail e) P"
  by (simp add: keeps_def io_fail_def)

lemma keeps_lift: "(\<And>a. r = Inr a \<Longrightarrow> P a) \<Longrightarrow> keeps J (io_lift r) P"
  by (simp add: keeps_def io_lift_def)

lemma keeps_emit: "P () \<Longrightarrow> keeps J (emit x) P"
  by (simp add: keeps_def emit_def)

lemma keeps_prints [intro, simp]:
  "P () \<Longrightarrow> keeps J (prints t) P" "P () \<Longrightarrow> keeps J (println t) P" "P () \<Longrightarrow> keeps J (pause b c) P"
  "P () \<Longrightarrow> keeps J (ok_expect t) P"
  by (simp_all add: prints_def println_def pause_def ok_expect_def keeps_emit)

lemma keeps_world:
  assumes "\<And>s. J s \<Longrightarrow> J (snd (m s))" "\<And>s a s'. J s \<Longrightarrow> m s = (Inr a, s') \<Longrightarrow> P a"
  shows "keeps J (on_world m) P"
proof (rule keepsI)
  fix s out r s' out'
  assume J: "J s" and run: "on_world m (s, out) = (r, (s', out'))"
  then have "m s = (r, s')" by (auto simp: on_world_def Let_def split: prod.splits)
  with assms(1) [OF J] assms(2) [OF J] show "J s' \<and> (\<forall>a. r = Inr a \<longrightarrow> P a)" by auto
qed

lemma keeps_try: "keeps J m P \<Longrightarrow> keeps J (io_try m) (\<lambda>r. \<forall>a. r = Inr a \<longrightarrow> P a)"
  by (rule keepsI) (auto simp: io_try_def split: prod.splits sum.splits error.splits dest: keepsD)

lemma keeps_fatal: "keeps J (fatalf t) P"
  unfolding fatalf_def by (rule keeps_bind [OF keeps_emit [of "\<lambda>_. True"]]) (simp_all add: keeps_fail)

lemma keeps_or_fatal: "keeps J m P \<Longrightarrow> keeps J (or_fatal t m) P"
  unfolding or_fatal_def
  by (rule keeps_bind [OF keeps_try]) (auto intro: keeps_fatal keeps_return split: sum.split)

lemma keeps_seq: "\<forall>m \<in> set ms. keeps J m (\<lambda>_. True) \<Longrightarrow> keeps J (io_seq ms) (\<lambda>_. True)"
  by (induction ms) (auto intro: keeps_return keeps_bind)

lemma keeps_defer:
  assumes "keeps J fin (\<lambda>_. True)" "keeps J m (\<lambda>_. True)"
  shows "keeps J (defer_unless_exit fin m) (\<lambda>_. True)"
proof (rule keepsI)
  fix s out r s' out'
  assume J: "J s" and run: "defer_unless_exit fin m (s, out) = (r, (s', out'))"
  obtain r1 s1 o1 where m: "m (s, out) = (r1, (s1, o1))" by (metis prod.exhaust)
  obtain r2 s2 o2 where fin: "fin (s1, o1) = (r2, (s2, o2))" by (metis prod.exhaust)
  have "J s1" "J s2" using keepsD [OF assms(2) J m] keepsD [OF assms(1) _ fin] by auto
  moreover have "s' = s1 \<or> s' = s2"
    using run m fin by (auto simp: defer_unless_exit_def io_defer_def io_return_def
        split: sum.splits error.splits if_splits)
  ultimately show "J s' \<and> (\<forall>a. r = Inr a \<longrightarrow> True)" by auto
qed

section \<open>The steps of the script\<close>

text \<open>A call that can only touch what is the script's keeps the others' part.\<close>

lemma may_keeps:
  assumes "may cl m f" "\<And>k' k''. spares k k' \<Longrightarrow> k'' \<in> f k' \<Longrightarrow> spares k k''"
    and "\<And>s a s'. m s = (Inr a, s') \<Longrightarrow> P a"
  shows "keeps (\<lambda>s. spares k (cl s)) (on_world m) P"
proof (rule keeps_world)
  fix s assume J: "spares k (cl s)"
  from assms(1) have "cl (snd (m s)) = cl s \<or> cl (snd (m s)) \<in> f (cl s)" by (auto simp: may_def)
  then show "spares k (cl (snd (m s)))" using J assms(2) by auto
qed (rule assms(3))

text \<open>The calls of a cluster service with the arguments the script has.\<close>

lemma script_calls:
  assumes "cluster_service cl a"
  shows "md_Name (rol_Metadata r) = testRoleName \<Longrightarrow>
      keeps (\<lambda>s. spares k (cl s)) (on_world (adm_CreateRole a r)) (\<lambda>_. True)"
    and "md_Name (rol_Metadata r) = testRoleName \<Longrightarrow>
      keeps (\<lambda>s. spares k (cl s)) (on_world (adm_UpsertRole a r)) (\<lambda>_. True)"
    and "keeps (\<lambda>s. spares k (cl s)) (on_world (adm_GetRole a testRoleName))
      (\<lambda>r. md_Name (rol_Metadata r) = testRoleName)"
    and "keeps (\<lambda>s. spares k (cl s)) (on_world (adm_DeleteRole a testRoleName)) (\<lambda>_. True)"
    and "md_Name (usr_Metadata u) = testUserName \<Longrightarrow>
      keeps (\<lambda>s. spares k (cl s)) (on_world (api_CreateUser (adm_Client a) u)) (\<lambda>_. True)"
    and "md_Name (usr_Metadata u) = testUserName \<Longrightarrow>
      keeps (\<lambda>s. spares k (cl s)) (on_world (api_UpdateUser (adm_Client a) u)) (\<lambda>_. True)"
    and "keeps (\<lambda>s. spares k (cl s)) (on_world (api_GetUser (adm_Client a) testUserName b))
      (\<lambda>u. md_Name (usr_Metadata u) = testUserName)"
    and "keeps (\<lambda>s. spares k (cl s)) (on_world (api_DeleteUser (adm_Client a) testUserName)) (\<lambda>_. True)"
    and "lck_Name l = testLockName \<Longrightarrow>
      keeps (\<lambda>s. spares k (cl s)) (on_world (adm_UpsertLock a l)) (\<lambda>_. True)"
    and "keeps (\<lambda>s. spares k (cl s)) (on_world (adm_DeleteLock a testLockName)) (\<lambda>_. True)"
    and "ours k (arq_Name q) \<Longrightarrow>
      keeps (\<lambda>s. spares k (cl s)) (on_world (adm_CreateAccessRequestV2 a q)) (\<lambda>_. True)"
    and "ours k (rup_RequestID v) \<Longrightarrow>
      keeps (\<lambda>s. spares k (cl s)) (on_world (adm_SetAccessRequestState a v)) (\<lambda>_. True)"
    and "ours k n \<Longrightarrow>
      keeps (\<lambda>s. spares k (cl s)) (on_world (adm_DeleteAccessRequest a n)) (\<lambda>_. True)"
    and "keeps (\<lambda>s. spares k (cl s)) (on_world (api_Close (adm_Client a))) (\<lambda>_. True)"
  by (rule may_keeps [OF service_reads(1) [OF assms]] may_keeps [OF service_reads(2) [OF assms]]
      may_keeps [OF service_reads(3) [OF assms]] may_keeps [OF service_writes(1) [OF assms]]
      may_keeps [OF service_writes(2) [OF assms]] may_keeps [OF service_writes(3) [OF assms]]
      may_keeps [OF service_writes(4) [OF assms]] may_keeps [OF service_writes(5) [OF assms]]
      may_keeps [OF service_writes(6) [OF assms]] may_keeps [OF service_writes(7) [OF assms]]
      may_keeps [OF service_writes(8) [OF assms]] may_keeps [OF service_writes(9) [OF assms]]
      may_keeps [OF service_writes(10) [OF assms]] may_keeps [OF service_writes(11) [OF assms]];
      auto intro: spares_changes dest: service_names [OF assms])+

lemma keeps_try_delete:
  "keeps J (on_world m) (\<lambda>_. True) \<Longrightarrow> keeps J (try_delete m t) (\<lambda>_. True)"
  unfolding try_delete_def
  by (rule keeps_bind [OF keeps_try]) (auto intro: keeps_return split: sum.split)

lemma keeps_delete_step:
  "keeps J (on_world m) (\<lambda>_. True) \<Longrightarrow> keeps J (delete_step t m u) (\<lambda>_. True)"
  unfolding delete_step_def
  by (rule keeps_bind [of _ _ "\<lambda>_. True"] keeps_bind [OF keeps_try] | simp split: sum.split)+

text \<open>The requests that the cleanup deletes are the test user's.\<close>

lemma listed_ours:
  assumes "cluster_service cl a"
  shows "keeps (\<lambda>s. spares k (cl s)) (on_world (adm_ListAccessRequests a))
    (\<lambda>qs. \<forall>q \<in> set qs. arq_User q = testUserName \<longrightarrow> ours k (arq_Name q))"
proof (rule keeps_world)
  fix s assume J: "spares k (cl s)"
  have "cl (snd (adm_ListAccessRequests a s)) = cl s"
    using service_reads(4) [OF assms] by (simp add: may_def)
  then show "spares k (cl (snd (adm_ListAccessRequests a s)))" using J by simp
  fix qs s' assume run: "adm_ListAccessRequests a s = (Inr qs, s')"
  show "\<forall>q \<in> set qs. arq_User q = testUserName \<longrightarrow> ours k (arq_Name q)"
    unfolding ours_def
  proof (intro ballI impI allI)
    fix q q' assume q: "q \<in> set qs" "arq_User q = testUserName" "cl_Requests k (arq_Name q) = Some q'"
    have here: "cl_Requests (cl s) (arq_Name q) = Some q"
      by (rule service_names(3) [OF assms run q(1)])
    show "arq_User q' = testUserName"
    proof (rule ccontr)
      assume other: "arq_User q' \<noteq> testUserName"
      have "\<forall>n q. cl_Requests k n = Some q \<longrightarrow> arq_User q \<noteq> testUserName \<longrightarrow> cl_Requests (cl s) n = Some q"
        using J unfolding spares_def by (elim conjE)
      with q(3) other have "cl_Requests (cl s) (arq_Name q) = Some q'" by blast
      with here q(2) other show False by simp
    qed
  qed
qed

lemma keeps_cleanup:
  assumes "cluster_service cl a"
  shows "keeps (\<lambda>s. spares k (cl s)) (cleanupAll a) (\<lambda>_. True)"
  unfolding cleanupAll_def
proof (rule keeps_bind [OF keeps_try [OF listed_ours [OF assms]]], rule keeps_seq)
  let ?J = "\<lambda>s. spares k (cl s)"
  let ?del = "\<lambda>req. if arq_User req = testUserName
      then io_bind (io_try (on_world (adm_DeleteAccessRequest a (arq_Name req)))) (\<lambda>_.
        prints (''  Cleaned up access request: '' @ arq_Name req @ nl))
      else io_return ()"
  fix r :: "access_request_v3 list result"
  assume r: "\<forall>qs. r = Inr qs \<longrightarrow> (\<forall>q \<in> set qs. arq_User q = testUserName \<longrightarrow> ours k (arq_Name q))"
  have one: "keeps ?J (?del q) (\<lambda>_. True)" if "r = Inr qs" "q \<in> set qs" for q qs
    using r that script_calls(13) [OF assms]
    by (auto intro!: keeps_return keeps_bind [OF keeps_try])
  have "\<forall>m \<in> set (case r of Inl e \<Rightarrow> [] | Inr requests \<Rightarrow> map ?del requests). keeps ?J m (\<lambda>_. True)"
  proof (cases r)
    case (Inr qs)
    show ?thesis
      unfolding Inr sum.case set_map ball_simps by (rule ballI) (rule one [OF Inr])
  qed simp
  moreover have "\<forall>m \<in> set [try_delete (adm_DeleteLock a testLockName) (''  Cleaned up lock: '' @ testLockName),
        try_delete (api_DeleteUser (adm_Client a) testUserName) (''  Cleaned up user: '' @ testUserName),
        try_delete (adm_DeleteRole a testRoleName) (''  Cleaned up role: '' @ testRoleName)].
      keeps ?J m (\<lambda>_. True)"
    by (simp add: keeps_try_delete script_calls [OF assms])
  ultimately show "\<forall>m \<in> set ((case r of Inl e \<Rightarrow> [] | Inr requests \<Rightarrow> map ?del requests) @
       [try_delete (adm_DeleteLock a testLockName) (''  Cleaned up lock: '' @ testLockName),
        try_delete (api_DeleteUser (adm_Client a) testUserName) (''  Cleaned up user: '' @ testUserName),
        try_delete (adm_DeleteRole a testRoleName) (''  Cleaned up role: '' @ testRoleName)]).
      keeps ?J m (\<lambda>_. True)"
    unfolding set_append ball_Un by (rule conjI)
qed

lemma keeps_roles:
  assumes "cluster_service cl a"
  shows "keeps (\<lambda>s. spares k (cl s)) (create_role a) (\<lambda>_. True)"
    and "keeps (\<lambda>s. spares k (cl s)) (update_role a) (\<lambda>_. True)"
proof -
  let ?J = "\<lambda>s. spares k (cl s)"
  have named: "NewRoleV6 testRoleName ls rs = Inr r \<Longrightarrow> md_Name (rol_Metadata r) = testRoleName" for ls rs r
    by (auto simp: NewRoleV6_def NewRole_def res_bind_Inr_iff split: if_splits)
  show "keeps ?J (create_role a) (\<lambda>_. True)"
    unfolding create_role_def
    by (rule keeps_bind [of _ _ "\<lambda>_. True"], simp,
        rule keeps_bind [OF keeps_or_fatal [OF keeps_lift [of _ "\<lambda>r. md_Name (rol_Metadata r) = testRoleName"]]],
        rule named, assumption,
        rule keeps_bind [OF keeps_or_fatal [OF script_calls(1) [OF assms]]], simp_all)
  show "keeps ?J (update_role a) (\<lambda>_. True)"
    unfolding update_role_def
    by (rule keeps_bind [of _ _ "\<lambda>_. True"], simp,
        rule keeps_bind [OF keeps_or_fatal [OF script_calls(3) [OF assms]]],
        rule keeps_bind [OF keeps_or_fatal [OF script_calls(2) [OF assms]]], simp_all)
qed

lemma keeps_users:
  assumes "cluster_service cl a"
  shows "keeps (\<lambda>s. spares k (cl s)) (create_user a) (\<lambda>_. True)"
    and "keeps (\<lambda>s. spares k (cl s)) (update_user a) (\<lambda>_. True)"
proof -
  let ?J = "\<lambda>s. spares k (cl s)"
  have named: "NewUser testUserName = Inr u \<Longrightarrow> md_Name (usr_Metadata u) = testUserName" for u
    by (auto simp: NewUser_def split: if_splits)
  show "keeps ?J (create_user a) (\<lambda>_. True)"
    unfolding create_user_def Let_def
    by (rule keeps_bind [of _ _ "\<lambda>_. True"], simp,
        rule keeps_bind [OF keeps_or_fatal [OF keeps_lift [of _ "\<lambda>u. md_Name (usr_Metadata u) = testUserName"]]],
        rule named, assumption,
        rule keeps_bind [OF keeps_or_fatal [OF script_calls(5) [OF assms]]], simp_all add: SetRoles_def)
  show "keeps ?J (update_user a) (\<lambda>_. True)"
    unfolding update_user_def Let_def
    by (rule keeps_bind [of _ _ "\<lambda>_. True"], simp,
        rule keeps_bind [OF keeps_or_fatal [OF script_calls(7) [OF assms]]],
        rule keeps_bind [OF keeps_or_fatal [OF script_calls(6) [OF assms]]], simp_all add: SetRoles_def)
qed

lemma keeps_lock:
  assumes "cluster_service cl a"
  shows "keeps (\<lambda>s. spares k (cl s)) (create_lock a) (\<lambda>_. True)"
proof -
  have named: "NewLock testLockName t m = Inr l \<Longrightarrow> lck_Name l = testLockName" for t m l
    by (auto simp: NewLock_def split: if_splits)
  show ?thesis
    unfolding create_lock_def
    by (rule keeps_bind [of _ _ "\<lambda>_. True"], simp,
        rule keeps_bind [OF keeps_or_fatal [OF keeps_lift [of _ "\<lambda>l. lck_Name l = testLockName"]]],
        rule named, assumption,
        rule keeps_bind [OF keeps_or_fatal [OF script_calls(9) [OF assms]]], simp_all)
qed

lemma keeps_request:
  assumes "cluster_service cl a" "ours k uuid"
  shows "keeps (\<lambda>s. spares k (cl s)) (access_request a uuid) (\<lambda>_. True)"
proof -
  let ?J = "\<lambda>s. spares k (cl s)"
  have approve: "keeps ?J (approve_request a q) (\<lambda>_. True)" if "arq_Name q = uuid" for q
    unfolding approve_request_def
    by (rule keeps_bind [of _ _ "\<lambda>_. True"], simp,
        rule keeps_bind [OF keeps_try [OF script_calls(12) [OF assms(1)]]])
      (simp_all add: that assms(2) split: sum.split)
  show ?thesis
    unfolding access_request_def
  proof (rule keeps_bind [of _ _ "\<lambda>_. True"])
    show "keeps ?J (case NewAccessRequest uuid testUserName ''editor'' of
       Inl e \<Rightarrow> prints (''SKIP (cannot create spec: '' @ error_text e @ '')'' @ nl)
     | Inr accessReq \<Rightarrow>
         let accessReq = accessReq\<lparr>arq_Reason := ''baton event feed test''\<rparr> in
         io_bind (io_try (on_world (adm_CreateAccessRequestV2 a accessReq))) (\<lambda>r.
         case r of
           Inl e \<Rightarrow> io_seq
             [prints (''SKIP (create failed: '' @ error_text e @ '')'' @ nl),
              println ''  (Access requests may require specific role configuration)'']
         | Inr _ \<Rightarrow> io_seq
             [ok_expect ''access_request.create event (PENDING)'',
              pause ''access request create'' ''approve'',
              approve_request a accessReq])) (\<lambda>_. True)"
    proof (cases "NewAccessRequest uuid testUserName ''editor''")
      case (Inr q)
      then have "arq_Name q = uuid" by (auto simp: NewAccessRequest_def split: if_splits)
      then have q: "arq_Name (q\<lparr>arq_Reason := ''baton event feed test''\<rparr>) = uuid" by simp
      have "ours k (arq_Name (q\<lparr>arq_Reason := ''baton event feed test''\<rparr>))" unfolding q by (rule assms(2))
      from keeps_try [OF script_calls(11) [OF assms(1) this]] show ?thesis
        unfolding Inr sum.case Let_def
        by (rule keeps_bind)
          (auto simp del: io_seq.simps intro!: keeps_seq approve [OF q] split: sum.split)
    qed simp
  qed simp
qed

lemma keeps_populate:
  assumes "cluster_service cl a" "ours k uuid"
  shows "keeps (\<lambda>s. spares k (cl s)) (populate a uuid) (\<lambda>_. True)"
  unfolding populate_def
  by (rule keeps_seq, simp only: set_append set_map list.set ball_Un ball_simps,
      intro conjI TrueI ballI keeps_prints keeps_cleanup keeps_roles keeps_users keeps_lock
        keeps_request keeps_delete_step script_calls assms)

section \<open>Properties\<close>

text \<open>
  C12: The test script touches nothing that is not its own. On every service, whatever of its
  calls fail and whether it runs to the end, gives up at a FATAL error or cannot connect: the
  roles, users and locks under other names than the test role, user and lock, and the access
  requests of other users, are afterwards what they were before, provided the fresh id it
  draws is not that of somebody else's request.
\<close>

theorem populate_spares_others:
  assumes "\<And>addrs creds s. cl (snd (dial addrs creds s)) = cl s"
    and "\<And>addrs creds s a s'. dial addrs creds s = (Inr a, s') \<Longrightarrow> cluster_service cl a"
    and "ours (cl s) uuid"
    and "populate_main dial uuid (s, out) = (r, (s', out'))"
  shows "spares (cl s) (cl s')"
proof -
  let ?J = "\<lambda>s'. spares (cl s) (cl s')"
  have dialled: "keeps ?J (on_world (dial addrs creds)) (\<lambda>a. cluster_service cl a)" for addrs creds
    using assms(1,2) by (intro keeps_world) simp_all
  have run: "keeps ?J (defer_unless_exit (on_world (api_Close (adm_Client a))) (populate a uuid)) (\<lambda>_. True)"
    if "cluster_service cl a" for a
    by (rule keeps_defer [OF script_calls(14) [OF that] keeps_populate [OF that assms(3)]])
  have "keeps ?J (populate_main dial uuid) (\<lambda>_. True)"
    unfolding populate_main_def
    by (rule keeps_bind [of _ _ "\<lambda>_. True"], simp, rule keeps_bind [of _ _ "\<lambda>_. True"], simp,
        rule keeps_bind [OF keeps_try [OF dialled]]) (auto intro: keeps_emit run split: sum.split)
  from keepsD [OF this spares_refl assms(4)] show ?thesis by simp
qed

text \<open>A cluster on which every call works.\<close>

definition cluster_admin :: "cluster admin_api" where
  "cluster_admin =
     \<lparr>adm_Client = offline_api\<lparr>
        api_CreateUser := (\<lambda>u k. (Inr u, k\<lparr>cl_Users := (cl_Users k)(md_Name (usr_Metadata u) \<mapsto> u)\<rparr>)),
        api_GetUser := (\<lambda>n b. io_return (sample_user n [])),
        api_UpdateUser := (\<lambda>u k. (Inr u, k\<lparr>cl_Users := (cl_Users k)(md_Name (usr_Metadata u) \<mapsto> u)\<rparr>)),
        api_DeleteUser := (\<lambda>n k. (Inr (), k\<lparr>cl_Users := (cl_Users k)(n := None)\<rparr>)),
        api_Close := io_return ()\<rparr>,
      adm_ListAccessRequests = io_return [],
      adm_DeleteAccessRequest = (\<lambda>n k. (Inr (), k\<lparr>cl_Requests := (cl_Requests k)(n := None)\<rparr>)),
      adm_CreateRole = (\<lambda>r k. (Inr r, k\<lparr>cl_Roles := (cl_Roles k)(md_Name (rol_Metadata r) \<mapsto> r)\<rparr>)),
      adm_GetRole = (\<lambda>n. io_return \<lparr>rol_Metadata = sample_metadata n, r6_AllowLogins = [], r6_RequestRoles = []\<rparr>),
      adm_UpsertRole = (\<lambda>r k. (Inr r, k\<lparr>cl_Roles := (cl_Roles k)(md_Name (rol_Metadata r) \<mapsto> r)\<rparr>)),
      adm_DeleteRole = (\<lambda>n k. (Inr (), k\<lparr>cl_Roles := (cl_Roles k)(n := None)\<rparr>)),
      adm_UpsertLock = (\<lambda>l k. (Inr (), k\<lparr>cl_Locks := (cl_Locks k)(lck_Name l \<mapsto> l)\<rparr>)),
      adm_DeleteLock = (\<lambda>n k. (Inr (), k\<lparr>cl_Locks := (cl_Locks k)(n := None)\<rparr>)),
      adm_CreateAccessRequestV2 = (\<lambda>q k. (Inr q, k\<lparr>cl_Requests := (cl_Requests k)(arq_Name q \<mapsto> q)\<rparr>)),
      adm_SetAccessRequestState = (\<lambda>u k. (Inr (), k))\<rparr>"

lemma cluster_admin_service: "cluster_service (\<lambda>k. k) cluster_admin"
  by (simp add: cluster_service_def answers_truly_def may_def cluster_admin_def io_return_def
      sample_user_def sample_metadata_def)

definition live_cluster :: cluster where
  "live_cluster = \<lparr>cl_Roles = Map.empty, cl_Users = [''ann'' \<mapsto> sample_user ''ann'' [''dev'']],
     cl_Locks = Map.empty,
     cl_Requests = [''r1'' \<mapsto> \<lparr>arq_Name = ''r1'', arq_User = ''ann'', arq_Roles = [''ops''], arq_Reason = []\<rparr>]\<rparr>"

theorem populate_spares_others_witness:
  "cl_Users (fst (snd (populate_main (\<lambda>_ _. io_return cluster_admin) ''q'' (live_cluster, [])))) ''ann'' =
     Some (sample_user ''ann'' [''dev''])"
proof -
  obtain r k' out' where run: "populate_main (\<lambda>_ _. io_return cluster_admin) ''q'' (live_cluster, []) =
      (r, (k', out'))" by (metis prod.exhaust)
  have q: "ours live_cluster ''q''" by (simp add: ours_def live_cluster_def)
  have "spares live_cluster k'"
    using populate_spares_others [where cl = "\<lambda>k. k", OF _ _ q run] cluster_admin_service
    by (simp add: io_return_def)
  then have "cl_Users k' ''ann'' = cl_Users live_cluster ''ann''"
    by (simp add: spares_def testUserName_def)
  then show ?thesis
    unfolding run by (simp add: live_cluster_def)
qed

end
