(* ===== verification/Nodes.thy ===== *)
theory Nodes
  imports Builders Client
begin

text \<open>
  \<open>pkg/connector/nodes.go\<close>: the nodes of the cluster, the only resource that is listed page
  by page. A page may hold a resource that is not a node; the code then dereferences nil.
\<close>

definition nodeMembership :: string where [go_defs]: "nodeMembership = ''member''"

record node =
  nd_Id :: string
  nd_Name :: string
  nd_Namespace :: string

definition getNodeResource :: "node \<Rightarrow> resource result" where
  [go_defs]: "getNodeResource n =
     NewRoleResource (nd_Name n) nodeResourceType (nd_Id n)
       [WithRoleProfile [(''node_id'', nd_Id n), (''node_name'', nd_Name n),
          (''namespace'', nd_Namespace n)]] []"

text \<open>The loop body: \<open>GetNode()\<close> is nil for another kind of resource.\<close>

fun node_of :: "paginated_resource \<Rightarrow> node result" where
  "node_of (NodeResource srv) = Inr
     \<lparr>nd_Id = md_Revision (srv_Metadata srv), nd_Name = srv_Hostname srv,
      nd_Namespace = ProcessNamespace (md_Namespace (srv_Metadata srv))\<rparr>"
| "node_of OtherResource = Inl (Panic ''nil pointer dereference'')"

definition node_resource :: "paginated_resource \<Rightarrow> resource result" where
  [go_defs]: "node_resource w = res_bind (node_of w) (\<lambda>n.
     res_wrap ''baton-teleport: failed to create node resource'' (getNodeResource n))"

definition node_List ::
    "'s client_ptr \<Rightarrow> string \<Rightarrow> ('s, resource list \<times> sync_op_results) io" where
  "node_List c pageToken =
     io_bind (io_wrap ''baton-teleport: failed to list nodes'' (GetNodes c pageToken)) (\<lambda>resp.
     io_bind (io_lift (traverse node_resource (lrs_Resources resp))) (\<lambda>rv.
     io_return (rv, \<lparr>sor_NextPageToken = lrs_NextKey resp\<rparr>)))"

definition newNodeBuilder :: "'s client_ptr \<Rightarrow> 's builder" where
  [go_defs]: "newNodeBuilder c = \<lparr>bld_resourceType = nodeResourceType, bld_client = c\<rparr>"

definition node_ResourceType :: "'s builder \<Rightarrow> resource_type" where
  [go_defs]: "node_ResourceType b = bld_resourceType b"

definition node_Entitlements :: "resource option \<Rightarrow> entitlement list result" where
  [go_defs]: "node_Entitlements r = res_bind (deref r) (\<lambda>res.
     Inr [NewAssignmentEntitlement res nodeMembership
       [WithGrantableTo [userResourceType],
        WithDisplayName (res_DisplayName res @ '' Node '' @ nodeMembership),
        WithDescription (''Member of '' @ res_DisplayName res @ '' Teleport node'')]])"

definition node_Grants :: "resource option \<Rightarrow> grant list" where
  [go_defs]: "node_Grants r = []"

definition node_text_ok :: "node \<Rightarrow> bool" where
  [go_defs]: "node_text_ok n \<longleftrightarrow>
     valid_utf8 (nd_Id n) \<and> valid_utf8 (nd_Name n) \<and> valid_utf8 (nd_Namespace n)"

definition node_resource_of :: "node \<Rightarrow> resource" where
  [go_defs]: "node_resource_of n =
     \<lparr>res_Id = Some \<lparr>rid_ResourceType = ''node'', rid_Resource = nd_Id n\<rparr>,
      res_ParentResourceId = None, res_DisplayName = nd_Name n,
      res_Annotations = [RoleTrait \<lparr>rt_Profile = Some (string_struct
         [(''node_id'', nd_Id n), (''node_name'', nd_Name n), (''namespace'', nd_Namespace n)])\<rparr>]\<rparr>"

lemma node_keys_utf8 [simp]:
  "valid_utf8 ''node_id''" "valid_utf8 ''node_name''" "valid_utf8 ''namespace''"
  by code_simp+

lemma getNodeResource_cases:
  "getNodeResource n =
     (if node_text_ok n then Inr (node_resource_of n)
      else Inl (Errorf ''invalid UTF-8 in string''))"
  by (auto simp: getNodeResource_def NewRoleResource_profile node_text_ok_def node_resource_of_def)

definition wrapper_ok :: "paginated_resource \<Rightarrow> bool" where
  [go_defs]: "wrapper_ok w = (case node_of w of Inr n \<Rightarrow> node_text_ok n | Inl _ \<Rightarrow> False)"

definition wrapper_resource_of :: "paginated_resource \<Rightarrow> resource" where
  [go_defs]: "wrapper_resource_of w =
     (case node_of w of Inr n \<Rightarrow> node_resource_of n
      | Inl _ \<Rightarrow> \<lparr>res_Id = None, res_ParentResourceId = None, res_DisplayName = [], res_Annotations = []\<rparr>)"

interpretation node_conv: resource_converter node_resource wrapper_ok wrapper_resource_of
proof
  fix w
  show "wrapper_ok w \<Longrightarrow> node_resource w = Inr (wrapper_resource_of w)"
    by (cases w) (simp_all add: wrapper_ok_def wrapper_resource_of_def node_resource_def
        getNodeResource_cases)
  show "\<not> wrapper_ok w \<Longrightarrow> \<exists>e. node_resource w = Inl e"
    by (cases w) (simp_all add: wrapper_ok_def node_resource_def getNodeResource_cases)
qed

interpretation node_ent: membership_syncer node_Entitlements nodeMembership "'' Node ''" "'' Teleport node''"
  by unfold_locales (simp_all add: node_Entitlements_def)

section \<open>Properties\<close>

definition server_ok :: "server_v2 \<Rightarrow> bool" where
  [go_defs]: "server_ok srv \<longleftrightarrow> valid_utf8 (md_Revision (srv_Metadata srv)) \<and>
     valid_utf8 (srv_Hostname srv) \<and> valid_utf8 (md_Namespace (srv_Metadata srv))"

lemma wrapper_ok_node: "server_ok srv \<Longrightarrow> wrapper_ok (NodeResource srv)"
proof -
  have "valid_utf8 ''default''" by code_simp
  then show "server_ok srv \<Longrightarrow> wrapper_ok (NodeResource srv)"
    by (simp add: wrapper_ok_def node_text_ok_def server_ok_def ProcessNamespace_def Namespace_def)
qed

text \<open>
  One page of nodes: the page is asked for with the caller's token, and the answer has one
  resource per node in the service's order, its id the node's revision and its name the host
  name, with the service's key as the next token, so that following the tokens reads the
  service's own pages.
\<close>

lemma node_page:
  assumes "c = Some tc" "tc_Client tc = Some api" "list_all server_ok srvs"
    and "api_GetResources api \<lparr>lrr_ResourceType = ''node'', lrr_StartKey = token\<rparr> s =
      (Inr \<lparr>lrs_Resources = map NodeResource srvs, lrs_NextKey = k\<rparr>, s1)"
  shows "\<exists>rs. node_List c token s = (Inr (rs, \<lparr>sor_NextPageToken = k\<rparr>), s1) \<and>
    map res_Id rs = map (\<lambda>srv. Some \<lparr>rid_ResourceType = ''node'',
      rid_Resource = md_Revision (srv_Metadata srv)\<rparr>) srvs \<and>
    map res_DisplayName rs = map srv_Hostname srvs"
proof -
  have ok: "list_all wrapper_ok (map NodeResource srvs)"
    using assms(3) by (auto simp: list_all_iff wrapper_ok_node)
  show ?thesis
    by (rule exI [of _ "map wrapper_resource_of (map NodeResource srvs)"])
      (use assms(1,2,4) node_conv.traverse_accepts [OF ok] in
        \<open>simp add: node_List_def GetNodes_def KindNode_def io_bind_def io_wrap_def io_lift_def
          io_return_def wrapper_resource_of_def node_resource_of_def comp_def\<close>)
qed

definition node_api :: "nat teleport_api" where
  "node_api = offline_api\<lparr>api_GetResources := (\<lambda>r s. (Inr
     \<lparr>lrs_Resources = [NodeResource \<lparr>srv_Metadata = \<lparr>md_Name = ''n'', md_Namespace = [],
          md_Description = [], md_Labels = [], md_Revision = ''r7''\<rparr>, srv_Hostname = ''web''\<rparr>],
      lrs_NextKey = lrr_StartKey r @ ''+''\<rparr>, Suc s))\<rparr>"

lemma node_page_witness:
  "\<exists>rs. node_List (client_of node_api) ''a'' 0 = (Inr (rs, \<lparr>sor_NextPageToken = ''a+''\<rparr>), 1) \<and>
    map res_Id rs = [Some \<lparr>rid_ResourceType = ''node'', rid_Resource = ''r7''\<rparr>]"
proof -
  let ?srv = "\<lparr>srv_Metadata = \<lparr>md_Name = ''n'', md_Namespace = [],
          md_Description = [], md_Labels = [], md_Revision = ''r7''\<rparr>, srv_Hostname = ''web''\<rparr>"
  have "valid_utf8 ''r7''" "valid_utf8 ''web''" by code_simp+
  then have ok: "list_all server_ok [?srv]" by (simp add: server_ok_def)
  have call: "api_GetResources node_api \<lparr>lrr_ResourceType = ''node'', lrr_StartKey = ''a''\<rparr> 0 =
      (Inr \<lparr>lrs_Resources = map NodeResource [?srv], lrs_NextKey = ''a+''\<rparr>, 1)"
    by (simp add: node_api_def)
  from node_page [OF client_of_def tc_client_eq ok call] show ?thesis by auto
qed

text \<open>
  C38: A page that holds a resource which is not a node crashes the listing: the getter returns
  nil for it and the next line dereferences the result.
\<close>

theorem other_resource_panics:
  assumes "c = Some tc" "tc_Client tc = Some api" "list_all server_ok srvs"
    and "api_GetResources api \<lparr>lrr_ResourceType = ''node'', lrr_StartKey = token\<rparr> s =
      (Inr \<lparr>lrs_Resources = map NodeResource srvs @ OtherResource # rest, lrs_NextKey = k\<rparr>, s1)"
  shows "node_List c token s = (Inl (Panic ''nil pointer dereference''), s1)"
proof -
  have "traverse node_resource (map NodeResource srvs @ OtherResource # rest) =
      Inl (Panic ''nil pointer dereference'')"
  proof -
    have panic: "node_resource OtherResource = Inl (Panic ''nil pointer dereference'')"
      by (simp add: node_resource_def)
    show ?thesis
      using assms(3) by (induction srvs) (simp_all add: panic node_conv.converts [OF wrapper_ok_node])
  qed
  then show ?thesis
    using assms(1,2,4) by (simp add: node_List_def GetNodes_def KindNode_def io_bind_def
        io_wrap_def io_lift_def)
qed

theorem other_resource_panics_witness:
  "node_List (client_of (offline_api\<lparr>api_GetResources := (\<lambda>r. io_return
      \<lparr>lrs_Resources = [OtherResource], lrs_NextKey = []\<rparr>)\<rparr>)) [] (0 :: nat) =
    (Inl (Panic ''nil pointer dereference''), 0)"
  by (rule other_resource_panics [OF client_of_def tc_client_eq, where srvs = "[]" and rest = "[]" and k = "[]"])
    (simp_all add: io_return_def)

end
