(* ===== verification/Apps.thy ===== *)
theory Apps
  imports Builders
begin

text \<open>
  \<open>pkg/connector/apps.go\<close>: the applications of the cluster. The resource id is the revision of the record.
\<close>

definition appMembership :: string where [go_defs]: "appMembership = ''member''"

definition getAppResource :: "application \<Rightarrow> resource result" where
  [go_defs]: "getAppResource x =
     (let xId = md_Revision (app_Metadata x); xName = md_Name (app_Metadata x) in
      NewRoleResource xName appResourceType xId
        [WithRoleProfile [(''app_id'', xId), (''app_name'', xName)]] [])"

definition app_List :: "'s client_ptr \<Rightarrow> ('s, resource list) io" where
  "app_List c =
     io_bind (with_client c api_GetApps) (\<lambda>xs. io_lift (traverse getAppResource xs))"

definition newAppBuilder :: "'s client_ptr \<Rightarrow> 's builder" where
  [go_defs]: "newAppBuilder c = \<lparr>bld_resourceType = appResourceType, bld_client = c\<rparr>"

definition app_ResourceType :: "'s builder \<Rightarrow> resource_type" where
  [go_defs]: "app_ResourceType b = bld_resourceType b"

definition app_Entitlements :: "resource option \<Rightarrow> entitlement list result" where
  [go_defs]: "app_Entitlements r = res_bind (deref r) (\<lambda>res.
     Inr [NewAssignmentEntitlement res appMembership
       [WithGrantableTo [userResourceType],
        WithDisplayName (res_DisplayName res @ '' App '' @ appMembership),
        WithDescription (''Member of '' @ res_DisplayName res @ '' Teleport app'')]])"

definition app_Grants :: "resource option \<Rightarrow> grant list" where
  [go_defs]: "app_Grants r = []"

definition app_text_ok :: "application \<Rightarrow> bool" where
  [go_defs]: "app_text_ok x \<longleftrightarrow>
     valid_utf8 (md_Revision (app_Metadata x)) \<and> valid_utf8 (md_Name (app_Metadata x))"

definition app_resource_of :: "application \<Rightarrow> resource" where
  [go_defs]: "app_resource_of x =
     \<lparr>res_Id = Some \<lparr>rid_ResourceType = ''app'', rid_Resource = md_Revision (app_Metadata x)\<rparr>,
      res_ParentResourceId = None, res_DisplayName = md_Name (app_Metadata x),
      res_Annotations = [RoleTrait \<lparr>rt_Profile = Some (string_struct
         [(''app_id'', md_Revision (app_Metadata x)), (''app_name'', md_Name (app_Metadata x))])\<rparr>]\<rparr>"

lemma app_keys_utf8 [simp]: "valid_utf8 ''app_id''" "valid_utf8 ''app_name''"
  by code_simp+

lemma getAppResource_cases:
  "getAppResource x =
     (if app_text_ok x then Inr (app_resource_of x)
      else Inl (Errorf ''invalid UTF-8 in string''))"
  by (auto simp: getAppResource_def NewRoleResource_profile app_text_ok_def app_resource_of_def
      Let_def)

interpretation app_conv: resource_converter getAppResource app_text_ok app_resource_of
  by unfold_locales (simp_all add: getAppResource_cases)

interpretation app_ent: membership_syncer app_Entitlements appMembership "'' App ''" "'' Teleport app''"
  by unfold_locales (simp_all add: app_Entitlements_def)

section \<open>Properties\<close>

text \<open>
  Listing the applications is all or nothing: when every name and revision is text, one
  resource per record in the service's order, with the revision as id and the name as display
  name; otherwise an error and no resource.
\<close>

lemma app_list_all_or_nothing:
  assumes "c = Some tc" "tc_Client tc = Some api" "api_GetApps api s = (Inr xs, s1)"
  shows "if list_all app_text_ok xs
    then \<exists>rs. app_List c s = (Inr rs, s1) \<and>
      map res_Id rs = map (\<lambda>x. Some \<lparr>rid_ResourceType = ''app'',
        rid_Resource = md_Revision (app_Metadata x)\<rparr>) xs \<and>
      map res_DisplayName rs = map (\<lambda>x. md_Name (app_Metadata x)) xs
    else \<exists>e. app_List c s = (Inl e, s1)"
proof (cases "list_all app_text_ok xs")
  case True
  have "app_List c s = (Inr (map app_resource_of xs), s1)"
    using assms app_conv.traverse_accepts [OF True]
    by (simp add: app_List_def io_bind_def io_lift_def)
  with True show ?thesis
    by (simp add: app_resource_of_def)
next
  case False
  from app_conv.traverse_rejects [OF False] False show ?thesis
    using assms by (auto simp: app_List_def io_bind_def io_lift_def)
qed

definition one_app_api :: "nat teleport_api" where
  "one_app_api = offline_api\<lparr>api_GetApps := io_return
     [\<lparr>app_Metadata = \<lparr>md_Name = ''web'', md_Namespace = [], md_Description = [], md_Labels = [],
       md_Revision = ''r7''\<rparr>\<rparr>]\<rparr>"

lemma app_list_all_or_nothing_witness:
  "\<exists>rs. app_List (client_of one_app_api) 3 = (Inr rs, 3) \<and>
     map res_Id rs = [Some \<lparr>rid_ResourceType = ''app'', rid_Resource = ''r7''\<rparr>]"
proof -
  let ?x = "\<lparr>app_Metadata = \<lparr>md_Name = ''web'', md_Namespace = [], md_Description = [], md_Labels = [],
       md_Revision = ''r7''\<rparr>\<rparr>"
  have "valid_utf8 ''r7''" "valid_utf8 ''web''" by code_simp+
  then have ok: "list_all app_text_ok [?x]" by (simp add: app_text_ok_def)
  have call: "api_GetApps one_app_api 3 = (Inr [?x], 3)"
    by (simp add: one_app_api_def io_return_def)
  from app_list_all_or_nothing [OF client_of_def tc_client_eq call] show ?thesis
    unfolding if_P [OF ok] by auto
qed

end
