(* ===== verification/Databases.thy ===== *)
theory Databases
  imports Builders
begin

text \<open>
  \<open>pkg/connector/databases.go\<close>: the databases of the cluster. The resource id is the revision of the record.
\<close>

definition dbMembership :: string where [go_defs]: "dbMembership = ''member''"

definition getDatabaseResource :: "database \<Rightarrow> resource result" where
  [go_defs]: "getDatabaseResource x =
     (let xId = md_Revision (db_Metadata x); xName = md_Name (db_Metadata x) in
      NewRoleResource xName dbResourceType xId
        [WithRoleProfile [(''db_id'', xId), (''db_name'', xName)]] [])"

definition db_List :: "'s client_ptr \<Rightarrow> ('s, resource list) io" where
  "db_List c =
     io_bind (with_client c api_GetDatabases) (\<lambda>xs. io_lift (traverse getDatabaseResource xs))"

definition newDbBuilder :: "'s client_ptr \<Rightarrow> 's builder" where
  [go_defs]: "newDbBuilder c = \<lparr>bld_resourceType = dbResourceType, bld_client = c\<rparr>"

definition db_ResourceType :: "'s builder \<Rightarrow> resource_type" where
  [go_defs]: "db_ResourceType b = bld_resourceType b"

definition db_Entitlements :: "resource option \<Rightarrow> entitlement list result" where
  [go_defs]: "db_Entitlements r = res_bind (deref r) (\<lambda>res.
     Inr [NewAssignmentEntitlement res dbMembership
       [WithGrantableTo [userResourceType],
        WithDisplayName (res_DisplayName res @ '' Database '' @ dbMembership),
        WithDescription (''Member of '' @ res_DisplayName res @ '' Teleport db'')]])"

definition db_Grants :: "resource option \<Rightarrow> grant list" where
  [go_defs]: "db_Grants r = []"

definition db_text_ok :: "database \<Rightarrow> bool" where
  [go_defs]: "db_text_ok x \<longleftrightarrow>
     valid_utf8 (md_Revision (db_Metadata x)) \<and> valid_utf8 (md_Name (db_Metadata x))"

definition db_resource_of :: "database \<Rightarrow> resource" where
  [go_defs]: "db_resource_of x =
     \<lparr>res_Id = Some \<lparr>rid_ResourceType = ''database'', rid_Resource = md_Revision (db_Metadata x)\<rparr>,
      res_ParentResourceId = None, res_DisplayName = md_Name (db_Metadata x),
      res_Annotations = [RoleTrait \<lparr>rt_Profile = Some (string_struct
         [(''db_id'', md_Revision (db_Metadata x)), (''db_name'', md_Name (db_Metadata x))])\<rparr>]\<rparr>"

lemma db_keys_utf8 [simp]: "valid_utf8 ''db_id''" "valid_utf8 ''db_name''"
  by code_simp+

lemma getDatabaseResource_cases:
  "getDatabaseResource x =
     (if db_text_ok x then Inr (db_resource_of x)
      else Inl (Errorf ''invalid UTF-8 in string''))"
  by (auto simp: getDatabaseResource_def NewRoleResource_profile db_text_ok_def db_resource_of_def
      Let_def)

interpretation db_conv: resource_converter getDatabaseResource db_text_ok db_resource_of
  by unfold_locales (simp_all add: getDatabaseResource_cases)

interpretation db_ent: membership_syncer db_Entitlements dbMembership "'' Database ''" "'' Teleport db''"
  by unfold_locales (simp_all add: db_Entitlements_def)

section \<open>Properties\<close>

text \<open>
  Listing the databases is all or nothing: when every name and revision is text, one
  resource per record in the service's order, with the revision as id and the name as display
  name; otherwise an error and no resource.
\<close>

lemma db_list_all_or_nothing:
  assumes "c = Some tc" "tc_Client tc = Some api" "api_GetDatabases api s = (Inr xs, s1)"
  shows "if list_all db_text_ok xs
    then \<exists>rs. db_List c s = (Inr rs, s1) \<and>
      map res_Id rs = map (\<lambda>x. Some \<lparr>rid_ResourceType = ''database'',
        rid_Resource = md_Revision (db_Metadata x)\<rparr>) xs \<and>
      map res_DisplayName rs = map (\<lambda>x. md_Name (db_Metadata x)) xs
    else \<exists>e. db_List c s = (Inl e, s1)"
proof (cases "list_all db_text_ok xs")
  case True
  have "db_List c s = (Inr (map db_resource_of xs), s1)"
    using assms db_conv.traverse_accepts [OF True]
    by (simp add: db_List_def io_bind_def io_lift_def)
  with True show ?thesis
    by (simp add: db_resource_of_def)
next
  case False
  from db_conv.traverse_rejects [OF False] False show ?thesis
    using assms by (auto simp: db_List_def io_bind_def io_lift_def)
qed

definition one_db_api :: "nat teleport_api" where
  "one_db_api = offline_api\<lparr>api_GetDatabases := io_return
     [\<lparr>db_Metadata = \<lparr>md_Name = ''web'', md_Namespace = [], md_Description = [], md_Labels = [],
       md_Revision = ''r7''\<rparr>\<rparr>]\<rparr>"

lemma one_db_listed:
  "\<exists>rs. db_List (client_of one_db_api) 3 = (Inr rs, 3) \<and>
     map res_Id rs = [Some \<lparr>rid_ResourceType = ''database'', rid_Resource = ''r7''\<rparr>]"
proof -
  let ?x = "\<lparr>db_Metadata = \<lparr>md_Name = ''web'', md_Namespace = [], md_Description = [], md_Labels = [],
       md_Revision = ''r7''\<rparr>\<rparr>"
  have "valid_utf8 ''r7''" "valid_utf8 ''web''" by code_simp+
  then have ok: "list_all db_text_ok [?x]" by (simp add: db_text_ok_def)
  have call: "api_GetDatabases one_db_api 3 = (Inr [?x], 3)"
    by (simp add: one_db_api_def io_return_def)
  from db_list_all_or_nothing [OF client_of_def tc_client_eq call] show ?thesis
    unfolding if_P [OF ok] by auto
qed

end
