(* ===== verification/Config.thy ===== *)
theory Config
  imports Prelude
begin

text \<open>
  \<open>pkg/config\<close>: the three fields of the configuration and their relationships, with the
  validation the SDK runs on them (\<open>field/validation.go\<close>, \<open>field/relationships.go\<close>) before
  the connector is built.
\<close>

section \<open>Fields and relationships\<close>

record schema_field =
  sf_FieldName :: string
  sf_Required :: bool
  sf_Secret :: bool

definition StringField :: "string \<Rightarrow> schema_field" where
  [go_defs]: "StringField name = \<lparr>sf_FieldName = name, sf_Required = False, sf_Secret = False\<rparr>"

datatype relationship = Invalid | RequiredTogether | MutuallyExclusive | AtLeastOne | Dependents

record schema_field_relationship =
  sfr_Kind :: relationship
  sfr_Fields :: "schema_field list"
  sfr_ExpectedFields :: "schema_field list"

definition invalid_relationship :: schema_field_relationship where
  [go_defs]: "invalid_relationship = \<lparr>sfr_Kind = Invalid, sfr_Fields = [], sfr_ExpectedFields = []\<rparr>"

definition countFieldNames :: "schema_field list \<Rightarrow> nat" where
  [go_defs]: "countFieldNames fs = length (remdups (map sf_FieldName fs))"

definition FieldsMutuallyExclusive :: "schema_field list \<Rightarrow> schema_field_relationship" where
  [go_defs]: "FieldsMutuallyExclusive fs =
     (if list_ex sf_Required fs then invalid_relationship
      else if countFieldNames fs < length fs \<or> countFieldNames fs \<le> 1
        then invalid_relationship
      else \<lparr>sfr_Kind = MutuallyExclusive, sfr_Fields = fs, sfr_ExpectedFields = []\<rparr>)"

definition FieldsAtLeastOneUsed :: "schema_field list \<Rightarrow> schema_field_relationship" where
  [go_defs]: "FieldsAtLeastOneUsed fs =
     (if countFieldNames fs < length fs \<or> countFieldNames fs \<le> 1
        then invalid_relationship
      else \<lparr>sfr_Kind = AtLeastOne, sfr_Fields = fs, sfr_ExpectedFields = []\<rparr>)"

definition TeleportKeyFilePathField :: schema_field where
  [go_defs]: "TeleportKeyFilePathField = StringField ''teleport-key-path''"

definition TeleportKeyField :: schema_field where
  [go_defs]: "TeleportKeyField = (StringField ''teleport-key'')\<lparr>sf_Secret := True\<rparr>"

definition ProxyAddressField :: schema_field where
  [go_defs]: "ProxyAddressField = (StringField ''teleport-proxy-address'')\<lparr>sf_Required := True\<rparr>"

definition fieldRelationships :: "schema_field_relationship list" where
  [go_defs]: "fieldRelationships =
     [FieldsMutuallyExclusive [TeleportKeyFilePathField, TeleportKeyField],
      FieldsAtLeastOneUsed [TeleportKeyFilePathField, TeleportKeyField]]"

definition ConfigurationFields :: "schema_field list" where
  [go_defs]: "ConfigurationFields = [ProxyAddressField, TeleportKeyFilePathField, TeleportKeyField]"

text \<open>\<open>field.NewConfiguration\<close> with its options.\<close>

record configuration =
  cfg_Fields :: "schema_field list"
  cfg_Constraints :: "schema_field_relationship list"
  cfg_DisplayName :: string
  cfg_HelpUrl :: string
  cfg_IconUrl :: string

definition ConfigurationSchema :: configuration where
  [go_defs]: "ConfigurationSchema =
     \<lparr>cfg_Fields = ConfigurationFields, cfg_Constraints = fieldRelationships,
      cfg_DisplayName = ''Teleport'', cfg_HelpUrl = ''/docs/baton/teleport'',
      cfg_IconUrl = ''/static/app-icons/teleport.svg''\<rparr>"

section \<open>The configuration\<close>

record teleport_config =
  TeleportProxyAddress :: string
  TeleportKeyPath :: string
  TeleportKey :: string

text \<open>\<open>findFieldByTag\<close> and \<open>GetString\<close>: all three fields are strings.\<close>

definition findFieldByTag :: "teleport_config \<Rightarrow> string \<Rightarrow> string option" where
  [go_defs]: "findFieldByTag c tag =
     (if tag = ''teleport-proxy-address'' then Some (TeleportProxyAddress c)
      else if tag = ''teleport-key-path'' then Some (TeleportKeyPath c)
      else if tag = ''teleport-key'' then Some (TeleportKey c)
      else None)"

definition GetString :: "teleport_config \<Rightarrow> string \<Rightarrow> string" where
  [go_defs]: "GetString c fieldName = (case findFieldByTag c fieldName of None \<Rightarrow> [] | Some v \<Rightarrow> v)"

text \<open>
  The getters of other types look the field up too; every field there is holds a string, so
  the type assertion after a successful lookup panics.
\<close>

definition wrong_type :: "teleport_config \<Rightarrow> string \<Rightarrow> 'a \<Rightarrow> 'a result" where
  [go_defs]: "wrong_type c fieldName dflt =
     (case findFieldByTag c fieldName of None \<Rightarrow> Inr dflt | Some v \<Rightarrow> Inl (Panic ''wrong type''))"

definition GetStringSlice :: "teleport_config \<Rightarrow> string \<Rightarrow> string list result" where
  [go_defs]: "GetStringSlice c fieldName = wrong_type c fieldName []"

definition GetInt :: "teleport_config \<Rightarrow> string \<Rightarrow> int result" where
  [go_defs]: "GetInt c fieldName = wrong_type c fieldName 0"

definition GetBool :: "teleport_config \<Rightarrow> string \<Rightarrow> bool result" where
  [go_defs]: "GetBool c fieldName = wrong_type c fieldName False"

definition GetStringMap :: "teleport_config \<Rightarrow> string \<Rightarrow> (string \<times> string) list result" where
  [go_defs]: "GetStringMap c fieldName = wrong_type c fieldName []"

section \<open>Validation\<close>

text \<open>
  \<open>SchemaField.validate\<close> for a string field with at most the required rule: whether the
  field is present, and whether it breaks the rule.
\<close>

definition validate_field :: "schema_field \<Rightarrow> string \<Rightarrow> bool \<times> bool" where
  [go_defs]: "validate_field f v = (v \<noteq> [], sf_Required f \<and> v = [])"

definition fields_present :: "teleport_config \<Rightarrow> schema_field list \<Rightarrow> string list" where
  [go_defs]: "fields_present c fs = map sf_FieldName
     (filter (\<lambda>f. fst (validate_field f (GetString c (sf_FieldName f)))) fs)"

definition count_present :: "string list \<Rightarrow> schema_field list \<Rightarrow> nat" where
  [go_defs]: "count_present present fs = length (filter (\<lambda>f. sf_FieldName f \<in> set present) fs)"

fun validateConstraints :: "string list \<Rightarrow> schema_field_relationship list \<Rightarrow> unit result" where
  "validateConstraints present [] = Inr ()"
| "validateConstraints present (r # rs) =
     (let n = count_present present (sfr_Fields r);
          expected = count_present present (sfr_ExpectedFields r)
      in case sfr_Kind r of
        MutuallyExclusive \<Rightarrow>
          if 1 < n then Inl (Errorf ''fields are mutually exclusive'')
          else validateConstraints present rs
      | RequiredTogether \<Rightarrow>
          if 0 < n \<and> n < length (sfr_Fields r) then Inl (Errorf ''fields are needed together'')
          else validateConstraints present rs
      | AtLeastOne \<Rightarrow>
          if n = 0 then Inl (Errorf ''at least one field is required'')
          else validateConstraints present rs
      | Dependents \<Rightarrow>
          if 0 < n \<and> expected \<noteq> length (sfr_ExpectedFields r)
          then Inl (Errorf ''dependent fields are missing'')
          else validateConstraints present rs
      | Invalid \<Rightarrow> Inl (Errorf ''invalid relationship constraint''))"

definition Validate :: "configuration \<Rightarrow> teleport_config \<Rightarrow> unit result" where
  [go_defs]: "Validate schema c =
     (if list_ex (\<lambda>f. snd (validate_field f (GetString c (sf_FieldName f)))) (cfg_Fields schema)
      then Inl (Errorf ''configuration has missing required fields'')
      else validateConstraints (fields_present c (cfg_Fields schema)) (cfg_Constraints schema))"

lemma GetString_fields [simp]:
  "GetString c ''teleport-proxy-address'' = TeleportProxyAddress c"
  "GetString c ''teleport-key-path'' = TeleportKeyPath c"
  "GetString c ''teleport-key'' = TeleportKey c"
  by (simp_all add: GetString_def findFieldByTag_def)

lemma Validate_configuration:
  "Validate ConfigurationSchema c = Inr () \<longleftrightarrow>
     TeleportProxyAddress c \<noteq> [] \<and> ((TeleportKeyPath c = []) \<noteq> (TeleportKey c = []))"
  by (auto simp: Validate_def ConfigurationSchema_def ConfigurationFields_def fieldRelationships_def
      FieldsMutuallyExclusive_def FieldsAtLeastOneUsed_def countFieldNames_def
      invalid_relationship_def ProxyAddressField_def TeleportKeyFilePathField_def
      TeleportKeyField_def StringField_def validate_field_def fields_present_def
      count_present_def Let_def)

section \<open>Properties\<close>

text \<open>
  C34: The verdict on every configuration: the proxy address is required, the key file and the
  key exclude each other, and one of them must be there; the first of these that fails, in
  this order, is the error, and nothing else is refused.
\<close>

theorem config_verdict:
  "Validate ConfigurationSchema c =
    (if TeleportProxyAddress c = [] then Inl (Errorf ''configuration has missing required fields'')
     else if TeleportKeyPath c \<noteq> [] \<and> TeleportKey c \<noteq> [] then Inl (Errorf ''fields are mutually exclusive'')
     else if TeleportKeyPath c = [] \<and> TeleportKey c = [] then Inl (Errorf ''at least one field is required'')
     else Inr ())"
  by (simp add: Validate_def ConfigurationSchema_def ConfigurationFields_def fieldRelationships_def
      FieldsMutuallyExclusive_def FieldsAtLeastOneUsed_def countFieldNames_def
      invalid_relationship_def ProxyAddressField_def TeleportKeyFilePathField_def
      TeleportKeyField_def StringField_def validate_field_def fields_present_def
      count_present_def Let_def)

end
