(* ===== verification/Connector.thy ===== *)
theory Connector
  imports Roles Nodes Apps Databases Event_Feeds Config
begin

text \<open>
  \<open>pkg/connector/connector.go\<close>: the connector as the SDK sees it, and its construction from
  the configuration.
\<close>

record 's connector =
  con_Client :: "'s client_ptr"

text \<open>The syncers; the builders share the connector's client.\<close>

datatype 's resource_syncer =
    UserSyncer "'s builder"
  | RoleSyncer "'s role_builder"
  | NodeSyncer "'s builder"
  | AppSyncer "'s builder"
  | DatabaseSyncer "'s builder"

fun syncer_ResourceType :: "'s resource_syncer \<Rightarrow> resource_type" where
  "syncer_ResourceType (UserSyncer b) = user_ResourceType b"
| "syncer_ResourceType (RoleSyncer b) = role_ResourceType b"
| "syncer_ResourceType (NodeSyncer b) = node_ResourceType b"
| "syncer_ResourceType (AppSyncer b) = app_ResourceType b"
| "syncer_ResourceType (DatabaseSyncer b) = db_ResourceType b"

definition ResourceSyncers :: "'s connector \<Rightarrow> 's resource_syncer list" where
  [go_defs]: "ResourceSyncers d =
     [UserSyncer (newUserBuilder (con_Client d)), RoleSyncer (newRoleBuilder (con_Client d)),
      NodeSyncer (newNodeBuilder (con_Client d)), AppSyncer (newAppBuilder (con_Client d)),
      DatabaseSyncer (newDbBuilder (con_Client d))]"

lemmas builder_defs = newUserBuilder_def newRoleBuilder_def newNodeBuilder_def newAppBuilder_def
  newDbBuilder_def user_ResourceType_def role_ResourceType_def node_ResourceType_def
  app_ResourceType_def db_ResourceType_def

text \<open>\<open>Asset\<close>: no content type, no reader.\<close>

definition connector_Asset :: "string \<times> string option" where
  [go_defs]: "connector_Asset = ([], None)"

text \<open>The account creation schema of \<open>Metadata\<close>.\<close>

record schema_entry =
  se_DisplayName :: string
  se_Required :: bool
  se_Description :: string
  se_Placeholder :: string
  se_Order :: int

record connector_metadata =
  cm_DisplayName :: string
  cm_Description :: string
  cm_FieldMap :: "(string \<times> schema_entry) list"

definition connector_Metadata :: connector_metadata where
  [go_defs]: "connector_Metadata =
     \<lparr>cm_DisplayName = ''Teleport Connector'',
      cm_Description = ''Connector to sync and provision users into Teleport.'',
      cm_FieldMap =
        [(''name'', \<lparr>se_DisplayName = ''Username'', se_Required = True,
            se_Description = ''The unique username of the user in Teleport.'',
            se_Placeholder = ''name'', se_Order = 1\<rparr>),
         (''role'', \<lparr>se_DisplayName = ''Role'', se_Required = False,
            se_Description = ''The role to assign to the user. Defaults to 'access' if not provided.'',
            se_Placeholder = ''access'', se_Order = 2\<rparr>)]\<rparr>"

definition connector_Validate :: "'s connector \<Rightarrow> ('s, unit) io" where
  "connector_Validate d =
     (if con_Client d \<noteq> None
      then io_wrap ''baton-teleport: failed to validate connection''
        (with_client (con_Client d) api_Ping)
      else io_return ())"

definition connector_Close :: "'s connector \<Rightarrow> ('s, unit) io" where
  "connector_Close d = (case con_Client d of
     Some tc \<Rightarrow> (case tc_Client tc of Some api \<Rightarrow> api_Close api | None \<Rightarrow> io_return ())
   | None \<Rightarrow> io_return ())"

definition connector_EventFeeds :: "'s clock \<Rightarrow> 's connector \<Rightarrow> 's event_feed list" where
  [go_defs]: "connector_EventFeeds clk d = EventFeeds clk (con_Client d)"

definition connector_New ::
    "(string list \<Rightarrow> credentials list \<Rightarrow> ('s, 's teleport_api) io)
      \<Rightarrow> teleport_config \<Rightarrow> ('s, 's connector) io" where
  "connector_New dial cfg =
     io_bind (io_wrap ''baton-teleport: failed to create teleport client''
       (New dial (TeleportProxyAddress cfg) (TeleportKeyPath cfg) (TeleportKey cfg))) (\<lambda>tc.
     io_return \<lparr>con_Client = Some tc\<rparr>)"

section \<open>Properties\<close>

lemma New_with_key:
  assumes "(keyFile = []) \<noteq> (k = [])"
  shows "New dial addr keyFile k s =
    (case dial [with_default_port addr]
        [if keyFile \<noteq> [] then LoadIdentityFile keyFile else LoadIdentityFileFromString k] s of
       (r, s') \<Rightarrow> (res_bind r (\<lambda>api.
         Inr \<lparr>tc_Client = Some api, tc_ProxyAddress = with_default_port addr\<rparr>), s'))"
  using assms
  by (auto simp: New_def Let_def io_bind_def io_return_def io_fail_def split: prod.splits sum.splits)

text \<open>
  C33: A configuration that passes validation reaches the dial: the client is dialled once,
  at the address with its port, with the one identity the configuration has, and building the
  connector fails exactly when the dial does, with the dial's error wrapped.
\<close>

theorem configured_connector:
  assumes "Validate ConfigurationSchema cfg = Inr ()"
    and "dial [with_default_port (TeleportProxyAddress cfg)]
      [if TeleportKeyPath cfg \<noteq> [] then LoadIdentityFile (TeleportKeyPath cfg)
       else LoadIdentityFileFromString (TeleportKey cfg)] s = (r, s1)"
  shows "connector_New dial cfg s = (case r of
      Inr api \<Rightarrow> (Inr \<lparr>con_Client = Some \<lparr>tc_Client = Some api,
        tc_ProxyAddress = with_default_port (TeleportProxyAddress cfg)\<rparr>\<rparr>, s1)
    | Inl e \<Rightarrow> (Inl (wrap_error ''baton-teleport: failed to create teleport client'' e), s1))"
proof -
  have "(TeleportKeyPath cfg = []) \<noteq> (TeleportKey cfg = [])"
    using assms(1) by (simp add: Validate_configuration)
  from New_with_key [OF this, of dial "TeleportProxyAddress cfg" s] show ?thesis
    using assms(2)
    by (simp add: connector_New_def io_bind_def io_wrap_def io_return_def split: sum.splits)
qed

theorem configured_connector_witness:
  "connector_New (\<lambda>addrs creds s. (Inr offline_api, (addrs, creds) # s))
     \<lparr>TeleportProxyAddress = ''acme.teleport.sh'', TeleportKeyPath = ''auth.pem'', TeleportKey = []\<rparr> [] =
   (Inr \<lparr>con_Client = Some \<lparr>tc_Client = Some offline_api, tc_ProxyAddress = ''acme.teleport.sh:443''\<rparr>\<rparr>,
    [([''acme.teleport.sh:443''], [LoadIdentityFile ''auth.pem''])])"
proof -
  let ?cfg = "\<lparr>TeleportProxyAddress = ''acme.teleport.sh'', TeleportKeyPath = ''auth.pem'', TeleportKey = []\<rparr>"
  have v: "Validate ConfigurationSchema ?cfg = Inr ()"
    by (simp add: Validate_configuration)
  have a: "with_default_port ''acme.teleport.sh'' = ''acme.teleport.sh:443''" by code_simp
  show ?thesis
    by (subst configured_connector [OF v refl]) (simp add: a)
qed

text \<open>
  A connector without a client, which the process entry builds to list its capabilities,
  is safe to ask: validating and closing it succeed without a call, it has one syncer for
  each of five distinct resource types, and its two event feeds register.
\<close>

lemma connector_without_client:
  "connector_Validate \<lparr>con_Client = None\<rparr> s = (Inr (), s) \<and>
   connector_Close \<lparr>con_Client = None\<rparr> s = (Inr (), s) \<and>
   connector_Close \<lparr>con_Client = Some \<lparr>tc_Client = None, tc_ProxyAddress = a\<rparr>\<rparr> s = (Inr (), s) \<and>
   map (\<lambda>y. rty_Id (syncer_ResourceType y)) (ResourceSyncers \<lparr>con_Client = None\<rparr>) =
     [''user'', ''role'', ''node'', ''app'', ''database''] \<and>
   (\<exists>feeds. addEventFeeds (connector_EventFeeds clk \<lparr>con_Client = None\<rparr>) [] = Inr feeds \<and>
      distinct (map fst feeds) \<and>
      set (map fst feeds) = {''teleport_usage_events'', ''teleport_audit_events''})"
  by (simp add: connector_Validate_def connector_Close_def ResourceSyncers_def io_return_def
      connector_EventFeeds_def connector_feeds builder_defs insert_commute)

end
