(* ===== verification/Registration.thy ===== *)
theory Registration
  imports Connector
begin

text \<open>
  How the SDK takes the connector in (\<open>connectorbuilder.NewConnector\<close>, vendored) and hands
  requests on to it: for each resource type the interfaces its builder implements are
  registered, the capabilities are read off the registrations, and a request is dispatched by
  the resource type it names. Which interfaces a builder implements is the method set of its
  struct in \<open>pkg/connector\<close>. Metrics are left out, and the cryptography is a parameter. Grants and
  revocations run in the SDK's retry loop; they are dispatched in \<open>Retry\<close>.
\<close>

section \<open>Interfaces\<close>

datatype sdk_interface =
    IResourceSyncer | IResourceSyncerV2 | IResourceTargetedSyncer
  | IResourceProvisioner | IResourceProvisionerV2
  | IResourceManager | IResourceManagerV2 | IResourceDeleter | IResourceDeleterV2
  | IAccountManager | IOldAccountManager | ICredentialManager | IOldCredentialManager

text \<open>
  All five have \<open>List\<close>, \<open>Entitlements\<close> and \<open>Grants\<close> with \<open>SyncOpAttrs\<close>; users and roles have
  \<open>Get\<close>; users have \<open>CreateAccount\<close>, \<open>CreateAccountCapabilityDetails\<close> and \<open>Delete\<close> with the
  parent's id; roles have \<open>Revoke\<close> and the \<open>Grant\<close> that returns grants.
\<close>

fun implements :: "'s resource_syncer \<Rightarrow> sdk_interface list" where
  "implements (UserSyncer b) =
     [IResourceSyncerV2, IResourceTargetedSyncer, IAccountManager, IResourceDeleterV2]"
| "implements (RoleSyncer b) =
     [IResourceSyncerV2, IResourceTargetedSyncer, IResourceProvisionerV2]"
| "implements (NodeSyncer b) = [IResourceSyncerV2]"
| "implements (AppSyncer b) = [IResourceSyncerV2]"
| "implements (DatabaseSyncer b) = [IResourceSyncerV2]"

section \<open>Registration\<close>

record 's registry =
  rg_Feeds :: "(string \<times> 's event_feed) list"
  rg_Syncers :: "(string \<times> 's resource_syncer) list"
  rg_Provisioners :: "(string \<times> 's resource_syncer) list"
  rg_Targeted :: "(string \<times> 's resource_syncer) list"
  rg_Managers :: "(string \<times> 's resource_syncer) list"
  rg_Deleters :: "(string \<times> 's resource_syncer) list"
  rg_Accounts :: "(string \<times> 's resource_syncer) list"
  rg_Credentials :: "(string \<times> 's resource_syncer) list"

definition empty_registry :: "'s registry" where
  [go_defs]: "empty_registry = \<lparr>rg_Feeds = [], rg_Syncers = [], rg_Provisioners = [], rg_Targeted = [],
     rg_Managers = [], rg_Deleters = [], rg_Accounts = [], rg_Credentials = []\<rparr>"

text \<open>One interface: nothing when it is not implemented, an error for a duplicate.\<close>

definition add_if ::
    "bool \<Rightarrow> string \<Rightarrow> string \<Rightarrow> 'x \<Rightarrow> (string \<times> 'x) list \<Rightarrow> (string \<times> 'x) list result" where
  [go_defs]: "add_if ok what typeId x m =
     (if \<not> ok then Inr m
      else if map_of m typeId \<noteq> None
        then Inl (Errorf (''error: duplicate resource type found for '' @ what @ '' '' @ typeId))
      else Inr ((typeId, x) # m))"

definition addResourceSyncers :: "string \<Rightarrow> 's resource_syncer \<Rightarrow> 's registry \<Rightarrow> 's registry result" where
  [go_defs]: "addResourceSyncers typeId x rg =
     (if map_of (rg_Syncers rg) typeId \<noteq> None
        then Inl (Errorf (''error: duplicate resource type found for resource builder '' @ typeId))
      else if IResourceSyncer \<in> set (implements x) \<or> IResourceSyncerV2 \<in> set (implements x)
        then Inr (rg\<lparr>rg_Syncers := (typeId, x) # rg_Syncers rg\<rparr>)
      else Inl (Errorf (''error: the resource syncer interface must be implemented for all types ('' @ typeId @ '')'')))"

definition addProvisioner :: "string \<Rightarrow> 's resource_syncer \<Rightarrow> 's registry \<Rightarrow> 's registry result" where
  [go_defs]: "addProvisioner typeId x rg =
     res_bind (add_if (IResourceProvisioner \<in> set (implements x)) ''resource provisioner'' typeId x
       (rg_Provisioners rg)) (\<lambda>m.
     res_bind (add_if (IResourceProvisionerV2 \<in> set (implements x)) ''resource provisioner v2'' typeId x m)
       (\<lambda>m. Inr (rg\<lparr>rg_Provisioners := m\<rparr>)))"

definition addTargetedSyncer :: "string \<Rightarrow> 's resource_syncer \<Rightarrow> 's registry \<Rightarrow> 's registry result" where
  [go_defs]: "addTargetedSyncer typeId x rg =
     res_bind (add_if (IResourceTargetedSyncer \<in> set (implements x)) ''resource targeted syncer'' typeId x
       (rg_Targeted rg)) (\<lambda>m. Inr (rg\<lparr>rg_Targeted := m\<rparr>))"

text \<open>A manager is a deleter too.\<close>

definition addResourceManager :: "string \<Rightarrow> 's resource_syncer \<Rightarrow> 's registry \<Rightarrow> 's registry result" where
  [go_defs]: "addResourceManager typeId x rg =
     (let has = (\<lambda>i. i \<in> set (implements x)) in
      res_bind (add_if (has IResourceManager) ''resource manager'' typeId x (rg_Managers rg)) (\<lambda>ms.
      res_bind (add_if (has IResourceManager \<or> has IResourceDeleter) ''resource deleter'' typeId x
        (rg_Deleters rg)) (\<lambda>ds.
      res_bind (add_if (has IResourceManagerV2) ''resource managerV2'' typeId x ms) (\<lambda>ms.
      res_bind (add_if (has IResourceManagerV2 \<or> has IResourceDeleterV2) ''resource deleterV2'' typeId x ds)
        (\<lambda>ds. Inr (rg\<lparr>rg_Managers := ms, rg_Deleters := ds\<rparr>))))))"

definition addAccountManager :: "string \<Rightarrow> 's resource_syncer \<Rightarrow> 's registry \<Rightarrow> 's registry result" where
  [go_defs]: "addAccountManager typeId x rg =
     (if IOldAccountManager \<in> set (implements x)
      then Inl (Errorf (''error: old account manager interface implemented for '' @ typeId))
      else res_bind (add_if (IAccountManager \<in> set (implements x)) ''account manager'' typeId x
        (rg_Accounts rg)) (\<lambda>m. Inr (rg\<lparr>rg_Accounts := m\<rparr>)))"

definition addCredentialManager :: "string \<Rightarrow> 's resource_syncer \<Rightarrow> 's registry \<Rightarrow> 's registry result" where
  [go_defs]: "addCredentialManager typeId x rg =
     (if IOldCredentialManager \<in> set (implements x)
      then Inl (Errorf (''error: old credential manager interface implemented for '' @ typeId))
      else res_bind (add_if (ICredentialManager \<in> set (implements x)) ''credential manager'' typeId x
        (rg_Credentials rg)) (\<lambda>m. Inr (rg\<lparr>rg_Credentials := m\<rparr>)))"

fun addResourceTypes :: "'s resource_syncer list \<Rightarrow> 's registry \<Rightarrow> 's registry result" where
  "addResourceTypes [] rg = Inr rg"
| "addResourceTypes (x # xs) rg =
     (let typeId = rty_Id (syncer_ResourceType x) in
      res_bind (addResourceSyncers typeId x rg) (\<lambda>rg.
      res_bind (addProvisioner typeId x rg) (\<lambda>rg.
      res_bind (addTargetedSyncer typeId x rg) (\<lambda>rg.
      res_bind (addResourceManager typeId x rg) (\<lambda>rg.
      res_bind (addAccountManager typeId x rg) (\<lambda>rg.
      res_bind (addCredentialManager typeId x rg) (\<lambda>rg. addResourceTypes xs rg)))))))"

definition NewConnector :: "'s clock \<Rightarrow> 's connector \<Rightarrow> 's registry result" where
  [go_defs]: "NewConnector clk d =
     res_bind (addEventFeeds (connector_EventFeeds clk d) []) (\<lambda>feeds.
     addResourceTypes (ResourceSyncers d) (empty_registry\<lparr>rg_Feeds := feeds\<rparr>))"

lemmas registration_defs = addResourceSyncers_def addProvisioner_def addTargetedSyncer_def
  addResourceManager_def addAccountManager_def addCredentialManager_def add_if_def empty_registry_def
  Let_def

section \<open>Capabilities\<close>

datatype capability =
    CAPABILITY_UNSPECIFIED | CAPABILITY_PROVISION | CAPABILITY_SYNC | CAPABILITY_EVENT_FEED
  | CAPABILITY_TICKETING | CAPABILITY_ACCOUNT_PROVISIONING | CAPABILITY_CREDENTIAL_ROTATION
  | CAPABILITY_RESOURCE_CREATE | CAPABILITY_RESOURCE_DELETE | CAPABILITY_SYNC_SECRETS
  | CAPABILITY_ACTIONS | CAPABILITY_TARGETED_SYNC | CAPABILITY_EVENT_FEED_V2
  | CAPABILITY_SERVICE_MODE_TARGETED_SYNC

text \<open>The capabilities of one registered resource type.\<close>

definition type_capabilities :: "'s registry \<Rightarrow> string \<Rightarrow> capability list" where
  [go_defs]: "type_capabilities rg typeId =
     (let has = (\<lambda>m. map_of m typeId \<noteq> None) in
      [CAPABILITY_SYNC] @
      (if has (rg_Targeted rg) then [CAPABILITY_TARGETED_SYNC] else []) @
      (if has (rg_Provisioners rg) then [CAPABILITY_PROVISION] else []) @
      (if has (rg_Accounts rg) then [CAPABILITY_ACCOUNT_PROVISIONING] else []) @
      (if has (rg_Managers rg) then [CAPABILITY_RESOURCE_DELETE, CAPABILITY_RESOURCE_CREATE]
       else if has (rg_Deleters rg) then [CAPABILITY_RESOURCE_DELETE] else []) @
      (if has (rg_Credentials rg) then [CAPABILITY_CREDENTIAL_ROTATION] else []))"

section \<open>Requests\<close>

text \<open>
  The state is that of the world and the role builder's cache. A builder only ever gets a request
  through an interface it implements; the other equations of the dispatch functions are never
  used.
\<close>

fun syncer_List ::
    "'s resource_syncer \<Rightarrow> resource_id option \<Rightarrow> string \<Rightarrow> ('s role_state, resource list \<times> string) io" where
  "syncer_List (UserSyncer b) parent tok =
     io_bind (on_world (user_List (bld_client b) parent)) (\<lambda>rs. io_return (rs, []))"
| "syncer_List (RoleSyncer b) parent tok =
     io_bind (role_List (bld_client b)) (\<lambda>rs. io_return (rs, []))"
| "syncer_List (NodeSyncer b) parent tok =
     io_bind (on_world (node_List (bld_client b) tok)) (\<lambda>(rs, r). io_return (rs, sor_NextPageToken r))"
| "syncer_List (AppSyncer b) parent tok =
     io_bind (on_world (app_List (bld_client b))) (\<lambda>rs. io_return (rs, []))"
| "syncer_List (DatabaseSyncer b) parent tok =
     io_bind (on_world (db_List (bld_client b))) (\<lambda>rs. io_return (rs, []))"

definition sdk_ListResources ::
    "'s registry \<Rightarrow> string \<Rightarrow> resource_id option \<Rightarrow> string \<Rightarrow> ('s role_state, resource list \<times> string) io" where
  "sdk_ListResources rg typeId parent tok = (case map_of (rg_Syncers rg) typeId of
     None \<Rightarrow> io_fail (Errorf (''error: list resources with unknown resource type '' @ typeId))
   | Some x \<Rightarrow>
       io_bind (io_wrap ''error: listing resources failed'' (syncer_List x parent tok)) (\<lambda>(rs, tok').
       if tok \<noteq> [] \<and> tok = tok'
       then io_fail (Errorf ''listing resources failed: next page token unchanged'')
       else io_return (rs, tok')))"

fun syncer_Get ::
    "'s resource_syncer \<Rightarrow> resource_id option \<Rightarrow> resource_id option \<Rightarrow> ('s, resource) io" where
  "syncer_Get (UserSyncer b) rid parent = user_Get (bld_client b) rid parent"
| "syncer_Get (RoleSyncer b) rid parent = role_Get (bld_client b) rid"
| "syncer_Get _ rid parent = io_fail (Panic ''Get not implemented'')"

definition sdk_GetResource ::
    "'s registry \<Rightarrow> resource_id option \<Rightarrow> resource_id option \<Rightarrow> ('s role_state, resource) io" where
  "sdk_GetResource rg rid parent = (case map_of (rg_Targeted rg) (GetResourceType rid) of
     None \<Rightarrow> io_fail (Errorf (''error: get resource with unknown resource type '' @ GetResourceType rid))
   | Some x \<Rightarrow> io_wrap ''error: get resource failed'' (on_world (syncer_Get x rid parent)))"

text \<open>The type a grant request is dispatched by, through the nil-safe getters.\<close>

definition entitlement_type :: "entitlement option \<Rightarrow> string" where
  [go_defs]: "entitlement_type e = (case e of None \<Rightarrow> [] | Some e \<Rightarrow> (case ent_Resource e of
     None \<Rightarrow> [] | Some r \<Rightarrow> GetResourceType (res_Id r)))"

definition no_provisioner :: "string \<Rightarrow> error" where
  [go_defs]: "no_provisioner rt = Errorf (''resource type '' @ rt @ '' does not have provisioner configured'')"

fun syncer_Grant :: "'s resource_syncer \<Rightarrow> resource option \<Rightarrow> entitlement option \<Rightarrow> ('s, unit) io" where
  "syncer_Grant (RoleSyncer b) p e = role_Grant (bld_client b) p e"
| "syncer_Grant _ p e = io_fail (Panic ''Grant not implemented'')"

fun syncer_Revoke :: "'s resource_syncer \<Rightarrow> grant option \<Rightarrow> ('s, unit) io" where
  "syncer_Revoke (RoleSyncer b) g = role_Revoke (bld_client b) g"
| "syncer_Revoke _ g = io_fail (Panic ''Revoke not implemented'')"

fun syncer_Delete :: "'s resource_syncer \<Rightarrow> resource_id option \<Rightarrow> ('s, unit) io" where
  "syncer_Delete (UserSyncer b) rid = user_Delete (bld_client b) rid"
| "syncer_Delete _ rid = io_fail (Panic ''Delete not implemented'')"

definition sdk_DeleteResource :: "'s registry \<Rightarrow> resource_id option \<Rightarrow> ('s role_state, unit) io" where
  "sdk_DeleteResource rg rid =
     (case (case map_of (rg_Managers rg) (GetResourceType rid) of
              None \<Rightarrow> map_of (rg_Deleters rg) (GetResourceType rid) | Some x \<Rightarrow> Some x) of
        None \<Rightarrow> io_fail (Errorf (''resource type '' @ GetResourceType rid @ '' does not have resource Delete() configured''))
      | Some x \<Rightarrow> io_wrap ''error: delete resource failed'' (on_world (syncer_Delete x rid)))"

text \<open>
  With one account manager a request without a type goes to it; a typed one to its type's.
\<close>

fun syncer_CreateAccount ::
    "'s resource_syncer \<Rightarrow> account_info option \<Rightarrow> ('s, resource \<times> plaintext_data list) io" where
  "syncer_CreateAccount (UserSyncer b) ai = CreateAccount (bld_client b) ai"
| "syncer_CreateAccount _ ai = io_fail (Panic ''CreateAccount not implemented'')"

definition account_manager_for :: "'s registry \<Rightarrow> string \<Rightarrow> 's resource_syncer result" where
  [go_defs]: "account_manager_for rg typeId =
     (case rg_Accounts rg of
        [] \<Rightarrow> Inl (Errorf ''connector does not have account manager configured'')
      | am # ams \<Rightarrow>
          if typeId = [] \<and> ams = [] then Inr (snd am)
          else (case map_of (am # ams) (if typeId = [] then ''user'' else typeId) of
            Some x \<Rightarrow> Inr x
          | None \<Rightarrow> Inl (Errorf (if typeId = []
              then ''connector has multiple account managers configured, but no resource type specified, and no default account manager configured''
              else ''connector does not have account manager configured for resource type: '' @ typeId))))"

text \<open>
  The cryptography (\<open>pkg/crypto\<close>, vendored) is a record of parameters: what becomes of the
  credential options of a request, whose local form the connector's \<open>CreateAccount\<close> does not
  read, and the encryption of a plaintext for one configuration. \<open>'o\<close>, \<open>'k\<close> and \<open>'e\<close> are the
  types of the options, of the configurations and of the encrypted data.
\<close>

record ('o, 'k, 'e) crypto =
  cry_ConvertCredentialOptions :: "'o \<Rightarrow> 'k list \<Rightarrow> unit result"
  cry_EncryptFor :: "'k \<Rightarrow> plaintext_data \<Rightarrow> 'e result"

record ('o, 'k) create_account_request =
  car_AccountInfo :: "account_info option"
  car_CredentialOptions :: 'o
  car_EncryptionConfigs :: "'k list"
  car_ResourceTypeId :: string

text \<open>The encryption manager holds the configurations; making one never fails.\<close>

definition NewEncryptionManager :: "'k list \<Rightarrow> 'k list result" where
  [go_defs]: "NewEncryptionManager configs = Inr configs"

definition Encrypt :: "('o, 'k, 'e) crypto \<Rightarrow> 'k list \<Rightarrow> plaintext_data \<Rightarrow> 'e list result" where
  [go_defs]: "Encrypt cry configs cred = traverse (\<lambda>config. cry_EncryptFor cry config cred) configs"

definition sdk_CreateAccount ::
    "('o, 'k, 'e) crypto \<Rightarrow> 's registry \<Rightarrow> ('o, 'k) create_account_request
      \<Rightarrow> ('s role_state, resource \<times> 'e list) io" where
  "sdk_CreateAccount cry rg req =
     io_bind (io_lift (account_manager_for rg (car_ResourceTypeId req))) (\<lambda>x.
     io_bind (io_wrap ''error: converting credential options failed''
       (io_lift (cry_ConvertCredentialOptions cry (car_CredentialOptions req) (car_EncryptionConfigs req)))) (\<lambda>_.
     io_bind (io_wrap ''error: create account failed''
       (on_world (syncer_CreateAccount x (car_AccountInfo req)))) (\<lambda>(res, plaintexts).
     io_bind (io_wrap ''error: creating encryption manager failed''
       (io_lift (NewEncryptionManager (car_EncryptionConfigs req)))) (\<lambda>pkem.
     io_bind (io_lift (traverse (Encrypt cry pkem) plaintexts)) (\<lambda>encrypted.
     io_return (res, concat encrypted))))))"

section \<open>The registry of the connector\<close>

definition connector_registry :: "'s clock \<Rightarrow> 's connector \<Rightarrow> 's registry" where
  "connector_registry clk d =
     (let c = con_Client d; user = UserSyncer (newUserBuilder c); role = RoleSyncer (newRoleBuilder c) in
      \<lparr>rg_Feeds = [(''teleport_audit_events'', newAuditEventFeed clk c),
         (''teleport_usage_events'', newUsageEventFeed clk c)],
       rg_Syncers = [(''database'', DatabaseSyncer (newDbBuilder c)), (''app'', AppSyncer (newAppBuilder c)),
         (''node'', NodeSyncer (newNodeBuilder c)), (''role'', role), (''user'', user)],
       rg_Provisioners = [(''role'', role)], rg_Targeted = [(''role'', role), (''user'', user)],
       rg_Managers = [], rg_Deleters = [(''user'', user)], rg_Accounts = [(''user'', user)],
       rg_Credentials = []\<rparr>)"

lemma NewConnector_registry: "NewConnector clk d = Inr (connector_registry clk d)"
  by (simp add: NewConnector_def connector_EventFeeds_def connector_feeds ResourceSyncers_def
      registration_defs builder_defs connector_registry_def)

lemmas registry_simps = connector_registry_def Let_def newUserBuilder_def newRoleBuilder_def

section \<open>Properties\<close>

text \<open>
  The SDK takes the connector in, with or without a client: no duplicate and no missing
  interface, two feeds, five resource types; and the capabilities it announces are targeted
  sync, accounts and deletion for users, targeted sync and provisioning for roles, and nothing
  but synchronisation for nodes, applications and databases.
\<close>

lemma connector_registers:
  "\<exists>rg. NewConnector clk d = Inr rg \<and>
    map fst (rg_Syncers rg) = [''database'', ''app'', ''node'', ''role'', ''user''] \<and>
    map fst (rg_Feeds rg) = [''teleport_audit_events'', ''teleport_usage_events''] \<and>
    type_capabilities rg ''user'' = [CAPABILITY_SYNC, CAPABILITY_TARGETED_SYNC,
      CAPABILITY_ACCOUNT_PROVISIONING, CAPABILITY_RESOURCE_DELETE] \<and>
    type_capabilities rg ''role'' = [CAPABILITY_SYNC, CAPABILITY_TARGETED_SYNC, CAPABILITY_PROVISION] \<and>
    (\<forall>t \<in> {''node'', ''app'', ''database''}. type_capabilities rg t = [CAPABILITY_SYNC])"
  by (rule exI [of _ "connector_registry clk d"], rule conjI [OF NewConnector_registry])
    (simp add: registry_simps type_capabilities_def)

end
