(* ===== verification/Full_Sync.thy ===== *)
theory Full_Sync
  imports Registration Feed_Cycle
begin

text \<open>
  Listing all resources of a type through the SDK: the pages are followed until the token is
  empty, as the SDK's syncer does. Only nodes (\<open>pkg/connector/nodes.go\<close>) are paged; everything
  else comes in one page.
\<close>

fun read_resources ::
    "nat \<Rightarrow> (string \<Rightarrow> ('s, resource list \<times> string) io) \<Rightarrow> string \<Rightarrow> ('s, resource list) io" where
  "read_resources 0 list_page tok = io_fail (Errorf ''out of fuel'')"
| "read_resources (Suc n) list_page tok =
     io_bind (list_page tok) (\<lambda>(rs, tok').
       if tok' = [] then io_return rs
       else io_bind (read_resources n list_page tok') (\<lambda>rs'. io_return (rs @ rs')))"

section \<open>Nodes page by page\<close>

text \<open>A service that lists its nodes in pages of \<open>k\<close>; the key stands for the position.\<close>

definition serves_nodes ::
    "'s teleport_api \<Rightarrow> (nat \<Rightarrow> string) \<Rightarrow> (string \<Rightarrow> nat) \<Rightarrow> server_v2 list \<Rightarrow> nat \<Rightarrow> bool" where
  "serves_nodes api ekey dkey nodes k \<longleftrightarrow> (\<forall>tok s.
     api_GetResources api \<lparr>lrr_ResourceType = ''node'', lrr_StartKey = tok\<rparr> s =
       (Inr \<lparr>lrs_Resources = map NodeResource (take k (drop (dkey tok) nodes)),
          lrs_NextKey = (if length nodes \<le> dkey tok + k then [] else ekey (dkey tok + k))\<rparr>, s))"

definition server_resource :: "server_v2 \<Rightarrow> resource" where
  "server_resource srv = wrapper_resource_of (NodeResource srv)"

lemma server_resource_sel:
  "res_Id (server_resource srv) = Some \<lparr>rid_ResourceType = ''node'', rid_Resource = md_Revision (srv_Metadata srv)\<rparr>"
  "res_DisplayName (server_resource srv) = srv_Hostname srv"
  by (simp_all add: server_resource_def wrapper_resource_of_def node_resource_of_def)

lemma node_List_page:
  assumes "c = Some tc" "tc_Client tc = Some api" "serves_nodes api ekey dkey nodes k" "list_all server_ok nodes"
  shows "node_List c tok s =
    (Inr (map server_resource (take k (drop (dkey tok) nodes)),
      \<lparr>sor_NextPageToken = (if length nodes \<le> dkey tok + k then [] else ekey (dkey tok + k))\<rparr>), s)"
proof -
  have "list_all wrapper_ok (map NodeResource (take k (drop (dkey tok) nodes)))"
    using assms(4) by (auto simp: list_all_iff dest!: in_set_takeD in_set_dropD intro: wrapper_ok_node)
  from node_conv.traverse_accepts [OF this] show ?thesis
    using assms(1-3) by (simp add: node_List_def GetNodes_def KindNode_def serves_nodes_def
        io_bind_def io_wrap_def io_lift_def io_return_def server_resource_def comp_def)
qed

text \<open>One page through the SDK: the next token is never the one the page was asked for with.\<close>

lemma sdk_node_page:
  assumes "c = Some tc" "tc_Client tc = Some api" "serves_nodes api ekey dkey nodes k" "list_all server_ok nodes"
    and "key_codec ekey dkey" "0 < k"
  shows "sdk_ListResources (connector_registry clk \<lparr>con_Client = c\<rparr>) ''node'' None tok (s, cache) =
    (Inr (map server_resource (take k (drop (dkey tok) nodes)),
      if length nodes \<le> dkey tok + k then [] else ekey (dkey tok + k)), (s, cache))"
proof -
  have "tok \<noteq> ekey (dkey tok + k)"
  proof
    assume "tok = ekey (dkey tok + k)"
    then have "dkey tok = dkey (ekey (dkey tok + k))" by simp
    also have "\<dots> = dkey tok + k" using assms(5) by (simp add: key_codec_def)
    finally show False using assms(6) by simp
  qed
  then show ?thesis
    using node_List_page [OF assms(1-4), of tok s]
    by (simp add: sdk_ListResources_def registry_simps newNodeBuilder_def on_world_def io_bind_def
        io_wrap_def io_return_def)
qed

lemma nodes_from:
  assumes c: "c = Some tc" "tc_Client tc = Some api" "serves_nodes api ekey dkey nodes k" "list_all server_ok nodes"
    and codec: "key_codec ekey dkey" "0 < k"
  shows "if 0 < n \<and> length nodes - dkey tok \<le> k * n
    then read_resources n (sdk_ListResources (connector_registry clk \<lparr>con_Client = c\<rparr>) ''node'' None) tok (s, cache) =
      (Inr (map server_resource (drop (dkey tok) nodes)), (s, cache))
    else fst (read_resources n (sdk_ListResources (connector_registry clk \<lparr>con_Client = c\<rparr>) ''node'' None) tok (s, cache)) =
      Inl (Errorf ''out of fuel'')"
proof (induction n arbitrary: tok)
  case 0
  then show ?case by (simp add: io_fail_def)
next
  case (Suc n)
  let ?list = "sdk_ListResources (connector_registry clk \<lparr>con_Client = c\<rparr>) ''node'' None"
  note page = sdk_node_page [OF c codec, of clk tok s cache]
  show ?case
  proof (cases "length nodes \<le> dkey tok + k")
    case True
    then show ?thesis using page by (simp add: io_bind_def io_return_def)
  next
    case False
    have k: "dkey (ekey (dkey tok + k)) = dkey tok + k" "ekey (dkey tok + k) \<noteq> []"
      using codec(1) by (simp_all add: key_codec_def)
    have split: "take k (drop (dkey tok) nodes) @ drop (dkey tok + k) nodes = drop (dkey tok) nodes"
      using append_take_drop_id [of k "drop (dkey tok) nodes"] by (simp add: add.commute)
    have n: "(0 < n \<and> length nodes - (dkey tok + k) \<le> k * n) = (length nodes - dkey tok \<le> k * Suc n)"
      using False by (cases n) auto
    have whole: "map server_resource (drop (dkey tok) nodes) =
        map server_resource (take k (drop (dkey tok) nodes)) @ map server_resource (drop (dkey tok + k) nodes)"
      by (simp only: split flip: map_append)
    have IH: "if length nodes - dkey tok \<le> k * Suc n
      then read_resources n ?list (ekey (dkey tok + k)) (s, cache) =
        (Inr (map server_resource (drop (dkey tok + k) nodes)), (s, cache))
      else fst (read_resources n ?list (ekey (dkey tok + k)) (s, cache)) = Inl (Errorf ''out of fuel'')"
      using Suc.IH [of "ekey (dkey tok + k)"] unfolding k(1) n .
    have step: "read_resources (Suc n) ?list tok (s, cache) =
      io_bind (read_resources n ?list (ekey (dkey tok + k)))
        (\<lambda>rs'. io_return (map server_resource (take k (drop (dkey tok) nodes)) @ rs')) (s, cache)"
      using page False k(2) by (simp add: io_bind_def)
    show ?thesis
    proof (cases "length nodes - dkey tok \<le> k * Suc n")
      case True
      with IH show ?thesis unfolding step whole by (simp add: io_bind_def io_return_def)
    next
      case out: False
      obtain r st where rest: "read_resources n ?list (ekey (dkey tok + k)) (s, cache) = (r, st)"
        by (metis prod.exhaust)
      with IH out have "r = Inl (Errorf ''out of fuel'')" by simp
      with rest out show ?thesis unfolding step by (simp add: io_bind_def)
    qed
  qed
qed

section \<open>Properties\<close>

text \<open>
  C17: A full listing ends and is complete. On a service that pages its nodes by \<open>k\<close>, following
  the tokens through the SDK from the empty one is done after exactly as many calls as there
  are pages (one when there are no nodes) and returns every node once, in order; with fewer
  calls it is not done. The SDK's guard against an unchanged token never fires. The users,
  roles, applications and databases come in one page whenever their listing succeeds.
\<close>

theorem full_listing:
  assumes "c = Some tc" "tc_Client tc = Some api" "serves_nodes api ekey dkey nodes k" "list_all server_ok nodes"
    and "key_codec ekey dkey" "0 < k" "NewConnector clk \<lparr>con_Client = c\<rparr> = Inr rg"
  shows "(if max 1 ((length nodes + k - 1) div k) \<le> n
      then \<exists>rs. read_resources n (sdk_ListResources rg ''node'' None) [] (s, cache) = (Inr rs, (s, cache)) \<and>
        map res_DisplayName rs = map srv_Hostname nodes \<and>
        map (\<lambda>r. GetResource (res_Id r)) rs = map (\<lambda>srv. md_Revision (srv_Metadata srv)) nodes
      else fst (read_resources n (sdk_ListResources rg ''node'' None) [] (s, cache)) = Inl (Errorf ''out of fuel'')) \<and>
    (\<forall>t \<in> {''user'', ''role'', ''app'', ''database''}. \<forall>rs tok st st'.
      sdk_ListResources rg t None [] st = (Inr (rs, tok), st') \<longrightarrow> tok = [])"
proof
  have rg: "rg = connector_registry clk \<lparr>con_Client = c\<rparr>" using assms(7) by (simp add: NewConnector_registry)
  have d: "dkey [] = 0" using assms(5) by (simp add: key_codec_def)
  have calls: "max 1 ((length nodes + k - 1) div k) \<le> n \<longleftrightarrow> 0 < n \<and> length nodes \<le> k * n"
  proof -
    have "(length nodes + k - 1) div k \<le> n \<longleftrightarrow> length nodes + k - 1 < k * Suc n"
      using assms(6) by (simp add: less_Suc_eq_le [symmetric] div_less_iff_less_mult mult.commute)
    also have "\<dots> \<longleftrightarrow> length nodes \<le> k * n" using assms(6) by auto
    finally show ?thesis by auto
  qed
  show "if max 1 ((length nodes + k - 1) div k) \<le> n
      then \<exists>rs. read_resources n (sdk_ListResources rg ''node'' None) [] (s, cache) = (Inr rs, (s, cache)) \<and>
        map res_DisplayName rs = map srv_Hostname nodes \<and>
        map (\<lambda>r. GetResource (res_Id r)) rs = map (\<lambda>srv. md_Revision (srv_Metadata srv)) nodes
      else fst (read_resources n (sdk_ListResources rg ''node'' None) [] (s, cache)) = Inl (Errorf ''out of fuel'')"
    using nodes_from [OF assms(1-6), of n "[]" clk s cache]
    unfolding rg calls d by (simp add: server_resource_sel comp_def split: if_splits)
  show "\<forall>t \<in> {''user'', ''role'', ''app'', ''database''}. \<forall>rs tok st st'.
      sdk_ListResources rg t None [] st = (Inr (rs, tok), st') \<longrightarrow> tok = []"
    unfolding rg
    by (auto simp: sdk_ListResources_def registry_simps io_return_def elim!: io_bind_InrE io_wrap_InrE)
qed

definition three_nodes :: "server_v2 list" where
  "three_nodes = map (\<lambda>n. \<lparr>srv_Metadata = sample_metadata n, srv_Hostname = n\<rparr>) [''a'', ''b'', ''c'']"

definition fleet_api :: "nat teleport_api" where
  "fleet_api = offline_api\<lparr>api_GetResources := (\<lambda>r s.
     let p = key_position (lrr_StartKey r) in
     (Inr \<lparr>lrs_Resources = map NodeResource (take 2 (drop p three_nodes)),
        lrs_NextKey = (if length three_nodes \<le> p + 2 then [] else position_key (p + 2))\<rparr>, s))\<rparr>"

text \<open>Three nodes in pages of two take two calls.\<close>

theorem full_listing_witness:
  "(\<exists>rs. read_resources 2 (sdk_ListResources
       (connector_registry (\<lambda>s. (40, s)) \<lparr>con_Client = client_of fleet_api\<rparr>) ''node'' None) [] (0, []) =
      (Inr rs, (0, [])) \<and> map res_DisplayName rs = [''a'', ''b'', ''c'']) \<and>
   fst (read_resources 1 (sdk_ListResources
       (connector_registry (\<lambda>s. (40, s)) \<lparr>con_Client = client_of fleet_api\<rparr>) ''node'' None) [] (0, [])) =
      Inl (Errorf ''out of fuel'')"
proof -
  have serves: "serves_nodes fleet_api position_key key_position three_nodes 2"
    by (simp add: serves_nodes_def fleet_api_def Let_def)
  have "valid_utf8 ''a''" "valid_utf8 ''b''" "valid_utf8 ''c''" "valid_utf8 ''r1''" "valid_utf8 ''default''"
    by code_simp+
  then have ok: "list_all server_ok three_nodes"
    by (simp add: three_nodes_def server_ok_def sample_metadata_def)
  have two: "0 < (2 :: nat)" by simp
  note listing = full_listing [OF client_of_def tc_client_eq serves ok position_key_codec two
      NewConnector_registry [of "\<lambda>s. (40, s)"], THEN conjunct1]
  show ?thesis
    using listing [of 2 0 "[]"] listing [of 1 0 "[]"]
    by (auto simp: three_nodes_def simp del: read_resources.simps)
qed

end
