(* ===== verification/Process_Entry.thy ===== *)
theory Process_Entry
  imports Registration
begin

text \<open>
  The entry points: \<open>cmd/baton-teleport/main.go\<close> hands the configuration schema, the
  constructor and a connector without a client to the SDK's runner, and
  \<open>pkg/config/gen/gen.go\<close> hands the schema to the SDK's generator. Both SDK functions are
  parameters; what the runner does with the constructor (\<open>config.RunConnector\<close>, vendored) is
  \<open>run_time_connector\<close>.
\<close>

datatype 's runner_option = WithDefaultCapabilitiesConnectorBuilderV2 "'s connector"

definition version :: string where
  [go_defs]: "version = ''dev''"

definition main ::
    "(string \<Rightarrow> string \<Rightarrow> configuration \<Rightarrow> (teleport_config \<Rightarrow> ('s, 's connector) io)
       \<Rightarrow> 's runner_option list \<Rightarrow> 'r)
      \<Rightarrow> (string list \<Rightarrow> credentials list \<Rightarrow> ('s, 's teleport_api) io) \<Rightarrow> 'r" where
  [go_defs]: "main RunConnector dial =
     RunConnector ''baton-teleport'' version ConfigurationSchema (connector_New dial)
       [WithDefaultCapabilitiesConnectorBuilderV2 \<lparr>con_Client = None\<rparr>]"

definition gen_main :: "(string \<Rightarrow> configuration \<Rightarrow> 'r) \<Rightarrow> 'r" where
  [go_defs]: "gen_main Generate = Generate ''teleport'' ConfigurationSchema"

text \<open>The server the runner builds from a configuration.\<close>

definition run_time_connector ::
    "(teleport_config \<Rightarrow> ('s, 's connector) io) \<Rightarrow> 's clock \<Rightarrow> teleport_config \<Rightarrow> ('s, 's registry) io" where
  [go_defs]: "run_time_connector cf clk cfg =
     io_bind (cf cfg) (\<lambda>connector. io_lift (NewConnector clk connector))"

definition type_table :: "'s registry \<Rightarrow> (string \<times> capability list) list" where
  [go_defs]: "type_table rg = map (\<lambda>(t, x). (t, type_capabilities rg t)) (rg_Syncers rg)"

section \<open>Properties\<close>

text \<open>
  C35: What the process announces without connecting is what it does when connected. The runner
  gets the connector's name, the schema, the constructor and the default connector; the
  server of a configuration is built exactly when the constructor succeeds; and then its
  resource types and their capabilities are those of the default connector, which has no
  client, and its feeds have the same ids.
\<close>

theorem announced_capabilities_hold:
  "\<exists>cf d0 rg0. main (\<lambda>n v schema cf opts. (n, v, schema, cf, opts)) dial =
      (''baton-teleport'', ''dev'', ConfigurationSchema, cf, [WithDefaultCapabilitiesConnectorBuilderV2 d0]) \<and>
    NewConnector clk d0 = Inr rg0 \<and>
    (case cf cfg s of
       (Inl e, s') \<Rightarrow> run_time_connector cf clk cfg s = (Inl e, s')
     | (Inr d, s') \<Rightarrow> \<exists>rg. run_time_connector cf clk cfg s = (Inr rg, s') \<and>
         type_table rg = type_table rg0 \<and> map fst (rg_Feeds rg) = map fst (rg_Feeds rg0))"
proof -
  have table: "type_table (connector_registry clk d) = type_table (connector_registry clk \<lparr>con_Client = None\<rparr>)"
    and feeds: "map fst (rg_Feeds (connector_registry clk d)) = map fst (rg_Feeds (connector_registry clk \<lparr>con_Client = None\<rparr>))"
    for d :: "'a connector"
    by (simp_all add: type_table_def type_capabilities_def registry_simps)
  have "case connector_New dial cfg s of
       (Inl e, s') \<Rightarrow> run_time_connector (connector_New dial) clk cfg s = (Inl e, s')
     | (Inr d, s') \<Rightarrow> \<exists>rg. run_time_connector (connector_New dial) clk cfg s = (Inr rg, s') \<and>
         type_table rg = type_table (connector_registry clk \<lparr>con_Client = None\<rparr>) \<and>
         map fst (rg_Feeds rg) = map fst (rg_Feeds (connector_registry clk \<lparr>con_Client = None\<rparr>))"
    using table feeds
    by (auto simp: run_time_connector_def io_bind_def io_lift_def NewConnector_registry
        split: prod.splits sum.splits)
  then show ?thesis
    by (intro exI [of _ "connector_New dial"] exI [of _ "\<lparr>con_Client = None\<rparr>"]
        exI [of _ "connector_registry clk \<lparr>con_Client = None\<rparr>"])
      (simp add: main_def version_def NewConnector_registry)
qed

end
