(* ===== verification/Test_Helpers.thy ===== *)
theory Test_Helpers
  imports Roles
begin

text \<open>
  \<open>pkg/connector/testHelpers.go\<close>: the values the connector's tests are written with, and how
  they relate to what the connector itself builds. \<open>require.Nil\<close> on an error ends the test, so a
  helper yields the error.
\<close>

definition GetEntitlementForTesting :: "resource \<Rightarrow> string \<Rightarrow> string \<Rightarrow> entitlement" where
  [go_defs]: "GetEntitlementForTesting r resourceDisplayName roleEntitlement =
     NewAssignmentEntitlement r roleEntitlement
       [WithGrantableTo [roleResourceType],
        WithDisplayName (resourceDisplayName @ '' Role '' @ roleEntitlement),
        WithDescription (roleEntitlement @ '' of '' @ resourceDisplayName @ '' Teleport role'')]"

definition GetUserResourceForTesting :: "string \<Rightarrow> string \<Rightarrow> resource result" where
  [go_defs]: "GetUserResourceForTesting name description =
     userResource (Some \<lparr>rid_ResourceType = [], rid_Resource = []\<rparr>)
       \<lparr>usr_Kind = ''user'', usr_Version = ''V7'',
        usr_Metadata = \<lparr>md_Name = name, md_Namespace = ''default'', md_Description = description,
          md_Labels = [], md_Revision = []\<rparr>,
        usr_Roles = [], usr_Traits = None, usr_IsLocked = False, usr_CreatedByConnector = None,
        usr_OIDCIdentities = [], usr_SAMLIdentities = [], usr_GithubIdentities = []\<rparr>"

definition GetRoleResourceForTesting :: "string \<Rightarrow> string \<Rightarrow> resource result" where
  [go_defs]: "GetRoleResourceForTesting name description =
     getRoleResource \<lparr>rol_Metadata = \<lparr>md_Name = name, md_Namespace = ''default'',
       md_Description = description, md_Labels = [], md_Revision = []\<rparr>\<rparr>"

text \<open>
  \<open>CheckFileExists\<close>: \<open>os.Stat\<close> is a parameter; \<open>errors.Is\<close> looks for the error along the chain
  of wrapped ones.
\<close>

definition ErrNotExist :: error where
  [go_defs]: "ErrNotExist = Errorf ''file does not exist''"

fun errors_Is :: "error \<Rightarrow> error \<Rightarrow> bool" where
  "errors_Is (Wrapf m e) target \<longleftrightarrow> Wrapf m e = target \<or> errors_Is e target"
| "errors_Is e target \<longleftrightarrow> e = target"

definition CheckFileExists :: "(string \<Rightarrow> ('s, 'i) io) \<Rightarrow> string \<Rightarrow> 's \<Rightarrow> bool \<times> 's" where
  [go_defs]: "CheckFileExists stat filePath = (\<lambda>s. case stat filePath s of
     (Inl e, s') \<Rightarrow> (\<not> errors_Is e ErrNotExist, s') | (Inr _, s') \<Rightarrow> (True, s'))"

text \<open>A file that cannot be looked at, for lack of permission say, counts as existing.\<close>

lemma exists_unless_missing:
  "stat filePath s = (Inl (Wrapf m e), s') \<Longrightarrow> \<not> errors_Is e ErrNotExist \<Longrightarrow>
     CheckFileExists stat filePath s = (True, s')"
  "stat filePath s = (Inl (Wrapf m ErrNotExist), s') \<Longrightarrow> CheckFileExists stat filePath s = (False, s')"
  by (simp_all add: CheckFileExists_def ErrNotExist_def)

text \<open>
  The tests grant and revoke with values whose ids are those of the synchronisation; the
  test's entitlement is grantable to roles, the connector's to users.
\<close>

lemma test_role_entitlement:
  "\<exists>e. role_Entitlements (Some r) = Inr [e] \<and>
    ent_Id e = ent_Id (GetEntitlementForTesting r name roleMembership) \<and>
    ent_Resource e = ent_Resource (GetEntitlementForTesting r name roleMembership) \<and>
    ent_GrantableTo e = [userResourceType] \<and>
    ent_GrantableTo (GetEntitlementForTesting r name roleMembership) = [roleResourceType]"
  by (rule role_ent.one_membership [of r])
    (simp add: GetEntitlementForTesting_def NewAssignmentEntitlement_def WithGrantableTo_def
      WithDisplayName_def WithDescription_def)

lemma test_user_resource:
  "valid_utf8 name \<Longrightarrow> \<exists>r. GetUserResourceForTesting name description = Inr r \<and>
     res_Id r = Some \<lparr>rid_ResourceType = ''user'', rid_Resource = name\<rparr>"
  by (simp add: GetUserResourceForTesting_def userResource_cases user_text_ok_def user_resource_of_def)

end
