(* ===== verification/Membership_Updates.thy ===== *)
theory Membership_Updates
  imports Provisioning
begin

text \<open>
  \<open>Grant\<close> and \<open>Revoke\<close> of \<open>pkg/connector/roles.go\<close> as what they have in common: they look a user
  up, change the copy and write it back. The locale \<open>read_modify_write\<close> states that contract;
  it is interpreted on both operations, and what follows from it - for unreliable connections
  here, for concurrent calls in \<open>Provisioning_Races\<close> - holds for either.
\<close>

section \<open>A store behind an unreliable connection\<close>

text \<open>
  Every call may fail, with any error. A failed lookup changes nothing; a failed update of a user
  that is there may have taken effect or not. \<open>st\<close> reads the stored users off the state of the world.
\<close>

definition flaky_store :: "('s \<Rightarrow> string \<Rightarrow> user_v2 option) \<Rightarrow> 's teleport_api \<Rightarrow> bool" where
  "flaky_store st api \<longleftrightarrow>
     (\<forall>n b s. case api_GetUser api n b s of
        (Inl e, s') \<Rightarrow> st s' = st s
      | (Inr u, s') \<Rightarrow> st s n = Some u \<and> st s' = st s) \<and>
     (\<forall>u s. md_Name (usr_Metadata u) \<in> dom (st s) \<longrightarrow> (case api_UpdateUser api u s of
        (Inl e, s') \<Rightarrow> st s' \<in> {st s, (st s)(md_Name (usr_Metadata u) \<mapsto> u)}
      | (Inr _, s') \<Rightarrow> st s' = (st s)(md_Name (usr_Metadata u) \<mapsto> u)))"

lemma flaky_GetUser:
  assumes "flaky_store st api" "api_GetUser api n b s = (r, s')"
  shows "st s' = st s" "r = Inr u \<Longrightarrow> st s n = Some u"
proof -
  have "case api_GetUser api n b s of (Inl e, s') \<Rightarrow> st s' = st s
      | (Inr u, s') \<Rightarrow> st s n = Some u \<and> st s' = st s"
    using assms(1) by (auto simp: flaky_store_def)
  then show "st s' = st s" "r = Inr u \<Longrightarrow> st s n = Some u"
    by (simp_all add: assms(2) split: sum.splits)
qed

lemma flaky_UpdateUser:
  assumes "flaky_store st api" "api_UpdateUser api u s = (r, s')" "md_Name (usr_Metadata u) = n"
    and "st s n = Some u1"
  shows "st s' \<in> {st s, (st s)(n \<mapsto> u)}" "r = Inr v \<Longrightarrow> st s' = (st s)(n \<mapsto> u)"
proof -
  have "case api_UpdateUser api u s of
        (Inl e, s') \<Rightarrow> st s' \<in> {st s, (st s)(md_Name (usr_Metadata u) \<mapsto> u)}
      | (Inr _, s') \<Rightarrow> st s' = (st s)(md_Name (usr_Metadata u) \<mapsto> u)"
    using assms(1,3,4) by (simp add: flaky_store_def domI)
  then show "st s' \<in> {st s, (st s)(n \<mapsto> u)}" "r = Inr v \<Longrightarrow> st s' = (st s)(n \<mapsto> u)"
    by (auto simp: assms(2,3) split: sum.splits)
qed

section \<open>The contract of the two operations\<close>

text \<open>A client that is connected to a service.\<close>

definition uses_api :: "'s client_ptr \<Rightarrow> 's teleport_api \<Rightarrow> bool" where
  "uses_api c api \<longleftrightarrow> (\<exists>tc. c = Some tc \<and> tc_Client tc = Some api)"

lemma client_of_uses: "uses_api (client_of api) api"
  by (simp add: uses_api_def client_of_def)

locale read_modify_write =
  fixes op :: "'s client_ptr \<Rightarrow> string \<Rightarrow> string \<Rightarrow> ('s, unit) io"
    and change :: "string \<Rightarrow> string \<Rightarrow> user_v2 \<Rightarrow> user_v2"
    and ok :: "string \<Rightarrow> string \<Rightarrow> bool"
    and msg :: string
  assumes lookup_fails: "uses_api c api \<Longrightarrow> ok role name \<Longrightarrow> api_GetUser api name False s = (Inl e, s1) \<Longrightarrow>
      op c role name s = (Inl e, s1)"
    and lookup_succeeds: "uses_api c api \<Longrightarrow> ok role name \<Longrightarrow> api_GetUser api name False s = (Inr user, s1) \<Longrightarrow>
      op c role name s = (case api_UpdateUser api (change role name user) s1 of (r, s2) \<Rightarrow>
        (res_wrap msg (res_bind r (\<lambda>_. Inr ())), s2))"
    and keeps_metadata: "usr_Metadata (change role name user) = usr_Metadata user"
    and twice: "change role name (change role name user) = change role name user"
begin

text \<open>One attempt, from a store where earlier attempts may have taken effect.\<close>

lemma attempt:
  assumes flaky: "flaky_store st api" and args: "uses_api c api" "ok role name"
    and user: "u0 name = Some user" "md_Name (usr_Metadata user) = name"
    and at: "st s \<in> {u0, u0(name \<mapsto> change role name user)}" and run: "op c role name s = (r, s')"
  shows "st s' \<in> {u0, u0(name \<mapsto> change role name user)} \<and>
    (\<forall>a. r = Inr a \<longrightarrow> st s' = u0(name \<mapsto> change role name user))"
proof -
  obtain g s1 where g: "api_GetUser api name False s = (g, s1)" by (cases "api_GetUser api name False s")
  note look = flaky_GetUser [OF flaky g]
  show ?thesis
  proof (cases g)
    case (Inl e)
    then show ?thesis using lookup_fails [OF args] g run at look(1) by auto
  next
    case (Inr v)
    then have "st s name = Some v" using look(2) by simp
    then have v: "v \<in> {user, change role name user}" using at user(1) by auto
    then have same: "change role name v = change role name user" by (auto simp: twice)
    have name: "md_Name (usr_Metadata (change role name user)) = name"
      using user(2) by (simp add: keeps_metadata)
    obtain w s2 where w: "api_UpdateUser api (change role name user) s1 = (w, s2)"
      by (cases "api_UpdateUser api (change role name user) s1")
    have "r = res_wrap msg (res_bind w (\<lambda>_. Inr ()))" "s' = s2"
      using lookup_succeeds [OF args] g Inr run w same by auto
    then show ?thesis
      using flaky_UpdateUser [OF flaky w name, of v] \<open>st s name = Some v\<close> look(1) at by (cases w) auto
  qed
qed

end

text \<open>Both operations look the user up before anything else.\<close>

lemma lookup_error:
  assumes "uses_api c api" "name \<noteq> []" "api_GetUser api name False s = (Inl e, s1)"
  shows "Wildcard \<noteq> name \<Longrightarrow> role \<noteq> [] \<Longrightarrow>
      role_Grant c (Some (user_ref name)) (Some (membership_of role)) s = (Inl e, s1)"
    and "role_Revoke c (Some (grant_of role name)) s = (Inl e, s1)"
  using assms
  by (auto simp: uses_api_def role_Grant_def role_Revoke_def grant_of_def NewRole_def client_GetUser_def
      intro!: io_bind_Inl)

text \<open>Then they write the changed copy back.\<close>

lemma update_run:
  assumes "uses_api c api" "name \<noteq> []" "api_GetUser api name False s = (Inr user, s1)"
  shows "Wildcard \<noteq> name \<Longrightarrow> role \<noteq> [] \<Longrightarrow>
      role_Grant c (Some (user_ref name)) (Some (membership_of role)) s =
      (case api_UpdateUser api (granted role name user) s1 of (r, s2) \<Rightarrow>
        (res_wrap ''baton-teleport: failed to grant role'' (res_bind r (\<lambda>_. Inr ())), s2))"
    and "role_Revoke c (Some (grant_of role name)) s =
      (case api_UpdateUser api (revoked role name user) s1 of (r, s2) \<Rightarrow>
        (res_wrap ''baton-teleport: failed to revoke role'' (res_bind r (\<lambda>_. Inr ())), s2))"
proof -
  obtain tc where c: "c = Some tc" "tc_Client tc = Some api" using assms(1) by (auto simp: uses_api_def)
  show "Wildcard \<noteq> name \<Longrightarrow> role \<noteq> [] \<Longrightarrow>
      role_Grant c (Some (user_ref name)) (Some (membership_of role)) s =
      (case api_UpdateUser api (granted role name user) s1 of (r, s2) \<Rightarrow>
        (res_wrap ''baton-teleport: failed to grant role'' (res_bind r (\<lambda>_. Inr ())), s2))"
    by (rule role_Grant_run [OF c assms(2) _ _ assms(3)])
  show "role_Revoke c (Some (grant_of role name)) s =
      (case api_UpdateUser api (revoked role name user) s1 of (r, s2) \<Rightarrow>
        (res_wrap ''baton-teleport: failed to revoke role'' (res_bind r (\<lambda>_. Inr ())), s2))"
    by (rule role_Revoke_run [OF c assms(2,3)])
qed

interpretation granting: read_modify_write
  "\<lambda>c role name. role_Grant c (Some (user_ref name)) (Some (membership_of role))"
  granted "\<lambda>role name. name \<noteq> [] \<and> Wildcard \<noteq> name \<and> role \<noteq> []"
  "''baton-teleport: failed to grant role''"
  by unfold_locales
    (elim conjE, rule lookup_error(1), assumption+, elim conjE, rule update_run(1), assumption+,
      simp, rule granted_twice)

interpretation revoking: read_modify_write
  "\<lambda>c role name. role_Revoke c (Some (grant_of role name))"
  revoked "\<lambda>role name. name \<noteq> []" "''baton-teleport: failed to revoke role''"
  by unfold_locales
    (rule lookup_error(2), assumption+, rule update_run(2), assumption+, simp, rule revoked_twice)

end
