(* ===== verification/Retry.thy ===== *)
theory Retry
  imports Registration Membership_Updates "HOL-Library.Word"
begin

text \<open>
  The retry loop the SDK runs around the connector's \<open>Grant\<close> and \<open>Revoke\<close> (\<open>retry/retry.go\<close> and
  \<open>connectorbuilder/resource_provisioner.go\<close>, vendored), and what it makes of the two
  operations of \<open>pkg/connector/roles.go\<close>: calls that may have taken effect although they
  failed are repeated. What the code asks of its surroundings is a record of parameters: the
  grpc code and the rate limit details of an error, the clock, and the wait, which yields
  \<open>False\<close> when the context is done first.
\<close>

section \<open>The retryer\<close>

text \<open>Durations are 64 bit integers of nanoseconds; their arithmetic wraps around.\<close>

type_synonym duration = "64 word"

definition Second :: duration where
  [go_defs]: "Second = 1000000000"

record rate_limit =
  rl_ResetAt :: timestamp
  rl_Remaining :: "64 word"

record 's surroundings =
  sur_Code :: "error \<Rightarrow> nat"
  sur_Details :: "error \<Rightarrow> rate_limit list"
  sur_Now :: "'s clock"
  sur_Wait :: "duration \<Rightarrow> 's \<Rightarrow> bool \<times> 's"

definition code_DeadlineExceeded :: nat where
  [go_defs]: "code_DeadlineExceeded = 4"

definition code_Unavailable :: nat where
  [go_defs]: "code_Unavailable = 14"

record retryer =
  rt_attempts :: "64 word"
  rt_maxAttempts :: "64 word"
  rt_initialDelay :: duration
  rt_maxDelay :: duration

definition NewRetryer :: "64 word \<Rightarrow> duration \<Rightarrow> duration \<Rightarrow> retryer" where
  [go_defs]: "NewRetryer maxAttempts initialDelay maxDelay =
     \<lparr>rt_attempts = 0, rt_maxAttempts = maxAttempts,
      rt_initialDelay = (if initialDelay = 0 then Second else initialDelay),
      rt_maxDelay = (if maxDelay = 0 then 60 * Second else maxDelay)\<rparr>"

text \<open>\<open>time.Until\<close> stops at the ends of the range of a duration.\<close>

definition Until :: "time \<Rightarrow> time \<Rightarrow> duration" where
  [go_defs]: "Until t nw = word_of_int (max (- (2 ^ 63)) (min (2 ^ 63 - 1) (t - nw)))"

text \<open>
  Rounding up to whole seconds. The code goes through a floating point number of seconds, which
  is exact enough for the waits that matter: anything above the maximal delay is cut.
\<close>

definition ceil_seconds :: "duration \<Rightarrow> duration" where
  [go_defs]: "ceil_seconds d = word_of_int ((sint d + 999999999) div 1000000000) * Second"

text \<open>The first rate limit in the details that says how long to wait overrides the backoff.\<close>

fun limited_wait :: "'s clock \<Rightarrow> rate_limit list \<Rightarrow> duration \<Rightarrow> 's \<Rightarrow> duration \<times> 's" where
  "limited_wait clk [] wait s = (wait, s)"
| "limited_wait clk (d # ds) wait s =
     (let (nw, s') = clk s;
          waitResetAt = Until (AsTime (rl_ResetAt d)) nw;
          remaining = rl_Remaining d
      in if sint waitResetAt \<le> 0 then limited_wait clk ds wait s'
         else if sint remaining \<le> 0 then (waitResetAt, s')
         else let perRequest = ceil_seconds (word_of_int (sint waitResetAt div sint remaining))
              in if 0 < sint perRequest then (perRequest, s')
                 else limited_wait clk ds wait s')"

definition retryable :: "'s surroundings \<Rightarrow> error \<Rightarrow> bool" where
  [go_defs]: "retryable env e \<longleftrightarrow> sur_Code env e \<in> {code_Unavailable, code_DeadlineExceeded}"

text \<open>How long to wait before the retry that follows the given number of attempts.\<close>

definition retry_delay ::
    "'s surroundings \<Rightarrow> retryer \<Rightarrow> error \<Rightarrow> 's \<Rightarrow> duration \<times> 's" where
  [go_defs]: "retry_delay env r e s =
     (let wait = (if 2 ^ 63 - 1 < unat (rt_attempts r) then rt_maxDelay r
                  else rt_attempts r * rt_initialDelay r);
          (wait, s') = limited_wait (sur_Now env) (sur_Details env e) wait s
      in (if sint (rt_maxDelay r) < sint wait then rt_maxDelay r else wait, s'))"

definition ShouldWaitAndRetry ::
    "'s surroundings \<Rightarrow> error option \<Rightarrow> retryer \<Rightarrow> 's \<Rightarrow> bool \<times> retryer \<times> 's" where
  "ShouldWaitAndRetry env err r s = (case err of
     None \<Rightarrow> (True, r\<lparr>rt_attempts := 0\<rparr>, s)
   | Some e \<Rightarrow>
       if \<not> retryable env e then (False, r, s)
       else
         let r = r\<lparr>rt_attempts := rt_attempts r + 1\<rparr> in
         if 0 < rt_maxAttempts r \<and> rt_maxAttempts r < rt_attempts r then (False, r, s)
         else
           let (wait, s1) = retry_delay env r e s; (elapsed, s2) = sur_Wait env wait s1
           in (elapsed, r, s2))"

section \<open>The loop\<close>

text \<open>A panic leaves the loop at once. With no maximal number of attempts it may not end.\<close>

fun is_panic :: "error \<Rightarrow> bool" where
  "is_panic (Panic m) \<longleftrightarrow> True"
| "is_panic e \<longleftrightarrow> False"

partial_function (option) retry_loop ::
    "'s surroundings \<Rightarrow> ('s, 'a) io \<Rightarrow> retryer \<Rightarrow> 's \<Rightarrow> ('a result \<times> 's) option" where
  "retry_loop env call r s = (case call s of
     (Inr a, s') \<Rightarrow> Some (Inr a, s')
   | (Inl e, s') \<Rightarrow>
       if is_panic e then Some (Inl e, s')
       else (case ShouldWaitAndRetry env (Some e) r s' of
         (again, r', s'') \<Rightarrow>
           if again then retry_loop env call r' s'' else Some (Inl e, s'')))"

definition provisioning_retryer :: retryer where
  [go_defs]: "provisioning_retryer = NewRetryer 3 (15 * Second) (60 * Second)"

definition wrapped :: "string \<Rightarrow> ('a result \<times> 's) option \<Rightarrow> ('a result \<times> 's) option" where
  [go_defs]: "wrapped msg = map_option (\<lambda>(r, s). (res_wrap msg r, s))"

text \<open>The SDK's \<open>Grant\<close> and \<open>Revoke\<close>: dispatch, then the loop around the builder's operation.\<close>

definition builder_Grant ::
    "'s role_state surroundings \<Rightarrow> 's registry \<Rightarrow> resource option \<Rightarrow> entitlement option
      \<Rightarrow> 's role_state \<Rightarrow> (unit result \<times> 's role_state) option" where
  "builder_Grant env rg p e s = (case map_of (rg_Provisioners rg) (entitlement_type e) of
     None \<Rightarrow> Some (Inl (no_provisioner (entitlement_type e)), s)
   | Some x \<Rightarrow> wrapped ''grant failed''
       (retry_loop env (on_world (syncer_Grant x p e)) provisioning_retryer s))"

definition builder_Revoke ::
    "'s role_state surroundings \<Rightarrow> 's registry \<Rightarrow> grant option
      \<Rightarrow> 's role_state \<Rightarrow> (unit result \<times> 's role_state) option" where
  "builder_Revoke env rg g s =
     (let rt = entitlement_type (case g of None \<Rightarrow> None | Some g \<Rightarrow> gr_Entitlement g) in
      case map_of (rg_Provisioners rg) rt of
        None \<Rightarrow> Some (Inl (no_provisioner rt), s)
      | Some x \<Rightarrow> wrapped ''revoke failed''
          (retry_loop env (on_world (syncer_Revoke x g)) provisioning_retryer s))"

section \<open>The loop with a limit\<close>

text \<open>What the loop does when \<open>n\<close> retries are left.\<close>

fun tries :: "'s surroundings \<Rightarrow> ('s, 'a) io \<Rightarrow> retryer \<Rightarrow> nat \<Rightarrow> ('s, 'a) io" where
  "tries env call r 0 s = call s"
| "tries env call r (Suc n) s = (case call s of
     (Inr a, s') \<Rightarrow> (Inr a, s')
   | (Inl e, s') \<Rightarrow>
       if is_panic e \<or> \<not> retryable env e then (Inl e, s')
       else
         let r = r\<lparr>rt_attempts := rt_attempts r + 1\<rparr>;
             (wait, s1) = retry_delay env r e s'; (elapsed, s2) = sur_Wait env wait s1
         in if elapsed then tries env call r n s2 else (Inl e, s2))"

lemma attempts_Suc:
  fixes a m :: "64 word"
  assumes "unat a + n = unat m" "m < - 1"
  shows "unat (a + 1) = Suc (unat a)"
proof -
  have "unat m < unat (- 1 :: 64 word)" using assms(2) by (simp only: word_less_nat_alt)
  moreover have "unat (- 1 :: 64 word) = 2 ^ 64 - 1"
    by (simp add: unsigned_minus_1_eq_mask mask_eq_exp_minus_1)
  ultimately have "unat a + 1 < 2 ^ 64" using assms(1) by linarith
  then show ?thesis by (simp add: unat_word_ariths)
qed

lemma retry_loop_tries:
  assumes "0 < rt_maxAttempts r" "rt_maxAttempts r < - 1"
    and "unat (rt_attempts r) + n = unat (rt_maxAttempts r)"
  shows "retry_loop env call r s = Some (tries env call r n s)"
  using assms
proof (induction n arbitrary: r s)
  case 0
  have "unat (rt_attempts r + 1) = Suc (unat (rt_attempts r))"
    by (rule attempts_Suc [OF 0(3,2)])
  then have "rt_maxAttempts r < rt_attempts r + 1"
    using 0(3) by (simp add: word_less_nat_alt)
  then show ?case
    using 0(1) by (subst retry_loop.simps)
      (auto simp: ShouldWaitAndRetry_def split: prod.splits sum.splits)
next
  case (Suc n)
  let ?r = "r\<lparr>rt_attempts := rt_attempts r + 1\<rparr>"
  have a: "unat (rt_attempts r + 1) = Suc (unat (rt_attempts r))"
    by (rule attempts_Suc [OF Suc.prems(3,2)])
  then have "\<not> rt_maxAttempts r < rt_attempts r + 1"
    using Suc.prems(3) by (simp add: word_less_nat_alt)
  moreover have "retry_loop env call ?r s = Some (tries env call ?r n s)" for s
    using Suc.prems a by (intro Suc.IH) simp_all
  ultimately show ?case
    by (subst retry_loop.simps)
      (auto simp: ShouldWaitAndRetry_def Let_def split: prod.splits sum.splits)
qed

lemma provisioning_retryer_sel [simp]:
  "rt_attempts provisioning_retryer = 0" "rt_maxAttempts provisioning_retryer = 3"
  "rt_initialDelay provisioning_retryer = 15 * Second" "rt_maxDelay provisioning_retryer = 60 * Second"
  by (simp_all add: provisioning_retryer_def NewRetryer_def Second_def)

lemma provisioning_loop:
  "retry_loop env call provisioning_retryer s = Some (tries env call provisioning_retryer 3 s)"
  by (rule retry_loop_tries) simp_all

text \<open>An invariant of the calls and of the surroundings is one of the loop.\<close>

lemma tries_inv:
  assumes call: "\<And>s r s'. I s \<Longrightarrow> call s = (r, s') \<Longrightarrow> I s' \<and> (\<forall>a. r = Inr a \<longrightarrow> Q s')"
    and env: "\<And>r e s. I s \<Longrightarrow> I (snd (retry_delay env r e s))" "\<And>d s. I s \<Longrightarrow> I (snd (sur_Wait env d s))"
    and "I s" "tries env call r n s = (res, s')"
  shows "I s' \<and> (\<forall>a. res = Inr a \<longrightarrow> Q s')"
  using assms(4,5)
proof (induction n arbitrary: r s)
  case 0
  then show ?case using call by simp
next
  case (Suc n)
  obtain r1 s1 where c: "call s = (r1, s1)" by (cases "call s")
  note I1 = call [OF Suc.prems(1) c]
  show ?case
  proof (cases r1)
    case (Inr a)
    then show ?thesis using Suc.prems(2) c I1 by auto
  next
    case (Inl e)
    let ?r = "r\<lparr>rt_attempts := rt_attempts r + 1\<rparr>"
    obtain w s2 where w: "retry_delay env ?r e s1 = (w, s2)" by (cases "retry_delay env ?r e s1")
    obtain m s3 where m: "sur_Wait env w s2 = (m, s3)" by (cases "sur_Wait env w s2")
    have "I s3" using env(1) [of s1 ?r e] env(2) [of s2 w] I1 w m by simp
    then show ?thesis
      using Suc.prems(2) Suc.IH [of s3 ?r] c Inl w m I1
      by (auto simp: Let_def split: if_splits)
  qed
qed

text \<open>The delay only reads the clock.\<close>

lemma limited_wait_keeps:
  "(\<And>s. I s \<Longrightarrow> I (snd (clk s))) \<Longrightarrow> I s \<Longrightarrow> I (snd (limited_wait clk ds w s))"
proof (induction ds arbitrary: s)
  case (Cons d ds)
  obtain t s' where c: "clk s = (t, s')" by (cases "clk s")
  have "I s'" using Cons.prems(1) [OF Cons.prems(2)] c by simp
  then show ?case using Cons.IH [OF Cons.prems(1), of s'] by (simp add: Let_def c)
qed simp

lemma retry_delay_keeps:
  assumes "\<And>s. I s \<Longrightarrow> I (snd (sur_Now env s))" "I s"
  shows "I (snd (retry_delay env r e s))"
  using limited_wait_keeps [of I "sur_Now env", OF assms]
  by (simp add: retry_delay_def Let_def split_beta)

section \<open>Calls and waiting are bounded\<close>

lemma limited_wait_positive: "0 < sint w \<Longrightarrow> 0 < sint (fst (limited_wait clk ds w s))"
proof (induction ds arbitrary: s)
  case (Cons d ds)
  obtain t s' where "clk s = (t, s')" by (cases "clk s")
  then show ?case using Cons.IH [OF Cons.prems, of s'] by (simp add: Let_def)
qed simp

text \<open>The delays of the provisioning loop: positive, at most a minute, and linear by default.\<close>

lemma provisioning_delay:
  fixes k :: "64 word"
  assumes "k \<in> {1, 2, 3}"
  defines "r \<equiv> provisioning_retryer\<lparr>rt_attempts := k\<rparr>"
  shows "0 < sint (fst (retry_delay env r e s))" "sint (fst (retry_delay env r e s)) \<le> 60000000000"
    and "sur_Details env e = [] \<Longrightarrow> sint (fst (retry_delay env r e s)) = 15000000000 * uint k"
proof -
  let ?w = "k * (15 * Second)"
  have w: "sint ?w = 15000000000 * uint k" "sint (60 * Second) = 60000000000" "unat k \<le> 2 ^ 63 - 1"
    using assms(1) by (auto simp: Second_def)
  then have pos: "0 < sint (fst (limited_wait (sur_Now env) (sur_Details env e) ?w s))"
    using assms(1) by (intro limited_wait_positive) auto
  have eq: "fst (retry_delay env r e s) =
      (if sint (60 * Second) < sint (fst (limited_wait (sur_Now env) (sur_Details env e) ?w s)) then 60 * Second
       else fst (limited_wait (sur_Now env) (sur_Details env e) ?w s))"
    using w(3) by (simp add: retry_delay_def r_def Let_def split_beta)
  show "0 < sint (fst (retry_delay env r e s))" using pos w(2) by (simp add: eq)
  show "sint (fst (retry_delay env r e s)) \<le> 60000000000" using w(2) by (simp add: eq)
  show "sur_Details env e = [] \<Longrightarrow> sint (fst (retry_delay env r e s)) = 15000000000 * uint k"
    using w assms(1) by (auto simp: eq)
qed

text \<open>\<open>calls\<close> and \<open>waited\<close> are ghosts in the state: the calls made and the nanoseconds waited.\<close>

definition metered :: "('s \<Rightarrow> nat) \<Rightarrow> ('s \<Rightarrow> int) \<Rightarrow> 's surroundings \<Rightarrow> ('s, 'a) io \<Rightarrow> bool" where
  "metered calls waited env call \<longleftrightarrow>
     (\<forall>s. calls (snd (call s)) = Suc (calls s) \<and> waited (snd (call s)) = waited s) \<and>
     (\<forall>s. calls (snd (sur_Now env s)) = calls s \<and> waited (snd (sur_Now env s)) = waited s) \<and>
     (\<forall>d s. calls (snd (sur_Wait env d s)) = calls s \<and> waited (snd (sur_Wait env d s)) = waited s + sint d)"

lemma metered_call:
  assumes "metered calls waited env call" "call s = (r, s')"
  shows "calls s' = Suc (calls s)" "waited s' = waited s"
  using assms by (metis metered_def snd_conv)+

lemma metered_wait:
  assumes "metered calls waited env call" "sur_Wait env d s = (elapsed, s')"
  shows "calls s' = calls s" "waited s' = waited s + sint d"
  using assms by (metis metered_def snd_conv)+

lemma metered_delay:
  assumes "metered calls waited env call" "retry_delay env r e s = (w, s')"
  shows "calls s' = calls s" "waited s' = waited s"
  using retry_delay_keeps [of "\<lambda>s'. calls s' = calls s \<and> waited s' = waited s" env s r e] assms
  by (auto simp: metered_def)

lemma metered_tries:
  assumes m: "metered calls waited env call" and "n \<le> 3"
    and "r = provisioning_retryer\<lparr>rt_attempts := of_nat (3 - n)\<rparr>" "tries env call r n s = (res, s')"
  shows "calls s < calls s' \<and> calls s' \<le> calls s + Suc n \<and> waited s \<le> waited s' \<and>
    waited s' \<le> waited s + 60000000000 * int n \<and>
    ((\<forall>e. sur_Details env e = []) \<longrightarrow> 2 * waited s' \<le> 2 * waited s + 15000000000 * (int n * (7 - int n))) \<and>
    (\<forall>e. res = Inl e \<and> calls s' < calls s + Suc n \<longrightarrow>
       is_panic e \<or> \<not> retryable env e \<or> (\<exists>d t. \<not> fst (sur_Wait env d t)))"
  using assms(2-4)
proof (induction n arbitrary: r s)
  case 0
  moreover have "calls (snd (call s)) = Suc (calls s)" "waited (snd (call s)) = waited s"
    using m by (auto simp: metered_def)
  ultimately show ?case by simp
next
  case (Suc n)
  obtain r1 s1 where c: "call s = (r1, s1)" by (cases "call s")
  have s1: "calls s1 = Suc (calls s)" "waited s1 = waited s"
    using metered_call [OF m c] by simp_all
  let ?k = "of_nat (3 - n) :: 64 word"
  let ?r = "provisioning_retryer\<lparr>rt_attempts := ?k\<rparr>"
  have k: "?k \<in> {1, 2, 3}" "uint ?k = 3 - int n"
    and r: "r\<lparr>rt_attempts := rt_attempts r + 1\<rparr> = ?r"
    using Suc.prems(1,2) by (auto simp: le_Suc_eq numeral_3_eq_3)
  show ?case
  proof (cases "\<exists>e. r1 = Inl e \<and> \<not> is_panic e \<and> retryable env e")
    case False
    then have "res = r1" "s' = s1"
      using Suc.prems(3) c by (auto split: sum.splits if_splits)
    then show ?thesis using False s1 Suc.prems(1) by auto
  next
    case True
    then obtain e where e: "r1 = Inl e" "\<not> is_panic e" "retryable env e" by blast
    obtain w s2 where w: "retry_delay env ?r e s1 = (w, s2)" by (cases "retry_delay env ?r e s1")
    obtain elapsed s3 where m3: "sur_Wait env w s2 = (elapsed, s3)" by (cases "sur_Wait env w s2")
    have s3: "calls s3 = Suc (calls s)" "waited s3 = waited s + sint w"
      using metered_wait [OF m m3] metered_delay [OF m w] s1 by simp_all
    note delay = provisioning_delay [OF k(1), of env e s1, unfolded w fst_conv k(2)]
    have run: "(if elapsed then tries env call ?r n s3 else (Inl e, s3)) = (res, s')"
      using Suc.prems(3) c e w m3 r by (simp add: Let_def)
    show ?thesis
    proof (cases elapsed)
      case True
      have "n \<le> 3" "tries env call ?r n s3 = (res, s')" using Suc.prems(1) run True by simp_all
      note ih = Suc.IH [OF this(1) refl this(2)]
      show ?thesis using ih s3 delay by (auto simp: algebra_simps)
    next
      case False
      have "\<not> fst (sur_Wait env w s2)" using m3 False by simp
      moreover have "int n * (int n * 15000000000) \<le> 30000000000 * int n"
        using Suc.prems(1) by (auto simp: le_Suc_eq numeral_3_eq_3)
      ultimately show ?thesis using run False s3 delay by (auto simp: algebra_simps)
    qed
  qed
qed

section \<open>The loop around the connector's operations\<close>

text \<open>Waiting and reading the clock leave the stored users alone.\<close>

definition leaves_store ::
    "('s \<Rightarrow> string \<Rightarrow> user_v2 option) \<Rightarrow> 's role_state surroundings \<Rightarrow> bool" where
  "leaves_store st env \<longleftrightarrow> (\<forall>s. st (fst (snd (sur_Now env s))) = st (fst s)) \<and>
     (\<forall>d s. st (fst (snd (sur_Wait env d s))) = st (fst s))"

context read_modify_write
begin

lemma retried:
  assumes "flaky_store st api" "uses_api c api" "ok role name" "leaves_store st env"
    and "st s name = Some user" "md_Name (usr_Metadata user) = name"
  obtains res s' cache' where
    "wrapped m (retry_loop env (on_world (op c role name)) provisioning_retryer (s, cache)) = Some (res, (s', cache'))"
    "st s' \<in> {st s, (st s)(name \<mapsto> change role name user)}"
    "\<And>a. res = Inr a \<Longrightarrow> st s' = (st s)(name \<mapsto> change role name user)"
proof -
  let ?I = "\<lambda>t :: 's role_state. st (fst t) \<in> {st s, (st s)(name \<mapsto> change role name user)}"
  let ?Q = "\<lambda>t :: 's role_state. st (fst t) = (st s)(name \<mapsto> change role name user)"
  obtain res s' cache' where run:
    "tries env (on_world (op c role name)) provisioning_retryer 3 (s, cache) = (res, (s', cache'))"
    by (metis surj_pair)
  have call: "?I t' \<and> (\<forall>a. r = Inr a \<longrightarrow> ?Q t')"
    if at: "?I t" and on: "on_world (op c role name) t = (r, t')" for t r t'
  proof -
    obtain s1 c1 where t: "t = (s1, c1)" by (cases t)
    obtain s2 where o: "op c role name s1 = (r, s2)" "t' = (s2, c1)"
      using on by (auto simp: t on_world_def Let_def split: prod.splits)
    show ?thesis
      using attempt [where ?u0.0 = "st s" and s = s1, OF assms(1-3,5,6) _ o(1)] at by (simp add: t o(2))
  qed
  have env: "?I (snd (retry_delay env r e t))" "?I (snd (sur_Wait env d t))" if "?I t" for r e d t
  proof -
    have keeps: "st (fst (snd (sur_Now env t))) = st (fst t)" "st (fst (snd (sur_Wait env d t))) = st (fst t)"
      for d and t :: "'s role_state"
      using assms(4) by (simp_all only: leaves_store_def)
    show "?I (snd (retry_delay env r e t))"
      by (rule retry_delay_keeps [of ?I]) (simp_all only: keeps that)
    show "?I (snd (sur_Wait env d t))" using that by (simp only: keeps)
  qed
  have "?I (s', cache') \<and> (\<forall>a. res = Inr a \<longrightarrow> ?Q (s', cache'))"
    by (rule tries_inv [where I = ?I and Q = ?Q, OF call env _ run]) simp_all
  then show thesis
    by (intro that [of "res_wrap m res" s' cache']) (auto simp: provisioning_loop run wrapped_def)
qed

end

lemma builder_Grant_role:
  assumes "NewConnector clk d = Inr rg"
  shows "builder_Grant env rg (Some (user_ref name)) (Some (membership_of role)) =
    (\<lambda>s. wrapped ''grant failed'' (retry_loop env
       (on_world (role_Grant (con_Client d) (Some (user_ref name)) (Some (membership_of role)))) provisioning_retryer s))"
proof -
  have "rg = connector_registry clk d" using assms by (simp add: NewConnector_registry)
  then show ?thesis by (simp add: fun_eq_iff builder_Grant_def registry_simps entitlement_type_def)
qed

lemma builder_Revoke_role:
  assumes "NewConnector clk d = Inr rg"
  shows "builder_Revoke env rg (Some (grant_of role name)) =
    (\<lambda>s. wrapped ''revoke failed'' (retry_loop env
       (on_world (role_Revoke (con_Client d) (Some (grant_of role name)))) provisioning_retryer s))"
proof -
  have "rg = connector_registry clk d" using assms by (simp add: NewConnector_registry)
  then show ?thesis
    by (simp add: fun_eq_iff builder_Revoke_def registry_simps entitlement_type_def grant_of_def)
qed

section \<open>Properties\<close>

text \<open>
  C9: Provisioning through the retry loop ends within bounds, whatever the operation, the
  service and the details of its errors do: after at least one and at most four calls and at
  most three minutes of waiting, or a minute and a half when no error asks for a longer wait;
  and an error with fewer than four calls is one that is not to be retried, or the context was
  done.
\<close>

theorem retries_are_bounded:
  assumes "metered calls waited env call"
  shows "\<exists>res s'. retry_loop env call provisioning_retryer s = Some (res, s') \<and>
    calls s < calls s' \<and> calls s' \<le> calls s + 4 \<and>
    waited s \<le> waited s' \<and> waited s' \<le> waited s + 180 * 1000000000 \<and>
    ((\<forall>e. sur_Details env e = []) \<longrightarrow> waited s' \<le> waited s + 90 * 1000000000) \<and>
    (\<forall>e. res = Inl e \<and> calls s' < calls s + 4 \<longrightarrow>
       is_panic e \<or> \<not> retryable env e \<or> (\<exists>d t. \<not> fst (sur_Wait env d t)))"
proof -
  obtain res s' where run: "tries env call provisioning_retryer 3 s = (res, s')"
    by (cases "tries env call provisioning_retryer 3 s")
  have "provisioning_retryer = provisioning_retryer\<lparr>rt_attempts := of_nat (3 - 3)\<rparr>" by simp
  note bounds = metered_tries [OF assms order.refl this run]
  have half: "2 * x \<le> 2 * y + 180000000000 \<longleftrightarrow> x \<le> y + 90000000000" for x y :: int by auto
  show ?thesis
    by (intro exI [of _ res] exI [of _ s']) (use bounds in \<open>simp add: provisioning_loop run half del: tries.simps\<close>)
qed

text \<open>A service that is never available, in a state that counts calls and waiting.\<close>

definition patient :: "(nat \<times> int) surroundings" where
  "patient = \<lparr>sur_Code = (\<lambda>_. code_Unavailable), sur_Details = (\<lambda>_. []), sur_Now = (\<lambda>s. (0, s)),
     sur_Wait = (\<lambda>d (k, w). (True, (k, w + sint d)))\<rparr>"

definition unavailable :: "(nat \<times> int, unit) io" where
  "unavailable = (\<lambda>(k, w). (Inl (Errorf ''unavailable''), (Suc k, w)))"

lemma patient_metered: "metered fst snd patient unavailable"
  by (simp add: metered_def patient_def unavailable_def split_beta)

lemma unavailable_fails: "fst (tries patient unavailable r n s) = Inl (Errorf ''unavailable'')"
  by (induction n arbitrary: r s)
    (auto simp: unavailable_def patient_def retryable_def code_Unavailable_def Let_def split: prod.splits)

theorem retries_are_bounded_witness:
  "\<exists>w. retry_loop patient unavailable provisioning_retryer (0, 0) = Some (Inl (Errorf ''unavailable''), (4, w)) \<and>
    0 \<le> w \<and> w \<le> 90 * 1000000000"
proof -
  obtain res s' where r: "retry_loop patient unavailable provisioning_retryer (0, 0) = Some (res, s')"
    "fst s' \<le> 4" "0 \<le> snd s'" "snd s' \<le> 90 * 1000000000"
    "res = Inl e \<Longrightarrow> fst s' < 4 \<Longrightarrow>
       is_panic e \<or> \<not> retryable patient e \<or> (\<exists>d t. \<not> fst (sur_Wait patient d t))" for e
    using retries_are_bounded [OF patient_metered, of "(0, 0)"] by (auto simp: patient_def)
  have "res = Inl (Errorf ''unavailable'')"
    using r(1) unavailable_fails [of provisioning_retryer 3 "(0, 0)"] by (simp add: provisioning_loop)
  moreover from this have "fst s' = 4"
    using r(2) r(5) [of "Errorf ''unavailable''"]
    by (fastforce simp: retryable_def patient_def code_Unavailable_def)
  ultimately show ?thesis using r by (metis prod.collapse)
qed

text \<open>
  C4: A membership is provisioned exactly once, however unreliable the connection is. When any
  call may fail, and a failed update may have taken effect nevertheless, the SDK's \<open>Grant\<close>
  returns; if it reports success the store is the one that a single \<open>Grant\<close> without
  failures leaves, and if it reports an error the store is that one or unchanged. The same
  holds of \<open>Revoke\<close>.
\<close>

theorem retried_provisioning_is_once:
  assumes "NewConnector clk d = Inr rg" "uses_api (con_Client d) api" "flaky_store st api" "leaves_store st env"
    and "st s name = Some user" "md_Name (usr_Metadata user) = name"
    and "name \<noteq> []" "Wildcard \<noteq> name" "role \<noteq> []"
  shows "(\<exists>res s' cache'. builder_Grant env rg (Some (user_ref name)) (Some (membership_of role)) (s, cache) =
        Some (res, (s', cache')) \<and>
      st s' \<in> {st s, (st s)(name \<mapsto> granted role name user)} \<and>
      (res = Inr () \<longrightarrow> st s' = (st s)(name \<mapsto> granted role name user))) \<and>
    (\<exists>res s' cache'. builder_Revoke env rg (Some (grant_of role name)) (s, cache) =
        Some (res, (s', cache')) \<and>
      st s' \<in> {st s, (st s)(name \<mapsto> revoked role name user)} \<and>
      (res = Inr () \<longrightarrow> st s' = (st s)(name \<mapsto> revoked role name user)))"
proof
  have args: "name \<noteq> [] \<and> Wildcard \<noteq> name \<and> role \<noteq> []" using assms(7-9) by simp
  show "\<exists>res s' cache'. builder_Grant env rg (Some (user_ref name)) (Some (membership_of role)) (s, cache) =
        Some (res, (s', cache')) \<and>
      st s' \<in> {st s, (st s)(name \<mapsto> granted role name user)} \<and>
      (res = Inr () \<longrightarrow> st s' = (st s)(name \<mapsto> granted role name user))"
    unfolding builder_Grant_role [OF assms(1)]
    by (rule granting.retried [where s = s, OF assms(3,2) args assms(4,5,6), of "''grant failed''" cache]) blast
  show "\<exists>res s' cache'. builder_Revoke env rg (Some (grant_of role name)) (s, cache) =
        Some (res, (s', cache')) \<and>
      st s' \<in> {st s, (st s)(name \<mapsto> revoked role name user)} \<and>
      (res = Inr () \<longrightarrow> st s' = (st s)(name \<mapsto> revoked role name user))"
    unfolding builder_Revoke_role [OF assms(1)]
    by (rule revoking.retried [where s = s, OF assms(3,2,7,4,5,6), of "''revoke failed''" role cache]) blast
qed

text \<open>
  A store that loses the answers of its first updates: the number in the state says how many.
\<close>

definition lossy_api :: "((string \<Rightarrow> user_v2 option) \<times> nat) teleport_api" where
  "lossy_api = offline_api\<lparr>
     api_GetUser := (\<lambda>n b (s, k). (case s n of Some u \<Rightarrow> Inr u | None \<Rightarrow> Inl (Errorf ''not found''), (s, k))),
     api_UpdateUser := (\<lambda>u (s, k). (if k = 0 then Inr u else Inl (Errorf ''connection lost''),
       (s(md_Name (usr_Metadata u) \<mapsto> u), k - 1)))\<rparr>"

lemma lossy_flaky: "flaky_store fst lossy_api"
  by (auto simp: flaky_store_def lossy_api_def split: option.splits)

definition waiting :: "'s role_state surroundings" where
  "waiting = \<lparr>sur_Code = (\<lambda>_. code_Unavailable), sur_Details = (\<lambda>_. []), sur_Now = (\<lambda>s. (0, s)),
     sur_Wait = (\<lambda>d s. (True, s))\<rparr>"

lemma waiting_leaves: "leaves_store st waiting"
  by (simp add: leaves_store_def waiting_def)

lemma waiting_delay: "snd (retry_delay waiting r e s) = s"
  by (simp add: retry_delay_def waiting_def Let_def)

lemma waiting_tries:
  fixes s :: "'s role_state"
  shows "tries waiting call r (Suc n) s = (case call s of
     (Inr a, s') \<Rightarrow> (Inr a, s')
   | (Inl e, s') \<Rightarrow> if is_panic e then (Inl e, s')
       else tries waiting call (r\<lparr>rt_attempts := rt_attempts r + 1\<rparr>) n s')"
proof -
  have "retryable (waiting :: 's role_state surroundings) e" "sur_Wait waiting d s = (True, s)"
    "snd (retry_delay waiting r e s) = s" for r e d and s :: "'s role_state"
    by (simp_all add: waiting_delay) (simp_all add: retryable_def waiting_def)
  then show ?thesis
    by (simp add: Let_def split_beta split: sum.split)
qed

lemma lossy_Grant:
  assumes "u0 name = Some user" "md_Name (usr_Metadata user) = name"
    and "name \<noteq> []" "Wildcard \<noteq> name" "role \<noteq> []"
  shows "on_world (role_Grant (client_of lossy_api) (Some (user_ref name)) (Some (membership_of role))) ((u0, k), cache) =
    (if k = 0 then Inr () else Inl (Wrapf ''baton-teleport: failed to grant role'' (Errorf ''connection lost'')),
     ((u0(name \<mapsto> granted role name user), k - 1), cache))"
proof -
  have "api_GetUser lossy_api name False (u0, k) = (Inr user, (u0, k))"
    using assms(1) by (simp add: lossy_api_def)
  from update_run(1) [OF client_of_uses assms(3) this assms(4,5)] show ?thesis
    using assms(2) by (simp add: on_world_def lossy_api_def)
qed

text \<open>The first update takes effect but its answer is lost; the second attempt succeeds.\<close>

theorem retried_provisioning_is_once_witness:
  "\<exists>s' cache'. builder_Grant waiting
      (connector_registry (\<lambda>s. (40, s)) \<lparr>con_Client = client_of lossy_api\<rparr>)
      (Some (user_ref ''ann'')) (Some (membership_of ''ops'')) ((town, 1), []) = Some (Inr (), (s', cache')) \<and>
    fst s' = town(''ann'' \<mapsto> granted ''ops'' ''ann'' (sample_user ''ann'' [''dev'']))"
proof -
  let ?rg = "connector_registry (\<lambda>s. (40, s)) \<lparr>con_Client = client_of lossy_api\<rparr>"
  let ?u = "sample_user ''ann'' [''dev'']"
  have uses: "uses_api (con_Client \<lparr>con_Client = client_of lossy_api\<rparr>) lossy_api"
    by (simp add: client_of_uses)
  have args: "fst (town, 1 :: nat) ''ann'' = Some ?u" "md_Name (usr_Metadata ?u) = ''ann''"
    "''ann'' \<noteq> []" "Wildcard \<noteq> ''ann''" "''ops'' \<noteq> []"
    by (simp_all add: town_def sample_user_def sample_metadata_def Wildcard_def)
  obtain res s' cache' where run: "builder_Grant waiting ?rg (Some (user_ref ''ann''))
      (Some (membership_of ''ops'')) ((town, 1), []) = Some (res, (s', cache'))"
    "res = Inr () \<longrightarrow> fst s' = town(''ann'' \<mapsto> granted ''ops'' ''ann'' ?u)"
    using retried_provisioning_is_once [where s = "(town, 1 :: nat)", OF NewConnector_registry uses
        lossy_flaky waiting_leaves args, of "\<lambda>s. (40, s)" "[]", THEN conjunct1]
    unfolding fst_conv by blast
  note call1 = lossy_Grant [of town "''ann''" ?u "''ops''" 1 "[]", OF args [unfolded fst_conv]]
  have "(town(''ann'' \<mapsto> granted ''ops'' ''ann'' ?u)) ''ann'' = Some (granted ''ops'' ''ann'' ?u)"
    "md_Name (usr_Metadata (granted ''ops'' ''ann'' ?u)) = ''ann''" using args(2) by simp_all
  note call2 = lossy_Grant [where ?u0.0 = "town(''ann'' \<mapsto> granted ''ops'' ''ann'' ?u)" and k = 0 and cache = "[]",
      OF this args(3-5)]
  have "fst (tries waiting (on_world (role_Grant (client_of lossy_api) (Some (user_ref ''ann''))
      (Some (membership_of ''ops'')))) provisioning_retryer 3 ((town, 1), [])) = Inr ()"
    by (simp add: numeral_3_eq_3 waiting_tries call1 [unfolded One_nat_def] call2 del: tries.simps(2))
  then have "res = Inr ()"
    using run(1) by (auto simp: builder_Grant_role [OF NewConnector_registry] provisioning_loop wrapped_def
        split: prod.splits)
  with run show ?thesis by blast
qed

text \<open>
  C16: Requests reach the operation they are for, and no other. Through the SDK a grant or a
  revocation runs the \<open>Grant\<close> or \<open>Revoke\<close> of the roles, under the retry loop, exactly when the
  entitlement is one of a role; a lookup runs \<open>Get\<close> of the users or of the roles, a deletion
  \<open>Delete\<close> of the users, and an account creation, once its credential options are
  converted, \<open>CreateAccount\<close> of the users, whose password link it then encrypts for every
  configuration of the request. Every other resource type is refused without a call, in
  particular the memberships that nodes, applications and databases offer. None of them touches
  the cache.
\<close>

theorem requests_are_dispatched:
  assumes "NewConnector clk d = Inr rg"
  shows "builder_Grant env rg p e s =
      (if entitlement_type e = ''role''
       then wrapped ''grant failed''
         (retry_loop env (on_world (role_Grant (con_Client d) p e)) provisioning_retryer s)
       else Some (Inl (no_provisioner (entitlement_type e)), s)) \<and>
    builder_Revoke env rg (Some g) s =
      (if entitlement_type (gr_Entitlement g) = ''role''
       then wrapped ''revoke failed''
         (retry_loop env (on_world (role_Revoke (con_Client d) (Some g))) provisioning_retryer s)
       else Some (Inl (no_provisioner (entitlement_type (gr_Entitlement g))), s)) \<and>
    sdk_GetResource rg rid parent =
      (if GetResourceType rid = ''user''
         then io_wrap ''error: get resource failed'' (on_world (user_Get (con_Client d) rid parent))
       else if GetResourceType rid = ''role''
         then io_wrap ''error: get resource failed'' (on_world (role_Get (con_Client d) rid))
       else io_fail (Errorf (''error: get resource with unknown resource type '' @ GetResourceType rid))) \<and>
    sdk_DeleteResource rg rid =
      (if GetResourceType rid = ''user''
       then io_wrap ''error: delete resource failed'' (on_world (user_Delete (con_Client d) rid))
       else io_fail (Errorf (''resource type '' @ GetResourceType rid @ '' does not have resource Delete() configured''))) \<and>
    sdk_CreateAccount cry rg req s =
      (if car_ResourceTypeId req \<notin> {[], ''user''}
       then (Inl (Errorf (''connector does not have account manager configured for resource type: '' @ car_ResourceTypeId req)), s)
       else case cry_ConvertCredentialOptions cry (car_CredentialOptions req) (car_EncryptionConfigs req) of
         Inl err \<Rightarrow> (Inl (wrap_error ''error: converting credential options failed'' err), s)
       | Inr _ \<Rightarrow> (case on_world (CreateAccount (con_Client d) (car_AccountInfo req)) s of
           (Inl err, s') \<Rightarrow> (Inl (wrap_error ''error: create account failed'' err), s')
         | (Inr (res, ps), s') \<Rightarrow>
             (case traverse (\<lambda>p. traverse (\<lambda>k. cry_EncryptFor cry k p) (car_EncryptionConfigs req)) ps of
                Inl err \<Rightarrow> (Inl err, s') | Inr ess \<Rightarrow> (Inr (res, concat ess), s'))))"
proof -
  have rg: "rg = connector_registry clk d" using assms by (simp add: NewConnector_registry)
  have account: "account_manager_for rg (car_ResourceTypeId req) =
      (if car_ResourceTypeId req \<in> {[], ''user''} then Inr (UserSyncer (newUserBuilder (con_Client d)))
       else Inl (Errorf (''connector does not have account manager configured for resource type: '' @ car_ResourceTypeId req)))"
    unfolding rg by (simp add: account_manager_for_def registry_simps)
  show ?thesis
  proof (intro conjI, goal_cases)
    case 5
    show ?case
      by (cases "cry_ConvertCredentialOptions cry (car_CredentialOptions req) (car_EncryptionConfigs req)";
          cases "on_world (CreateAccount (con_Client d) (car_AccountInfo req)) s")
        (simp_all add: sdk_CreateAccount_def account newUserBuilder_def NewEncryptionManager_def
          Encrypt_def [abs_def] io_bind_def io_wrap_def io_lift_def io_fail_def io_return_def split: sum.splits)
  qed (simp_all add: rg builder_Grant_def builder_Revoke_def sdk_GetResource_def
      sdk_DeleteResource_def registry_simps)
qed

text \<open>Granting the membership of an application, which its entitlement offers to users.\<close>

theorem requests_are_dispatched_witness:
  "\<exists>rg e. NewConnector (\<lambda>s. (40, Suc s)) \<lparr>con_Client = client_of team_api\<rparr> = Inr rg \<and>
    app_Entitlements (Some ((user_ref ''web'')\<lparr>res_Id := Some \<lparr>rid_ResourceType = ''app'', rid_Resource = ''r7''\<rparr>\<rparr>)) = Inr [e] \<and>
    builder_Grant waiting rg (Some (user_ref ''ann'')) (Some e) (7, []) =
      Some (Inl (no_provisioner ''app''), (7, []))"
proof -
  let ?d = "\<lparr>con_Client = client_of team_api\<rparr>"
  let ?rg = "connector_registry (\<lambda>s. (40, Suc s)) ?d"
  let ?app = "(user_ref ''web'')\<lparr>res_Id := Some \<lparr>rid_ResourceType = ''app'', rid_Resource = ''r7''\<rparr>\<rparr>"
  obtain e where e: "app_Entitlements (Some ?app) = Inr [e]" "ent_Resource e = Some ?app"
    by (rule app_ent.one_membership [of ?app])
  have "entitlement_type (Some e) = ''app''"
    by (simp add: entitlement_type_def e(2))
  then have "builder_Grant waiting ?rg (Some (user_ref ''ann'')) (Some e) (7, []) =
      Some (Inl (no_provisioner ''app''), (7, []))"
    using conjunct1 [OF requests_are_dispatched [where clk = "\<lambda>s. (40, Suc s)" and d = ?d, OF NewConnector_registry]]
    by simp
  with e(1) NewConnector_registry show ?thesis by blast
qed

end
