(* ===== verification/Provisioning_Races.thy ===== *)
theory Provisioning_Races
  imports Membership_Updates
begin

text \<open>
  \<open>Grant\<close> and \<open>Revoke\<close> (\<open>pkg/connector/roles.go\<close>) under concurrency: the SDK's runner
  (\<open>connectorrunner/runner.go\<close>, vendored) works on several tasks at a time, and each of the two
  operations is a lookup and an update with nothing that keeps others from updating the user in
  between. A worker is a program counter with one step per call of the service.
\<close>

section \<open>Requests and workers\<close>

datatype request =
    GrantRole (rq_Role: string) (rq_User: string)
  | RevokeRole (rq_Role: string) (rq_User: string)

fun request_op :: "'s client_ptr \<Rightarrow> request \<Rightarrow> ('s, unit) io" where
  "request_op c (GrantRole role name) = role_Grant c (Some (user_ref name)) (Some (membership_of role))"
| "request_op c (RevokeRole role name) = role_Revoke c (Some (grant_of role name))"

fun change_of :: "request \<Rightarrow> user_v2 \<Rightarrow> user_v2" where
  "change_of (GrantRole role name) u = granted role name u"
| "change_of (RevokeRole role name) u = revoked role name u"

fun failure :: "request \<Rightarrow> string" where
  "failure (GrantRole role name) = ''baton-teleport: failed to grant role''"
| "failure (RevokeRole role name) = ''baton-teleport: failed to revoke role''"

definition valid_request :: "request \<Rightarrow> bool" where
  "valid_request q \<longleftrightarrow> rq_User q \<noteq> [] \<and> Wildcard \<noteq> rq_User q \<and> rq_Role q \<noteq> []"

lemma change_of_metadata [simp]: "usr_Metadata (change_of q u) = usr_Metadata u"
  by (cases q) simp_all

datatype prov_pc =
    Idle
  | Lookup request
  | Update request user_v2
  | Finished request "unit result"

fun prov_step :: "'s client_ptr \<Rightarrow> prov_pc \<Rightarrow> 's \<Rightarrow> prov_pc \<times> 's" where
  "prov_step c (Lookup q) s = (case client_GetUser c (rq_User q) False s of
     (Inl e, s') \<Rightarrow> (Finished q (Inl e), s')
   | (Inr u, s') \<Rightarrow> (Update q u, s'))"
| "prov_step c (Update q u) s =
     (case io_wrap (failure q) (with_client c (\<lambda>api. api_UpdateUser api (change_of q u))) s of
        (r, s') \<Rightarrow> (Finished q (res_bind r (\<lambda>_. Inr ())), s'))"
| "prov_step c pc s = (pc, s)"

text \<open>A worker that runs alone does what the operation does.\<close>

lemma alone_request:
  assumes "uses_api c api" "valid_request q"
  shows "((\<lambda>(pc, s). prov_step c pc s) ^^ 2) (Lookup q, s) =
    (case request_op c q s of (r, s') \<Rightarrow> (Finished q r, s'))"
proof -
  obtain tc where c: "c = Some tc" "tc_Client tc = Some api" using assms(1) by (auto simp: uses_api_def)
  have n: "rq_User q \<noteq> []" "Wildcard \<noteq> rq_User q" "rq_Role q \<noteq> []"
    using assms(2) by (simp_all add: valid_request_def)
  obtain g s1 where g: "api_GetUser api (rq_User q) False s = (g, s1)"
    by (cases "api_GetUser api (rq_User q) False s")
  show ?thesis
  proof (cases g)
    case (Inl e)
    then show ?thesis
      using c n g lookup_error [OF assms(1) n(1), of s e s1]
      by (cases q) (simp_all add: numeral_2_eq_2 client_GetUser_def)
  next
    case (Inr u)
    obtain w s2 where w: "api_UpdateUser api (change_of q u) s1 = (w, s2)"
      by (cases "api_UpdateUser api (change_of q u) s1")
    show ?thesis
      using c n g w Inr update_run [OF assms(1) n(1), of s u s1]
      by (cases q; cases w) (simp_all add: numeral_2_eq_2 client_GetUser_def io_wrap_def)
  qed
qed

section \<open>A pool of workers\<close>

text \<open>
  The service stores users, so that the store is the state of the world; \<open>pv_log\<close> is a ghost,
  the requests whose updates have been made, the latest first.
\<close>

record prov_pool =
  pv_store :: "string \<Rightarrow> user_v2 option"
  pv_pc :: "nat \<Rightarrow> prov_pc"
  pv_log :: "request list"

fun working_on :: "prov_pc \<Rightarrow> string option" where
  "working_on (Lookup q) = Some (rq_User q)"
| "working_on (Update q u) = Some (rq_User q)"
| "working_on pc = None"

definition prov_after :: "(string \<Rightarrow> user_v2 option) client_ptr \<Rightarrow> nat \<Rightarrow> prov_pool \<Rightarrow> prov_pool" where
  "prov_after c t p = (case prov_step c (pv_pc p t) (pv_store p) of
     (pc', s') \<Rightarrow> \<lparr>pv_store = s', pv_pc = (pv_pc p)(t := pc'),
       pv_log = (case pv_pc p t of Update q u \<Rightarrow> q # pv_log p | _ \<Rightarrow> pv_log p)\<rparr>)"

text \<open>With \<open>single\<close> set, a request is only taken on while no other one for its user is under way.\<close>

inductive prov_run ::
    "bool \<Rightarrow> (string \<Rightarrow> user_v2 option) client_ptr \<Rightarrow> (string \<Rightarrow> user_v2 option) \<Rightarrow> prov_pool \<Rightarrow> bool"
  for single :: bool and c :: "(string \<Rightarrow> user_v2 option) client_ptr" and s0 :: "string \<Rightarrow> user_v2 option" where
  init: "prov_run single c s0 \<lparr>pv_store = s0, pv_pc = (\<lambda>_. Idle), pv_log = []\<rparr>"
| call: "prov_run single c s0 p \<Longrightarrow> working_on (pv_pc p t) = None \<Longrightarrow> valid_request q \<Longrightarrow>
     single \<longrightarrow> (\<forall>t'. working_on (pv_pc p t') \<noteq> Some (rq_User q)) \<Longrightarrow>
     prov_run single c s0 (p\<lparr>pv_pc := (pv_pc p)(t := Lookup q)\<rparr>)"
| work: "prov_run single c s0 p \<Longrightarrow> prov_run single c s0 (prov_after c t p)"

text \<open>The operations of \<open>roles.go\<close> one after the other, the latest request first in the list.\<close>

fun one_by_one ::
    "(string \<Rightarrow> user_v2 option) client_ptr \<Rightarrow> request list \<Rightarrow> (string \<Rightarrow> user_v2 option) \<Rightarrow> string \<Rightarrow> user_v2 option" where
  "one_by_one c [] s = s"
| "one_by_one c (q # qs) s = snd (request_op c q (one_by_one c qs s))"

definition named_store :: "(string \<Rightarrow> user_v2 option) \<Rightarrow> bool" where
  "named_store s \<longleftrightarrow> (\<forall>n u. s n = Some u \<longrightarrow> md_Name (usr_Metadata u) = n)"

lemma store_request:
  assumes "uses_api c api" "user_store api" "valid_request q" "s (rq_User q) = Some u" "named_store s"
  shows "request_op c q s = (Inr (), s(rq_User q \<mapsto> change_of q u))"
proof -
  obtain tc where c: "c = Some tc" "tc_Client tc = Some api" using assms(1) by (auto simp: uses_api_def)
  have n: "rq_User q \<noteq> []" "Wildcard \<noteq> rq_User q" "rq_Role q \<noteq> []"
    using assms(3) by (simp_all add: valid_request_def)
  have "md_Name (usr_Metadata u) = rq_User q" using assms(4,5) by (simp add: named_store_def)
  then show ?thesis
    using store_Grant [where s = s, OF c assms(2) n assms(4)] store_Revoke [where s = s, OF c assms(2) n(1) assms(4)]
    by (cases q) simp_all
qed

section \<open>One request per user at a time\<close>

definition serial_pool ::
    "(string \<Rightarrow> user_v2 option) client_ptr \<Rightarrow> (string \<Rightarrow> user_v2 option) \<Rightarrow> prov_pool \<Rightarrow> bool" where
  "serial_pool c s0 p \<longleftrightarrow>
     named_store (pv_store p) \<and> pv_store p = one_by_one c (pv_log p) s0 \<and>
     (\<forall>t q u. pv_pc p t = Update q u \<longrightarrow> pv_store p (rq_User q) = Some u \<and> valid_request q) \<and>
     (\<forall>t q. pv_pc p t = Lookup q \<longrightarrow> valid_request q) \<and>
     (\<forall>t t' n. working_on (pv_pc p t) = Some n \<longrightarrow> working_on (pv_pc p t') = Some n \<longrightarrow> t = t') \<and>
     (\<forall>t q. pv_pc p t = Finished q (Inr ()) \<longrightarrow> q \<in> set (pv_log p))"

lemma serial_poolD:
  assumes "serial_pool c s0 p"
  shows "named_store (pv_store p)" "pv_store p = one_by_one c (pv_log p) s0"
    and "pv_pc p t = Update q u \<Longrightarrow> pv_store p (rq_User q) = Some u"
    and "pv_pc p t = Update q u \<Longrightarrow> valid_request q"
    and "pv_pc p t = Lookup q \<Longrightarrow> valid_request q"
    and "working_on (pv_pc p t) = Some n \<Longrightarrow> working_on (pv_pc p t') = Some n \<Longrightarrow> t = t'"
    and "pv_pc p t = Finished q (Inr ()) \<Longrightarrow> q \<in> set (pv_log p)"
  using assms unfolding serial_pool_def by blast+

lemma serial_init: "named_store s0 \<Longrightarrow> serial_pool c s0 \<lparr>pv_store = s0, pv_pc = (\<lambda>_. Idle), pv_log = []\<rparr>"
  by (simp add: serial_pool_def)

lemma serial_call:
  assumes "serial_pool c s0 p" "valid_request q" "\<forall>t'. working_on (pv_pc p t') \<noteq> Some (rq_User q)"
  shows "serial_pool c s0 (p\<lparr>pv_pc := (pv_pc p)(t := Lookup q)\<rparr>)"
  using serial_poolD [OF assms(1)] assms(2,3) by (auto simp: serial_pool_def)

lemma serial_lookup:
  assumes p: "serial_pool c s0 p" and c: "uses_api c api" "user_store api" and pc: "pv_pc p t = Lookup q"
  shows "serial_pool c s0 (prov_after c t p)"
proof -
  obtain tc where tc: "c = Some tc" "tc_Client tc = Some api" using c(1) by (auto simp: uses_api_def)
  have q: "valid_request q" "rq_User q \<noteq> []"
    using serial_poolD(5) [OF p pc] by (simp_all add: valid_request_def)
  have get: "client_GetUser c (rq_User q) False s =
      (case s (rq_User q) of Some u \<Rightarrow> (Inr u, s) | None \<Rightarrow> (Inl (Errorf ''not found''), s))" for s
    using c(2) q(2) by (simp add: client_GetUser_def tc user_store_def)
  have busy: "working_on (pv_pc p t) = Some (rq_User q)" by (simp add: pc)
  show ?thesis
    using serial_poolD [OF p] q(1) busy
    by (cases "pv_store p (rq_User q)") (auto simp: serial_pool_def prov_after_def pc get)
qed

lemma serial_update:
  assumes p: "serial_pool c s0 p" and c: "uses_api c api" "user_store api" and pc: "pv_pc p t = Update q u"
  shows "serial_pool c s0 (prov_after c t p)"
proof -
  obtain tc where tc: "c = Some tc" "tc_Client tc = Some api" using c(1) by (auto simp: uses_api_def)
  let ?s = "pv_store p" and ?n = "rq_User q"
  have u: "?s ?n = Some u" and q: "valid_request q" using serial_poolD(3,4) [OF p pc] by simp_all
  have name: "md_Name (usr_Metadata u) = ?n"
    using serial_poolD(1) [OF p] u by (simp add: named_store_def)
  have after: "prov_after c t p = \<lparr>pv_store = ?s(?n \<mapsto> change_of q u),
      pv_pc = (pv_pc p)(t := Finished q (Inr ())), pv_log = q # pv_log p\<rparr>"
    using user_store_UpdateUser [where s = ?s and n = ?n and u = "change_of q u", OF c(2) u] name
    by (simp add: prov_after_def pc tc io_wrap_def)
  have one: "one_by_one c (q # pv_log p) s0 = ?s(?n \<mapsto> change_of q u)"
    using store_request [where s = ?s, OF c q u serial_poolD(1) [OF p]] serial_poolD(2) [OF p] by simp
  have named: "named_store (?s(?n \<mapsto> change_of q u))"
    using serial_poolD(1) [OF p] name by (auto simp: named_store_def)
  have others: "rq_User q' \<noteq> ?n" if "pv_pc p t' = Update q' u'" "t' \<noteq> t" for t' q' u'
    using serial_poolD(6) [OF p, of t' ?n t] that pc by auto
  show ?thesis
    unfolding after serial_pool_def
    using serial_poolD [OF p] others named one by auto
qed

lemma after_idle: "working_on (pv_pc p t) = None \<Longrightarrow> prov_after c t p = p"
  by (cases p; cases "pv_pc p t") (auto simp: prov_after_def fun_upd_idem)

lemma serial_run:
  assumes "prov_run True c s0 p" "uses_api c api" "user_store api" "named_store s0"
  shows "serial_pool c s0 p"
  using assms(1)
proof (induction rule: prov_run.induct)
  case init
  then show ?case using assms(4) by (rule serial_init)
next
  case (call p t q)
  then show ?case by (intro serial_call) simp_all
next
  case (work p t)
  show ?case
  proof (cases "pv_pc p t")
    case (Lookup q)
    then show ?thesis by (rule serial_lookup [OF work.IH assms(2,3)])
  next
    case (Update q u)
    then show ?thesis by (rule serial_update [OF work.IH assms(2,3)])
  qed (use work.IH in \<open>simp_all add: after_idle\<close>)
qed

section \<open>Properties\<close>

text \<open>
  C6: Provisioning different users at the same time is safe. On a service that stores users,
  when any number of workers grant and revoke in any interleaving of their calls, but never two
  for the same user at a time, the store is at every moment the one that the operations of
  \<open>roles.go\<close> leave when they are run one after the other in the order of the updates, and
  every request that has reported success is among them.
\<close>

theorem provisioning_is_serial:
  assumes "prov_run True c s0 p" "uses_api c api" "user_store api" "named_store s0"
  shows "pv_store p = one_by_one c (pv_log p) s0 \<and>
    (\<forall>t q. pv_pc p t = Finished q (Inr ()) \<longrightarrow> q \<in> set (pv_log p))"
  using serial_poolD(2,7) [OF serial_run [OF assms]] by blast

lemma town_named: "named_store town"
  using town_ok by (simp add: named_store_def store_ok_def)

text \<open>Two grants of two users, whose calls alternate.\<close>

theorem provisioning_is_serial_witness:
  "\<exists>p. prov_run True (client_of town_api) town p \<and>
    pv_pc p 0 = Finished (GrantRole ''ops'' ''ann'') (Inr ()) \<and>
    pv_pc p 1 = Finished (RevokeRole ''ops'' ''bob'') (Inr ()) \<and>
    pv_store p = one_by_one (client_of town_api) [RevokeRole ''ops'' ''bob'', GrantRole ''ops'' ''ann''] town"
proof -
  let ?c = "client_of town_api"
  let ?q = "GrantRole ''ops'' ''ann''" and ?r = "RevokeRole ''ops'' ''bob''"
  let ?u = "sample_user ''ann'' [''dev'']" and ?v = "sample_user ''bob'' [''ops'']"
  let ?s = "town(''ann'' \<mapsto> change_of ?q ?u)"
  let ?p = "\<lambda>s pc0 pc1 log. \<lparr>pv_store = s, pv_pc = (\<lambda>_. Idle)(0 := pc0, 1 := pc1), pv_log = log\<rparr>"
  have look: "client_GetUser ?c ''ann'' False town = (Inr ?u, town)"
    "client_GetUser ?c ''bob'' False town = (Inr ?v, town)"
    using town_store by (simp_all add: client_GetUser_def client_of_def user_store_def town_def)
  have at: "town ''ann'' = Some ?u" "?s ''bob'' = Some ?v" by (simp_all add: town_def)
  have name: "md_Name (usr_Metadata (change_of ?q ?u)) = ''ann''" "md_Name (usr_Metadata (change_of ?r ?v)) = ''bob''"
    by (simp_all add: sample_user_def sample_metadata_def)
  have upd: "with_client ?c (\<lambda>api. api_UpdateUser api (change_of ?q ?u)) town = (Inr (change_of ?q ?u), ?s)"
    "with_client ?c (\<lambda>api. api_UpdateUser api (change_of ?r ?v)) ?s =
      (Inr (change_of ?r ?v), ?s(''bob'' \<mapsto> change_of ?r ?v))"
    using user_store_UpdateUser [where s = town, OF town_store at(1) name(1)]
      user_store_UpdateUser [where s = ?s, OF town_store at(2) name(2)]
    by (simp_all add: client_of_def del: change_of.simps)
  have ok: "valid_request ?q" "valid_request ?r" by (simp_all add: valid_request_def Wildcard_def)
  have "prov_run True ?c town (?p town (Lookup ?q) Idle [])"
    using prov_run.call [where t = 0 and q = ?q, OF prov_run.init [of True ?c town]] ok by (simp add: fun_upd_idem)
  from prov_run.call [OF this, of 1 ?r]
  have "prov_run True ?c town (?p town (Lookup ?q) (Lookup ?r) [])" using ok by simp
  from prov_run.work [OF this, of 0]
  have "prov_run True ?c town (?p town (Update ?q ?u) (Lookup ?r) [])"
    by (simp add: prov_after_def look fun_upd_twist)
  from prov_run.work [OF this, of 1]
  have "prov_run True ?c town (?p town (Update ?q ?u) (Update ?r ?v) [])"
    by (simp add: prov_after_def look)
  from prov_run.work [OF this, of 0]
  have "prov_run True ?c town (?p ?s (Finished ?q (Inr ())) (Update ?r ?v) [?q])"
    by (simp add: prov_after_def upd io_wrap_def fun_upd_twist del: change_of.simps)
  from prov_run.work [OF this, of 1]
  have run: "prov_run True ?c town
      (?p (?s(''bob'' \<mapsto> change_of ?r ?v)) (Finished ?q (Inr ())) (Finished ?r (Inr ())) [?r, ?q])"
    by (simp add: prov_after_def upd io_wrap_def del: change_of.simps)
  note serial = conjunct1 [OF provisioning_is_serial [OF run client_of_uses town_store town_named]]
  show ?thesis
    by (intro exI conjI, rule run)
      (use serial in \<open>simp_all del: one_by_one.simps change_of.simps request_op.simps\<close>)
qed

text \<open>
  C30: Provisioning the same user at the same time loses updates. For any two requests for a user
  of the store there is an interleaving in which both report success but the store holds the
  outcome of the second one alone, applied to the user as it was before either: a granted role
  is not there, or a revoked role is back.
\<close>

theorem concurrent_update_lost:
  assumes "uses_api c api" "user_store api" "named_store s0"
    and "valid_request q" "valid_request r" "rq_User q = rq_User r" "s0 (rq_User r) = Some u"
  shows "\<exists>p. prov_run False c s0 p \<and> pv_pc p 0 = Finished q (Inr ()) \<and> pv_pc p 1 = Finished r (Inr ()) \<and>
    pv_log p = [r, q] \<and> pv_store p = s0(rq_User r \<mapsto> change_of r u)"
proof -
  let ?n = "rq_User r"
  let ?s = "s0(?n \<mapsto> change_of q u)"
  let ?p = "\<lambda>s pc0 pc1 log. \<lparr>pv_store = s, pv_pc = (\<lambda>_. Idle)(0 := pc0, 1 := pc1), pv_log = log\<rparr>"
  obtain tc where tc: "c = Some tc" "tc_Client tc = Some api" using assms(1) by (auto simp: uses_api_def)
  have n: "?n \<noteq> []" "md_Name (usr_Metadata u) = ?n"
    using assms(3,5,7) by (simp_all add: valid_request_def named_store_def)
  have look: "client_GetUser c ?n False s0 = (Inr u, s0)"
    using assms(2,7) n(1) by (simp add: client_GetUser_def tc user_store_def)
  have upd: "with_client c (\<lambda>api. api_UpdateUser api (change_of q' u)) s = (Inr (change_of q' u), s(?n \<mapsto> change_of q' u))"
    if "s ?n = Some v" for q' s v
    using user_store_UpdateUser [where s = s and n = ?n and u = "change_of q' u", OF assms(2) that] n(2)
    by (simp add: tc)
  have "prov_run False c s0 (?p s0 (Lookup q) Idle [])"
    using prov_run.call [where t = 0 and q = q, OF prov_run.init [of False c s0]] assms(4) by (simp add: fun_upd_idem)
  from prov_run.call [OF this, of 1 r]
  have "prov_run False c s0 (?p s0 (Lookup q) (Lookup r) [])" using assms(5) by simp
  from prov_run.work [OF this, of 0]
  have "prov_run False c s0 (?p s0 (Update q u) (Lookup r) [])"
    by (simp add: prov_after_def assms(6) look fun_upd_twist)
  from prov_run.work [OF this, of 1]
  have "prov_run False c s0 (?p s0 (Update q u) (Update r u) [])"
    by (simp add: prov_after_def look)
  from prov_run.work [OF this, of 0]
  have "prov_run False c s0 (?p ?s (Finished q (Inr ())) (Update r u) [q])"
    by (simp add: prov_after_def upd assms(7) io_wrap_def fun_upd_twist)
  from prov_run.work [OF this, of 1]
  have run: "prov_run False c s0 (?p (s0(?n \<mapsto> change_of r u)) (Finished q (Inr ())) (Finished r (Inr ())) [r, q])"
    by (simp add: prov_after_def upd io_wrap_def)
  show ?thesis by (intro exI conjI, rule run) simp_all
qed

text \<open>Bob loses the role \<open>ops\<close> and gets \<open>dev\<close> at the same time: afterwards he has both.\<close>

theorem concurrent_update_lost_witness:
  "\<exists>p. prov_run False (client_of town_api) town p \<and>
    pv_pc p 0 = Finished (RevokeRole ''ops'' ''bob'') (Inr ()) \<and> ''bob'' \<in> members_of ''ops'' (pv_store p)"
proof -
  let ?u = "sample_user ''bob'' [''ops'']"
  have ok: "valid_request (RevokeRole ''ops'' ''bob'')" "valid_request (GrantRole ''dev'' ''bob'')"
    "rq_User (RevokeRole ''ops'' ''bob'') = rq_User (GrantRole ''dev'' ''bob'')"
    "town (rq_User (GrantRole ''dev'' ''bob'')) = Some ?u"
    by (simp_all add: valid_request_def Wildcard_def town_def)
  obtain p where "prov_run False (client_of town_api) town p"
    "pv_pc p 0 = Finished (RevokeRole ''ops'' ''bob'') (Inr ())"
    "pv_store p = town(''bob'' \<mapsto> granted ''dev'' ''bob'' ?u)"
    using concurrent_update_lost [OF client_of_uses town_store town_named ok] by auto
  then show ?thesis by (intro exI [of _ p]) (simp add: members_of_def sample_user_def)
qed

end
