(* ===== verification/Spec2Isabelle.thy ===== *)
theory Spec2Isabelle
  imports Role_Cache Feed_Repeats Feed_Tokens Change_Events Populate_Safety Full_Sync Process_Entry
    Test_Helpers Retry Provisioning_Races
begin

text \<open>
  A verification library of \<open>baton-teleport\<close>, the connector that synchronises the users,
  roles, nodes, applications and databases of a Teleport cluster into ConductorOne,
  provisions accounts and role memberships, and streams audit events.

  \<^bold>\<open>The program.\<close> The SDK runner validates the configuration (\<open>pkg/config\<close>) and calls
  \<open>connector.New\<close>, which dials Teleport through \<open>client.New\<close> (\<open>pkg/client/client.go\<close>). The
  connector (\<open>pkg/connector/connector.go\<close>) hands the SDK one builder per resource type and two
  event feeds, all of which share one client pointer. A full synchronisation calls \<open>List\<close>,
  \<open>Entitlements\<close> and \<open>Grants\<close> of each builder; provisioning calls \<open>Grant\<close>, \<open>Revoke\<close>,
  \<open>CreateAccount\<close> and \<open>Delete\<close>; between synchronisations the SDK calls \<open>ListEvents\<close> of the feeds
  with the opaque cursor the previous call returned.

  \<^bold>\<open>State and effects.\<close> Everything remote is a parameter: a \<open>teleport_api\<close> is a record of
  functions over an abstract state of the outside world, and an operation is a function of
  that state to a result and the next state (\<open>io\<close> in \<open>Prelude\<close>); the clock and the dialler are
  parameters of the same kind. Nothing is assumed of the service unless a theorem says so.
  Errors are values: \<open>Errorf\<close>, \<open>Wrapf\<close> for a wrapped error, \<open>Panic\<close> for a nil dereference, which
  passes through wrapping. The only state the connector keeps between calls is the user cache of
  the role builder, which is explicit in \<open>Roles\<close>, and the cursor, which travels in the token.

  \<^bold>\<open>The service.\<close> What the theorems about several calls assume of Teleport is in named predicates,
  each of which a concrete service of a witness meets. \<open>user_store\<close> (\<open>Roles\<close>): a lookup finds what
  was stored, and an update of a user that is there replaces it; the revision the service gives
  the updated user is left out. \<open>flaky_store\<close> (\<open>Membership_Updates\<close>): the same behind a connection on which
  every call may fail and a failed update may have taken effect. \<open>account_store\<close> (\<open>Accounts\<close>): a
  new user is stored under a revision of the service's own. \<open>role_directory\<close>: roles are found
  under their names and nothing else is. \<open>serves_log\<close> (\<open>Feed_Cycle\<close>): a search returns the pages of
  a log between its bounds, both included; \<open>filters_log\<close>: there is one log for all searches, and each
  sees the events of the types it asks for.

  \<^bold>\<open>Theories and code.\<close>
  \<^item> \<open>Prelude\<close>: results, effects, loops with early return, and the locales \<open>codec\<close> and \<open>codec_chain\<close>.
  \<^item> \<open>Go_Strings\<close>, \<open>Go_Time\<close>, \<open>Go_Base64\<close>, \<open>Go_Json\<close>: the parts of Go's library the code runs on:
    UTF-8, \<open>strings\<close>, RFC 3339 times with nanoseconds, base64, and the JSON of a flat struct.
  \<^item> \<open>Baton_Sdk\<close>, \<open>Teleport_Api\<close>: the vendored values, builders and methods the connector calls.
  \<^item> \<open>Cursor\<close>: \<open>event_pagination.go\<close>. \<open>event_page_cursor\<close> has the three text fields; the abstract
    state is a \<open>window\<close> of instants, and \<open>cursor_of\<close> and \<open>token_window\<close> relate the two.
  \<^item> \<open>Event_Page\<close>, \<open>Usage_Feed\<close>, \<open>Audit_Feed\<close>: \<open>usage_event_feed.go\<close> and \<open>audit_event_feed.go\<close>. The
    locales \<open>paged_feed\<close> and \<open>typed_feed\<close> are the contract both \<open>ListEvents\<close> methods share.
  \<^item> \<open>Event_Feeds\<close>: \<open>Connector.EventFeeds\<close>, registration and dispatch in the SDK's
    \<open>connectorbuilder/events.go\<close>, and runs of a feed as the inductive relation \<open>feed_run\<close>.
  \<^item> \<open>Feed_Cycle\<close>: a consumer that reads whole cycles from a service with a growing log, which is
    where the feeds, the cursor and the paging of the service meet. \<open>Feed_Repeats\<close>: what the next
    cycle delivers again. \<open>Feed_Tokens\<close>: tokens that cannot be read.
  \<^item> \<open>Helpers\<close>: \<open>helpers.go\<close>, \<open>resource_types.go\<close>, and the locales \<open>resource_converter\<close> (a \<open>List\<close>
    converts record by record) and \<open>membership_syncer\<close> (one entitlement per resource).
  \<^item> \<open>Users\<close>, \<open>Roles\<close>, \<open>Nodes\<close>, \<open>Apps\<close>, \<open>Databases\<close>: the five builders, one file of
    \<open>pkg/connector\<close> each; each theory interprets the locales of \<open>Helpers\<close> on its own functions.
  \<^item> \<open>Role_Cache\<close>: the role builder's user cache (\<open>roles.go\<close>, \<open>GetUsers\<close> and \<open>List\<close>) under the
    concurrent calls of the SDK's workers, as the step relation \<open>pool_step\<close>.
  \<^item> \<open>Provisioning\<close>, \<open>Accounts\<close>, \<open>Change_Events\<close>: \<open>users.go\<close>, \<open>roles.go\<close> and the audit feed against a
    store that keeps what is written: grants and revocations, account creation and deletion, and
    the resources that change events name.
  \<^item> \<open>Membership_Updates\<close>: the locale \<open>read_modify_write\<close>, the contract that \<open>Grant\<close> and \<open>Revoke\<close> of
    \<open>roles.go\<close> share: look a user up, change the copy, write it back. \<open>Retry\<close>: the SDK's \<open>Grant\<close> and
    \<open>Revoke\<close> (\<open>resource_provisioner.go\<close> and \<open>retry/retry.go\<close>, vendored), that is the dispatch and the
    retry loop around both, over a service whose calls may fail after they took effect. \<open>Provisioning_Races\<close>: both under concurrent requests, as the relation \<open>prov_run\<close>.
  \<^item> \<open>Builders\<close>: what the builder structs share. \<open>Test_Helpers\<close>: \<open>testHelpers.go\<close>.
  \<^item> \<open>Client\<close>, \<open>Config\<close>, \<open>Connector\<close>: \<open>client.go\<close>; \<open>schema.go\<close> and \<open>conf.gen.go\<close> with the SDK's
    validation; \<open>connector.go\<close>.
  \<^item> \<open>Registration\<close>: which interfaces the builders implement, and how the SDK
    (\<open>connectorbuilder\<close>, vendored) registers them, announces their capabilities and dispatches
    listings, lookups, deletions and account creations to them. \<open>Full_Sync\<close>: the SDK's paging loop over \<open>ListResources\<close>.
  \<^item> \<open>Process_Entry\<close>: \<open>cmd/baton-teleport/main.go\<close> and \<open>pkg/config/gen/gen.go\<close>.
  \<^item> \<open>Test_Events\<close>, \<open>Populate_Events\<close>: the two programs \<open>cmd/test-events\<close> and
    \<open>cmd/populate-test-events\<close> that are run against a live cluster; their state is the outside world
    and what they have written. \<open>Populate_Safety\<close>: what the second may touch on that cluster.
  \<^item> This theory: the properties that span components.

  \<^bold>\<open>What the lemmas show.\<close> Go_Time, Go_Base64 and Go_Json end in round trips, which compose into
  the round trip of the token; the cursor's text operations refine the window's; a page of
  either feed meets an abstract translation of the audit events; along every run of a feed the
  window only moves forward and covers what was emitted; reading cycle after cycle misses no
  event of the log, takes a number of calls that is known beforehand, and repeats exactly the
  events at the boundary of the window; a token that cannot be read fails before any call. The
  builders' lemmas give the resources, entitlements and grants branch by branch, the calls that
  provisioning makes, and what the cache does, for one caller and, as an invariant, for many.
  The objects a synchronisation lists are those that provisioning, lookup and deletion accept;
  however often calls fail and are retried, a membership is provisioned once, within a bounded
  number of calls and time of waiting; requests for different users may be interleaved at
  will, requests for the same user may lose each other's update; a created account is
  listed, found under the revision of the service and deleted again; a change event names what
  has changed, and its resource can be looked up. The SDK's registration gives each resource
  type its capabilities and sends each request only to the operation it is for; a full listing of a type ends and
  returns every record once. The test tool touches nothing on the cluster but its own objects.
  Here the feed is put beside the builders: its grants have the keys of the full
  synchronisation's.

  \<^bold>\<open>Bounds and fuel.\<close> The JSON parser recurses on fuel, twice the length of the input and one,
  which \<open>json_value_fuel\<close> proves to be enough, and on Go's nesting limit of 10000. Instants are
  integers in nanoseconds; text round trips hold for the years 0 to 9999, which RFC 3339 can
  express, and \<open>time_in_range\<close> says so where it is needed. A page is at most 100 events by request;
  the theorems about one page do not rely on the service keeping to it, those about whole
  cycles do. The consumer of \<open>Feed_Cycle\<close> has fuel for its calls: more than a hundredth of the
  length of the log is enough, and \<open>cycle_takes_pages\<close> gives the exact number. The paging loop of
  \<open>Full_Sync\<close> has fuel in the same way, and \<open>full_listing\<close> the exact number of its calls. The retry
  loop is a partial function, since without a limit on the attempts it need not end; with the
  limit of the provisioning calls it does (\<open>retries_are_bounded\<close>). Its counters and durations are
  64 bit words.

  \<^bold>\<open>Simplified.\<close> Logging is left out. Error messages keep their text but not the quoted values
  that \<open>%q\<close> or nested library errors would print. \<open>strings.ToLower\<close> outside ASCII only goes as far
  as the regular expression after it can tell. The Teleport library's \<open>NewRole\<close> is restricted to the
  checks that can fail on the specification the connector passes. Message fields the connector
  neither sets nor reads are not in the records.

  \<^bold>\<open>Not modelled.\<close> The lint rules (\<open>src/tools/rules.go\<close>) are one call into the lint library. The
  SDK's runner and code generator are parameters of \<open>Process_Entry\<close>. Of the vendored libraries
  only what the connector calls, or what calls it on the way from a request, is modelled;
  metrics, timeouts, cancellation and sleeping are not. The conversion of credential options and
  the encryption of one value for one configuration are parameters of \<open>sdk_CreateAccount\<close>.
\<close>

section \<open>One contract for four resource types\<close>

text \<open>
  Roles, nodes, applications and databases offer one entitlement each, of the same shape:
  it is an assignment of the resource it was asked for, its id is the resource's type and id
  with \<open>member\<close>, and only users can be granted it. Asking for a nil resource panics.
\<close>

lemma membership_entitlements:
  "list_all (\<lambda>(entitlements, label).
      entitlements None = Inl (Panic ''nil pointer dereference'') \<and>
      (\<forall>r. \<exists>e. entitlements (Some r) = Inr [e] \<and> ent_Resource e = Some r \<and>
        ent_Id e = NewEntitlementID r ''member'' \<and> ent_Slug e = ''member'' \<and>
        ent_GrantableTo e = [userResourceType] \<and> ent_Purpose e = PURPOSE_VALUE_ASSIGNMENT \<and>
        ent_DisplayName e = res_DisplayName r @ label @ ''member''))
    [(role_Entitlements, '' Role ''), (node_Entitlements, '' Node ''),
     (app_Entitlements, '' App ''), (db_Entitlements, '' Database '')]"
proof -
  note perm = roleMembership_def nodeMembership_def appMembership_def dbMembership_def
  have "\<exists>e. role_Entitlements (Some r) = Inr [e] \<and> ent_Resource e = Some r \<and>
        ent_Id e = NewEntitlementID r ''member'' \<and> ent_Slug e = ''member'' \<and>
        ent_GrantableTo e = [userResourceType] \<and> ent_Purpose e = PURPOSE_VALUE_ASSIGNMENT \<and>
        ent_DisplayName e = res_DisplayName r @ '' Role '' @ ''member''" for r
    by (rule role_ent.one_membership [of r]) (simp add: perm)
  moreover have "\<exists>e. node_Entitlements (Some r) = Inr [e] \<and> ent_Resource e = Some r \<and>
        ent_Id e = NewEntitlementID r ''member'' \<and> ent_Slug e = ''member'' \<and>
        ent_GrantableTo e = [userResourceType] \<and> ent_Purpose e = PURPOSE_VALUE_ASSIGNMENT \<and>
        ent_DisplayName e = res_DisplayName r @ '' Node '' @ ''member''" for r
    by (rule node_ent.one_membership [of r]) (simp add: perm)
  moreover have "\<exists>e. app_Entitlements (Some r) = Inr [e] \<and> ent_Resource e = Some r \<and>
        ent_Id e = NewEntitlementID r ''member'' \<and> ent_Slug e = ''member'' \<and>
        ent_GrantableTo e = [userResourceType] \<and> ent_Purpose e = PURPOSE_VALUE_ASSIGNMENT \<and>
        ent_DisplayName e = res_DisplayName r @ '' App '' @ ''member''" for r
    by (rule app_ent.one_membership [of r]) (simp add: perm)
  moreover have "\<exists>e. db_Entitlements (Some r) = Inr [e] \<and> ent_Resource e = Some r \<and>
        ent_Id e = NewEntitlementID r ''member'' \<and> ent_Slug e = ''member'' \<and>
        ent_GrantableTo e = [userResourceType] \<and> ent_Purpose e = PURPOSE_VALUE_ASSIGNMENT \<and>
        ent_DisplayName e = res_DisplayName r @ '' Database '' @ ''member''" for r
    by (rule db_ent.one_membership [of r]) (simp add: perm)
  ultimately show ?thesis
    by (simp add: role_ent.entitlements_nil node_ent.entitlements_nil app_ent.entitlements_nil
        db_ent.entitlements_nil)
qed

section \<open>The event feed and the full synchronisation\<close>

text \<open>What identifies a membership for the SDK: the entitlement's id and the principal.\<close>

definition grant_key :: "grant \<Rightarrow> string \<times> resource_id option" where
  "grant_key g = (case gr_Entitlement g of None \<Rightarrow> [] | Some e \<Rightarrow> ent_Id e,
     case gr_Principal g of None \<Rightarrow> None | Some p \<Rightarrow> res_Id p)"

definition granted_keys :: "event list \<Rightarrow> (string \<times> resource_id option) list" where
  "granted_keys evs = concat (map (\<lambda>e. case ev_Event e of
     CreateGrantEvent en p \<Rightarrow> [(ent_Id en, res_Id p)] | _ \<Rightarrow> []) evs)"

lemma granted_keys_user_event:
  assumes "u \<noteq> []"
  shows "granted_keys (fst (convertUserEvent eid t u roles)) =
    map (\<lambda>r. (''role:'' @ r @ '':member'', Some \<lparr>rid_ResourceType = ''user'', rid_Resource = u\<rparr>))
      (filter (\<lambda>r. r \<noteq> []) roles)"
proof -
  have "granted_keys (map (\<lambda>r. makeCreateGrantEvent (role_event_id eid r) t r u) rs) =
    map (\<lambda>r. (''role:'' @ r @ '':member'', Some \<lparr>rid_ResourceType = ''user'', rid_Resource = u\<rparr>)) rs" for rs
    by (induction rs)
      (simp_all add: granted_keys_def make_spec membership_entitlement_def user_principal_def)
  then show ?thesis
    using assms by (simp add: convertUserEvent_def role_events_map granted_keys_def
        makeResourceChangeEvent_def)
qed

lemma role_entitlement_id:
  assumes "role_Entitlements (Some r) = Inr [e]"
  shows "ent_Id e = NewEntitlementID r roleMembership"
  by (rule role_ent.one_membership [of r]) (use assms in simp)

text \<open>
  C19: The feed and the full synchronisation agree on what a membership is. For a user and a
  role with names, the keys (entitlement id, principal) of the grants that a user event
  announces for the role are, in order and number, the keys of the grants that the role's
  \<open>Grants\<close> reports for that user, and the entitlement id is the one \<open>Entitlements\<close> offers.
\<close>

theorem feed_agrees_with_sync:
  assumes "user_text_ok user" "md_Name (usr_Metadata user) = u" "u \<noteq> []"
    and "md_Name (rol_Metadata role) = r" "r \<noteq> []"
    and "a = UserCreate m u (usr_Roles user) \<or> a = UserUpdate m u (usr_Roles user)"
  shows "\<exists>gs e. role_user_grants (Some (role_resource_of role)) user = Inr gs \<and>
    role_Entitlements (Some (role_resource_of role)) = Inr [e] \<and>
    map grant_key gs = filter (\<lambda>k. fst k = ent_Id e) (granted_keys (fst (convertAuditEvent a)))"
proof -
  let ?rr = "role_resource_of role"
  let ?gs = "map (\<lambda>_. member_grant ?rr user) (filter (\<lambda>x. x = res_DisplayName ?rr) (usr_Roles user))"
  have id: "NewEntitlementID ?rr roleMembership = ''role:'' @ r @ '':member''"
    using assms(4) by (simp add: NewEntitlementID_def role_resource_of_def roleMembership_def)
  obtain e where e: "role_Entitlements (Some ?rr) = Inr [e]" "ent_Id e = ''role:'' @ r @ '':member''"
    using role_ent.one_membership [of ?rr] id by metis
  have gk: "grant_key (member_grant ?rr user) =
      (''role:'' @ r @ '':member'', Some \<lparr>rid_ResourceType = ''user'', rid_Resource = u\<rparr>)"
    using assms(2) id by (simp add: grant_key_def member_grant_def)
  have dn: "res_DisplayName ?rr = r" using assms(4) by (simp add: role_resource_of_def)
  have ev: "granted_keys (fst (convertAuditEvent a)) =
    map (\<lambda>r. (''role:'' @ r @ '':member'', Some \<lparr>rid_ResourceType = ''user'', rid_Resource = u\<rparr>))
      (filter (\<lambda>r. r \<noteq> []) (usr_Roles user))"
    using assms(6) by (auto simp: granted_keys_user_event [OF assms(3)])
  have "map grant_key (map (\<lambda>_. member_grant ?rr user) (filter (\<lambda>x. x = r) rs)) =
    filter (\<lambda>k. fst k = ent_Id e)
      (map (\<lambda>r. (''role:'' @ r @ '':member'', Some \<lparr>rid_ResourceType = ''user'', rid_Resource = u\<rparr>))
        (filter (\<lambda>r. r \<noteq> []) rs))" for rs
    using assms(5) by (induction rs) (auto simp: gk e(2))
  then show ?thesis
    using role_user_grants_ok [OF assms(1), of ?rr] e ev dn by metis
qed

theorem feed_agrees_with_sync_witness:
  "\<exists>gs. role_user_grants (Some (role_resource_of \<lparr>rol_Metadata = sample_metadata ''dev''\<rparr>))
      (sample_user ''ann'' [''ops'', ''dev'']) = Inr gs \<and>
    map grant_key gs = [(''role:dev:member'', Some \<lparr>rid_ResourceType = ''user'', rid_Resource = ''ann''\<rparr>)]"
proof -
  let ?m = "\<lparr>em_ID = ''1'', em_Time = 20, em_ClusterName = [], em_Type = []\<rparr>"
  let ?user = "sample_user ''ann'' [''ops'', ''dev'']"
  let ?role = "\<lparr>rol_Metadata = sample_metadata ''dev''\<rparr>"
  have "valid_utf8 ''ann''" by code_simp
  then have t: "user_text_ok ?user" by (rule sample_user_text)
  have n: "md_Name (usr_Metadata ?user) = ''ann''" "md_Name (rol_Metadata ?role) = ''dev''"
    "usr_Roles ?user = [''ops'', ''dev'']"
    by (simp_all add: sample_user_def sample_metadata_def)
  have ne: "''ann'' \<noteq> []" "''dev'' \<noteq> []" by simp_all
  obtain gs e where g: "role_user_grants (Some (role_resource_of ?role)) ?user = Inr gs"
    "role_Entitlements (Some (role_resource_of ?role)) = Inr [e]"
    "map grant_key gs = filter (\<lambda>k. fst k = ent_Id e)
       (granted_keys (fst (convertAuditEvent (UserCreate ?m ''ann'' (usr_Roles ?user)))))"
    using feed_agrees_with_sync [OF t n(1) ne(1) n(2) ne(2) disjI1 [OF refl], of ?m] by blast
  have id: "ent_Id e = ''role:dev:member''"
    using role_entitlement_id [OF g(2)]
    by (simp add: NewEntitlementID_def role_resource_of_def roleMembership_def sample_metadata_def)
  have gk: "granted_keys (fst (convertAuditEvent (UserCreate ?m ''ann'' (usr_Roles ?user)))) =
      [(''role:ops:member'', Some \<lparr>rid_ResourceType = ''user'', rid_Resource = ''ann''\<rparr>),
       (''role:dev:member'', Some \<lparr>rid_ResourceType = ''user'', rid_Resource = ''ann''\<rparr>)]"
    unfolding n convertAuditEvent.simps granted_keys_user_event [OF ne(1)] by simp
  have "map grant_key gs =
      [(''role:dev:member'', Some \<lparr>rid_ResourceType = ''user'', rid_Resource = ''ann''\<rparr>)]"
    unfolding g(3) gk id by simp
  then show ?thesis using g(1) by (rule_tac exI [of _ gs]) (rule conjI)
qed

end
